(* ===== verification/Cloudtap_Prelude.thy ===== *)
theory Cloudtap_Prelude
  imports Main "HOL-Library.Word" "HOL-Library.AList" "HOL-Library.List_Lexorder"
    "HOL-Library.Char_ord" "HOL-Library.Sublist"
begin

text \<open>
  The vocabulary shared by every component: Go's 64-bit integers as \<open>int\<close> with the
  wrap-around written out, instants and durations, contexts, and Go maps. A Go string is a
  byte sequence and is modelled as a HOL \<open>string\<close> (a list of 8-bit characters). An error
  return is an \<open>option\<close> (\<open>None\<close> is Go's \<open>nil\<close>) or the left side of a sum.

  The interface of a Go map is the locale \<open>keyed_store\<close>; its interpretation
  \<open>gm\<close> on association lists with distinct keys is what the webhook server and the tunnel
  manager rest on. The locale \<open>ending_system\<close> is the shared argument that a step relation comes
  to its end.
\<close>

named_theorems go_map_simps "lookup, insertion and deletion laws of the modelled Go maps"
named_theorems go_invs "preservation of the components' invariants"

section \<open>Machine integers\<close>

text \<open>Go's \<open>int\<close>, \<open>int64\<close> and \<open>time.Duration\<close> are two's complement 64-bit values.\<close>

definition min_int64 :: int where
  "min_int64 = - (2 ^ 63)"

definition max_int64 :: int where
  "max_int64 = 2 ^ 63 - 1"

definition wrap64 :: "int \<Rightarrow> int" where
  "wrap64 x = (x + 2 ^ 63) mod 2 ^ 64 - 2 ^ 63"

definition int64 :: "int \<Rightarrow> bool" where
  "int64 x \<longleftrightarrow> min_int64 \<le> x \<and> x \<le> max_int64"

lemma wrap64_id [simp]: "int64 x \<Longrightarrow> wrap64 x = x"
  by (simp add: wrap64_def int64_def min_int64_def max_int64_def)

lemma int64_wrap64 [simp]: "int64 (wrap64 x)"
proof -
  have "0 \<le> (x + 2 ^ 63) mod 2 ^ 64" and "(x + 2 ^ 63) mod 2 ^ 64 < (2 ^ 64 :: int)"
    by (rule pos_mod_sign, simp) (rule pos_mod_bound, simp)
  then show ?thesis
    unfolding wrap64_def int64_def min_int64_def max_int64_def by simp
qed

section \<open>Instants and durations\<close>

text \<open>
  A \<open>time.Time\<close> is the number of nanoseconds since Go's zero time (January 1, year 1,
  UTC), so the zero value is \<open>0\<close>; a \<open>time.Duration\<close> is a number of nanoseconds.
\<close>

type_synonym instant = int
type_synonym duration = int

abbreviation zero_time :: instant where
  "zero_time \<equiv> 0"

definition Millisecond :: duration where
  "Millisecond = 1000000"

definition Second :: duration where
  "Second = 1000 * Millisecond"

definition Minute :: duration where
  "Minute = 60 * Second"

text \<open>\<open>time.Unix(sec, 0)\<close>: 62135596800 seconds separate the zero time from the Unix epoch.\<close>

definition time_Unix :: "int \<Rightarrow> instant" where
  "time_Unix sec = wrap64 (sec + 62135596800) * Second"

text \<open>\<open>Time.Sub\<close> saturates; \<open>time.Since(t)\<close> is \<open>time.Now().Sub(t)\<close>.\<close>

definition time_Sub :: "instant \<Rightarrow> instant \<Rightarrow> duration" where
  "time_Sub t u = max min_int64 (min max_int64 (t - u))"

lemma time_Sub_exact: "int64 (t - u) \<Longrightarrow> time_Sub t u = t - u"
  by (simp add: time_Sub_def int64_def)

lemma int64_time_Sub [simp]: "int64 (time_Sub t u)"
  by (simp add: time_Sub_def int64_def min_int64_def max_int64_def)

section \<open>Contexts\<close>

text \<open>
  A \<open>context.Context\<close> is its fate: \<open>None\<close> if it is never done, otherwise the instant from
  which it is done and the error \<open>Err()\<close> returns from then on. \<open>Err()\<close> at an instant
  \<open>t\<close> is \<open>ctx_Err\<close>.
\<close>

datatype ctx_error = Canceled | DeadlineExceeded

type_synonym go_ctx = "(instant \<times> ctx_error) option"

definition ctx_Err :: "go_ctx \<Rightarrow> instant \<Rightarrow> ctx_error option" where
  "ctx_Err ctx t = (case ctx of None \<Rightarrow> None | Some (d, e) \<Rightarrow> if d \<le> t then Some e else None)"

abbreviation Background :: go_ctx where
  "Background \<equiv> None"

text \<open>\<open>context.WithTimeout(parent, d)\<close> called at the instant \<open>t\<close>.\<close>

definition WithTimeout :: "go_ctx \<Rightarrow> instant \<Rightarrow> duration \<Rightarrow> go_ctx" where
  "WithTimeout parent t d =
     (case parent of
        None \<Rightarrow> Some (t + d, DeadlineExceeded)
      | Some (dp, e) \<Rightarrow> if dp \<le> t + d then Some (dp, e) else Some (t + d, DeadlineExceeded))"

fun ctx_error_text :: "ctx_error \<Rightarrow> string" where
  "ctx_error_text Canceled = ''context canceled''"
| "ctx_error_text DeadlineExceeded = ''context deadline exceeded''"

lemma ctx_Err_mono: "ctx_Err ctx t = Some e \<Longrightarrow> t \<le> u \<Longrightarrow> ctx_Err ctx u = Some e"
  by (auto simp: ctx_Err_def split: option.splits if_splits)

lemma ctx_Err_Background [simp]: "ctx_Err Background t = None"
  by (simp add: ctx_Err_def)

lemma ctx_Err_WithTimeout_parent:
  "ctx_Err parent u = Some e \<Longrightarrow> u \<le> t + d \<Longrightarrow> ctx_Err (WithTimeout parent t d) u = Some e"
  by (auto simp: ctx_Err_def WithTimeout_def split: option.splits if_splits)

lemma ctx_Err_WithTimeout_before:
  "u < t + d \<Longrightarrow> ctx_Err (WithTimeout parent t d) u = ctx_Err parent u"
  by (auto simp: ctx_Err_def WithTimeout_def split: option.splits)

section \<open>Go maps\<close>

text \<open>
  What a client of a map relies on. \<open>keys\<close> lists the keys in the iteration order, which Go
  leaves unspecified: laws say nothing about the order.
\<close>

locale keyed_store =
  fixes empty :: "'m"
    and get :: "'m \<Rightarrow> 'k \<Rightarrow> 'v option"
    and put :: "'k \<Rightarrow> 'v \<Rightarrow> 'm \<Rightarrow> 'm"
    and del :: "'k \<Rightarrow> 'm \<Rightarrow> 'm"
    and keys :: "'m \<Rightarrow> 'k list"
    and ok :: "'m \<Rightarrow> bool"
  assumes get_empty: "get empty k = None"
    and get_put: "get (put k v m) k' = (if k' = k then Some v else get m k')"
    and get_del: "get (del k m) k' = (if k' = k then None else get m k')"
    and keys_get: "set (keys m) = {k. get m k \<noteq> None}"
    and ok_empty: "ok empty"
    and ok_put: "ok m \<Longrightarrow> ok (put k v m)"
    and ok_del: "ok m \<Longrightarrow> ok (del k m)"
    and keys_distinct: "ok m \<Longrightarrow> distinct (keys m)"
begin

lemma set_keys_put: "set (keys (put k v m)) = insert k (set (keys m))"
  by (auto simp: keys_get get_put)

lemma set_keys_del: "set (keys (del k m)) = set (keys m) - {k}"
  by (auto simp: keys_get get_del)

lemma set_keys_empty: "set (keys empty) = {}"
  by (simp add: keys_get get_empty)

lemma length_keys_card: "ok m \<Longrightarrow> length (keys m) = card (set (keys m))"
  by (simp add: keys_distinct distinct_card)

lemma length_keys_put:
  assumes "ok m"
  shows "length (keys (put k v m)) =
    (if get m k = None then Suc (length (keys m)) else length (keys m))"
  using assms
  by (simp add: length_keys_card ok_put set_keys_put card_insert_if) (simp add: keys_get)

lemma length_keys_del:
  assumes "ok m"
  shows "length (keys (del k m)) =
    (if get m k = None then length (keys m) else length (keys m) - 1)"
  using assms
  by (simp add: length_keys_card ok_del set_keys_del card_Diff_singleton_if) (auto simp: keys_get)

lemma keys_nonempty: "get m k = Some v \<Longrightarrow> 0 < length (keys m)"
  using keys_get [of m] by (cases "keys m") auto

end

text \<open>The model of a Go map: an association list with distinct keys.\<close>

type_synonym ('k, 'v) gomap = "('k \<times> 'v) list"

definition map_ok :: "('k, 'v) gomap \<Rightarrow> bool" where
  "map_ok m \<longleftrightarrow> distinct (map fst m)"

definition map_keys :: "('k, 'v) gomap \<Rightarrow> 'k list" where
  "map_keys m = map fst m"

lemma map_of_update_eq: "map_of (AList.update k v m) k' = (if k' = k then Some v else map_of m k')"
  by (simp add: AList.update_conv')

lemma map_of_delete_eq: "map_of (AList.delete k m) k' = (if k' = k then None else map_of m k')"
  by (simp add: AList.delete_conv')

interpretation gm: keyed_store "[] :: ('k, 'v) gomap" map_of AList.update AList.delete map_keys map_ok
proof unfold_locales
  show "map_of [] k = None" for k :: 'k
    by simp
  show "map_of (AList.update k v m) k' = (if k' = k then Some v else map_of m k')"
    for k :: 'k and v :: 'v and m k'
    by (rule map_of_update_eq)
  show "map_of (AList.delete k m) k' = (if k' = k then None else map_of m k')"
    for k :: 'k and m :: "('k, 'v) gomap" and k'
    by (rule map_of_delete_eq)
  show "set (map_keys m) = {k. map_of m k \<noteq> None}" for m :: "('k, 'v) gomap"
    by (auto simp: map_keys_def map_of_eq_None_iff)
qed (simp_all add: map_ok_def map_keys_def distinct_update distinct_delete)

lemmas gm_get = gm.get_empty gm.get_put gm.get_del
declare gm_get [go_map_simps] gm.set_keys_put [go_map_simps] gm.set_keys_del [go_map_simps]
  gm.length_keys_put [go_map_simps] gm.length_keys_del [go_map_simps]
declare gm.ok_empty [go_invs] gm.ok_put [go_invs] gm.ok_del [go_invs]

text \<open>
  Copying a list of records into a map, one store per element, as in
  \<open>for _, t := range ts { m[key(t)] = t }\<close>: a later element overwrites an earlier one with
  the same key.
\<close>

fun store_all :: "('a \<Rightarrow> 'k) \<Rightarrow> 'a list \<Rightarrow> ('k, 'a) gomap \<Rightarrow> ('k, 'a) gomap" where
  "store_all key [] m = m"
| "store_all key (x # xs) m = store_all key xs (AList.update (key x) x m)"

lemma store_all_ok [go_invs]: "map_ok m \<Longrightarrow> map_ok (store_all key xs m)"
  by (induction xs arbitrary: m) (auto intro: go_invs)

lemma find_append_eq: "find P (xs @ ys) = (case find P xs of None \<Rightarrow> find P ys | Some x \<Rightarrow> Some x)"
  by (induction xs) auto

lemma store_all_get:
  "map_of (store_all key xs m) k =
     (case find (\<lambda>x. key x = k) (rev xs) of None \<Rightarrow> map_of m k | Some x \<Rightarrow> Some x)"
  by (induction xs arbitrary: m)
    (auto simp: go_map_simps find_append_eq split: option.splits)

lemma store_all_keys:
  "set (map_keys (store_all key xs m)) = key ` set xs \<union> set (map_keys m)"
  by (induction xs arbitrary: m) (auto simp: go_map_simps)

section \<open>Runs that end\<close>

text \<open>
  A step relation whose steps use up a finite amount of work and which is never stuck before it is
  done, as long as the invariant \<open>ok\<close> holds: every run is finite and can be completed.
\<close>

locale ending_system =
  fixes step :: "'s \<Rightarrow> 's \<Rightarrow> bool" and work :: "'s \<Rightarrow> nat" and ok :: "'s \<Rightarrow> bool" and final :: "'s \<Rightarrow> bool"
  assumes work_decreases: "step c c' \<Longrightarrow> work c' < work c"
    and ok_step: "ok c \<Longrightarrow> step c c' \<Longrightarrow> ok c'"
    and not_stuck: "ok c \<Longrightarrow> \<not> final c \<Longrightarrow> \<exists>c'. step c c'"
begin

lemma run_bounded: "(step ^^ n) c c' \<Longrightarrow> n + work c' \<le> work c"
proof (induction n arbitrary: c')
  case (Suc n)
  then obtain c1 where "(step ^^ n) c c1" "step c1 c'" by auto
  with Suc.IH [of c1] work_decreases [of c1 c'] show ?case by simp
qed simp

lemma ok_run: "(step ^^ n) c c' \<Longrightarrow> ok c \<Longrightarrow> ok c'"
  by (induction n arbitrary: c') (auto intro: ok_step)

lemma run_ends:
  assumes "ok c"
  shows "\<exists>c'. step\<^sup>*\<^sup>* c c' \<and> final c'"
  using assms
proof (induction "work c" arbitrary: c rule: less_induct)
  case less
  show ?case
  proof (cases "final c")
    case False
    with less.prems not_stuck obtain c1 where c1: "step c c1" by blast
    from less.hyps [OF work_decreases [OF c1] ok_step [OF less.prems c1]] c1 show ?thesis
      by (meson converse_rtranclp_into_rtranclp)
  qed blast
qed

end

text \<open>The work of a list of threads when one of them moves on.\<close>

lemma sum_list_update_less:
  fixes f :: "'a \<Rightarrow> nat"
  assumes "i < length ts" and "f t < f (ts ! i)"
  shows "sum_list (map f (ts[i := t])) < sum_list (map f ts)"
  using assms by (induction ts arbitrary: i) (auto split: nat.splits)

end
