(* ===== verification/Adapter_Api.thy ===== *)
theory Adapter_Api
  imports Cloudtap_Prelude
begin

text \<open>
  The types of package \<open>adapter\<close> (\<open>pkg/adapter/adapter.go\<close>): connection events, the
  handler's decision, the status record and the sentinel errors. The contract every adapter
  promises about \<open>Start\<close>, \<open>Stop\<close> and \<open>OnConnection\<close> is the locale
  \<open>adapter_lifecycle\<close>; the frp adapter interprets it.
\<close>

section \<open>Events and decisions\<close>

datatype EventType = EventConnect | EventDisconnect | EventRequest

fun event_type_text :: "EventType \<Rightarrow> string" where
  "event_type_text EventConnect = ''connect''"
| "event_type_text EventDisconnect = ''disconnect''"
| "event_type_text EventRequest = ''request''"

record RequestInfo =
  ri_Method :: string
  ri_Path :: string
  ri_Host :: string
  ri_TLS :: bool
  ri_Headers :: "(string, string) gomap"

record ConnectionEvent =
  ce_ID :: string
  ce_ConnectionID :: string
  ce_Timestamp :: instant
  ce_Type :: EventType
  ce_Target :: string
  ce_User :: string
  ce_SourceIP :: string
  ce_SourcePort :: int
  ce_DestIP :: string
  ce_DestPort :: int
  ce_Protocol :: string
  ce_Request :: "RequestInfo option"
  ce_Metadata :: "(string, string) gomap"

record Decision =
  d_Allowed :: bool
  d_Reason :: string
  d_Policy :: string

type_synonym ConnectionHandler = "ConnectionEvent \<Rightarrow> Decision"

record Status =
  st_Type :: string
  st_Connected :: bool
  st_StartedAt :: instant
  st_UptimeSeconds :: int
  st_ActiveConnections :: int
  st_ReconnectAttempts :: int
  st_BackendEndpoint :: string
  st_LastError :: string
  st_LastErrorAt :: instant

datatype adapter_error = ErrHandlerNotSet | ErrAlreadyStarted | ErrNotStarted

fun adapter_error_text :: "adapter_error \<Rightarrow> string" where
  "adapter_error_text ErrHandlerNotSet = ''adapter: connection handler not set''"
| "adapter_error_text ErrAlreadyStarted = ''adapter: already started''"
| "adapter_error_text ErrNotStarted = ''adapter: not started''"

lemma adapter_error_text_inj: "adapter_error_text e = adapter_error_text f \<longleftrightarrow> e = f"
  by (cases e; cases f) simp_all

section \<open>The lifecycle contract\<close>

text \<open>
  \<open>start_gate\<close> and \<open>stop_gate\<close> are the entry checks of \<open>Start\<close> and \<open>Stop\<close>:
  the error the call returns with, or the state it goes on with. The laws are those the
  interface's comments document for the entry checks.
\<close>

locale adapter_lifecycle =
  fixes start_gate :: "'s \<Rightarrow> 'e + 's"
    and stop_gate :: "'s \<Rightarrow> 'e + 's"
    and on_connection :: "'h \<Rightarrow> 's \<Rightarrow> 's"
    and has_handler :: "'s \<Rightarrow> bool"
    and is_started :: "'s \<Rightarrow> bool"
    and is_stopped :: "'s \<Rightarrow> bool"
    and config_ok :: "'s \<Rightarrow> bool"
    and err_handler :: 'e and err_already :: 'e and err_not_started :: 'e
  assumes start_no_handler: "config_ok s \<Longrightarrow> \<not> has_handler s \<Longrightarrow> start_gate s = Inl err_handler"
    and start_twice: "config_ok s \<Longrightarrow> has_handler s \<Longrightarrow> is_started s \<Longrightarrow> start_gate s = Inl err_already"
    and start_ok: "config_ok s \<Longrightarrow> has_handler s \<Longrightarrow> \<not> is_started s \<Longrightarrow> \<exists>s'. start_gate s = Inr s'"
    and start_enters: "start_gate s = Inr s' \<Longrightarrow>
      is_started s' \<and> has_handler s' \<and> config_ok s' \<and> is_stopped s' = is_stopped s"
    and stop_unstarted: "\<not> is_started s \<Longrightarrow> stop_gate s = Inl err_not_started"
    and stop_twice: "is_stopped s \<Longrightarrow> stop_gate s = Inl err_not_started"
    and stop_ok: "is_started s \<Longrightarrow> \<not> is_stopped s \<Longrightarrow> \<exists>s'. stop_gate s = Inr s'"
    and stop_enters: "stop_gate s = Inr s' \<Longrightarrow>
      is_stopped s' \<and> is_started s' \<and> has_handler s' = has_handler s \<and> config_ok s' = config_ok s"
    and handler_set: "has_handler (on_connection h s)"
    and handler_frame: "is_started (on_connection h s) = is_started s"
      "is_stopped (on_connection h s) = is_stopped s"
      "config_ok (on_connection h s) = config_ok s"
begin

lemma start_after_start: "start_gate s = Inr s' \<Longrightarrow> start_gate s' = Inl err_already"
  using start_enters start_twice by blast

lemma stop_after_stop: "stop_gate s = Inr s' \<Longrightarrow> stop_gate s' = Inl err_not_started"
  using stop_enters stop_twice by blast

lemma stop_after_start: "start_gate s = Inr s' \<Longrightarrow> \<not> is_stopped s \<Longrightarrow> \<exists>s''. stop_gate s' = Inr s''"
  using start_enters stop_ok by metis

lemma register_then_start:
  "config_ok s \<Longrightarrow> \<not> is_started s \<Longrightarrow> \<exists>s'. start_gate (on_connection h s) = Inr s'"
  by (simp add: start_ok handler_set handler_frame)

lemma no_restart_after_stop:
  assumes "start_gate s = Inr s1" and "stop_gate s1 = Inr s2"
  shows "start_gate s2 = Inl err_already"
proof -
  from start_enters [OF assms(1)] stop_enters [OF assms(2)]
  have "is_started s2" "has_handler s2" "config_ok s2" by simp_all
  then show ?thesis by (simp add: start_twice)
qed

end

end
