(* ===== verification/Go_Strings.thy ===== *)
theory Go_Strings
  imports Cloudtap_Prelude
begin

text \<open>
  What the sources use of Go's \<open>strings\<close>, \<open>strconv\<close>, \<open>fmt\<close> and
  \<open>path/filepath\<close> packages, on byte strings. Facts proved here: printing and reading
  decimal numbers are inverse, the trimming functions are idempotent and leave no trimmed
  rune, and \<open>filepath.Clean\<close> is idempotent.
\<close>

section \<open>Bytes\<close>

abbreviation byte :: "char \<Rightarrow> nat" where
  "byte c \<equiv> of_char c"

definition is_digit :: "char \<Rightarrow> bool" where
  "is_digit c \<longleftrightarrow> 48 \<le> byte c \<and> byte c \<le> 57"

definition digit_val :: "char \<Rightarrow> nat" where
  "digit_val c = byte c - 48"

definition is_upper :: "char \<Rightarrow> bool" where
  "is_upper c \<longleftrightarrow> 65 \<le> byte c \<and> byte c \<le> 90"

definition is_lower :: "char \<Rightarrow> bool" where
  "is_lower c \<longleftrightarrow> 97 \<le> byte c \<and> byte c \<le> 122"

definition to_lower :: "char \<Rightarrow> char" where
  "to_lower c = (if is_upper c then char_of (byte c + 32) else c)"

definition is_hex :: "char \<Rightarrow> bool" where
  "is_hex c \<longleftrightarrow> is_digit c \<or> 65 \<le> byte c \<and> byte c \<le> 70 \<or> 97 \<le> byte c \<and> byte c \<le> 102"

definition hex_val :: "char \<Rightarrow> nat" where
  "hex_val c =
     (if is_digit c then byte c - 48
      else if byte c \<le> 70 then byte c - 55 else byte c - 87)"

lemma byte_char_of [simp]: "n < 256 \<Longrightarrow> byte (char_of n) = n"
  by (simp add: of_char_of)

lemma byte_eq_iff: "byte c = byte d \<longleftrightarrow> c = d"
  by (rule of_char_eq_iff)

section \<open>Searching and splitting\<close>

definition HasPrefix :: "string \<Rightarrow> string \<Rightarrow> bool" where
  "HasPrefix s p \<longleftrightarrow> take (length p) s = p"

definition HasSuffix :: "string \<Rightarrow> string \<Rightarrow> bool" where
  "HasSuffix s p \<longleftrightarrow> HasPrefix (rev s) (rev p)"

fun index_byte :: "string \<Rightarrow> char \<Rightarrow> nat option" where
  "index_byte [] c = None"
| "index_byte (d # ds) c = (if d = c then Some 0 else map_option Suc (index_byte ds c))"

definition last_index_byte :: "string \<Rightarrow> char \<Rightarrow> nat option" where
  "last_index_byte s c = map_option (\<lambda>i. length s - 1 - i) (index_byte (rev s) c)"

fun index_string :: "string \<Rightarrow> string \<Rightarrow> nat option" where
  "index_string [] p = (if p = [] then Some 0 else None)"
| "index_string (d # ds) p =
     (if HasPrefix (d # ds) p then Some 0 else map_option Suc (index_string ds p))"

definition Contains :: "string \<Rightarrow> string \<Rightarrow> bool" where
  "Contains s p \<longleftrightarrow> index_string s p \<noteq> None"

text \<open>\<open>strings.Cut\<close> at a one-byte separator: before, after, found.\<close>

definition Cut :: "string \<Rightarrow> char \<Rightarrow> string \<times> string \<times> bool" where
  "Cut s c =
     (case index_byte s c of
        None \<Rightarrow> (s, [], False)
      | Some i \<Rightarrow> (take i s, drop (Suc i) s, True))"

fun split_on :: "char \<Rightarrow> string \<Rightarrow> string list" where
  "split_on c [] = [[]]"
| "split_on c (d # ds) =
     (if d = c then [] # split_on c ds
      else (case split_on c ds of [] \<Rightarrow> [[d]] | w # ws \<Rightarrow> (d # w) # ws))"

fun Join :: "string list \<Rightarrow> string \<Rightarrow> string" where
  "Join [] sep = []"
| "Join [w] sep = w"
| "Join (w # ws) sep = w @ sep @ Join ws sep"

lemma HasPrefix_iff: "HasPrefix s p \<longleftrightarrow> prefix p s"
  by (auto simp: HasPrefix_def prefix_def) (metis append_take_drop_id)

lemma HasPrefix_append [simp]: "HasPrefix (p @ s) p"
  by (simp add: HasPrefix_def)

lemma index_byte_None: "index_byte s c = None \<longleftrightarrow> c \<notin> set s"
  by (induction s) auto

lemma index_byte_Some:
  "index_byte s c = Some i \<longleftrightarrow> (\<exists>t u. s = t @ c # u \<and> c \<notin> set t \<and> length t = i)"
proof (induction s arbitrary: i)
  case (Cons d s)
  show ?case
  proof (cases "d = c")
    case True
    then show ?thesis by (auto simp: Cons_eq_append_conv)
  next
    case False
    then have "index_byte (d # s) c = Some i \<longleftrightarrow>
        (\<exists>j t u. i = Suc j \<and> s = t @ c # u \<and> c \<notin> set t \<and> length t = j)"
      using Cons.IH by auto
    also have "\<dots> \<longleftrightarrow> (\<exists>t u. d # s = t @ c # u \<and> c \<notin> set t \<and> length t = i)"
      using False by (force simp: Cons_eq_append_conv)
    finally show ?thesis .
  qed
qed simp

lemma index_byte_append [simp]: "c \<notin> set t \<Longrightarrow> index_byte (t @ c # u) c = Some (length t)"
  by (auto simp: index_byte_Some)

lemma last_index_byte_append [simp]:
  "c \<notin> set u \<Longrightarrow> last_index_byte (t @ c # u) c = Some (length t)"
  by (simp add: last_index_byte_def)

lemma last_index_byte_None: "last_index_byte s c = None \<longleftrightarrow> c \<notin> set s"
  by (simp add: last_index_byte_def index_byte_None)

lemma last_index_byte_Some:
  "last_index_byte s c = Some i \<longleftrightarrow> (\<exists>t u. s = t @ c # u \<and> c \<notin> set u \<and> length t = i)"
proof
  assume "last_index_byte s c = Some i"
  then obtain j where j: "index_byte (rev s) c = Some j" and i: "i = length s - 1 - j"
    by (auto simp: last_index_byte_def)
  from j obtain t u where "rev s = t @ c # u" "c \<notin> set t" "length t = j"
    by (auto simp: index_byte_Some)
  then have "s = rev u @ c # rev t" and "c \<notin> set (rev t)" and "i = length (rev u)"
    using i \<open>length t = j\<close> by (auto simp: rev_swap)
  then show "\<exists>t u. s = t @ c # u \<and> c \<notin> set u \<and> length t = i"
    by blast
qed (auto simp: last_index_byte_append)

lemma Cut_append [simp]: "c \<notin> set t \<Longrightarrow> Cut (t @ c # u) c = (t, u, True)"
  by (simp add: Cut_def)

lemma Cut_none [simp]: "c \<notin> set s \<Longrightarrow> Cut s c = (s, [], False)"
  by (simp add: Cut_def index_byte_None [THEN iffD2])

lemma split_on_nonempty [simp]: "split_on c s \<noteq> []"
  by (induction s) (auto split: list.splits)

lemma split_on_word: "c \<notin> set w \<Longrightarrow> split_on c w = [w]"
  by (induction w) auto

lemma split_on_append: "c \<notin> set w \<Longrightarrow> split_on c (w @ c # s) = w # split_on c s"
  by (induction w) auto

lemma split_on_Join:
  "ws \<noteq> [] \<Longrightarrow> \<forall>w\<in>set ws. c \<notin> set w \<Longrightarrow> split_on c (Join ws [c]) = ws"
proof (induction ws "[c]" rule: Join.induct)
  case (2 w)
  then show ?case by (simp add: split_on_word)
next
  case (3 w v ws)
  then show ?case by (simp add: split_on_append)
qed simp

lemma set_split_on: "w \<in> set (split_on c s) \<Longrightarrow> c \<notin> set w"
  by (induction s arbitrary: w) (auto split: list.splits if_splits)

section \<open>Decimal numbers\<close>

fun nat_digits :: "nat \<Rightarrow> string" where
  "nat_digits n =
     (if n < 10 then [char_of (48 + n)] else nat_digits (n div 10) @ [char_of (48 + n mod 10)])"

declare nat_digits.simps [simp del]

definition digits_val :: "string \<Rightarrow> nat" where
  "digits_val s = foldl (\<lambda>n c. n * 10 + digit_val c) 0 s"

definition all_digits :: "string \<Rightarrow> bool" where
  "all_digits s \<longleftrightarrow> s \<noteq> [] \<and> list_all is_digit s"

text \<open>The verb \<open>%d\<close> of \<open>fmt\<close>.\<close>

definition itoa :: "int \<Rightarrow> string" where
  "itoa i = (if i < 0 then CHR ''-'' # nat_digits (nat (- i)) else nat_digits (nat i))"

lemma is_digit_char_of [simp]: "(d :: nat) < 10 \<Longrightarrow> is_digit (char_of (48 + d))"
  by (simp add: is_digit_def)

lemma digit_val_char_of [simp]: "d < 10 \<Longrightarrow> digit_val (char_of (48 + d)) = d"
  by (simp add: digit_val_def)

lemma digits_val_snoc [simp]: "digits_val (s @ [c]) = digits_val s * 10 + digit_val c"
  by (simp add: digits_val_def)

lemma digits_val_singleton [simp]: "digits_val [c] = digit_val c"
  by (simp add: digits_val_def)

lemma digits_val_nat_digits [simp]: "digits_val (nat_digits n) = n"
proof (induction n rule: nat_digits.induct)
  case (1 n)
  then show ?case
    by (cases "n < 10") (simp_all add: nat_digits.simps [of n])
qed

lemma all_digits_nat_digits [simp]: "all_digits (nat_digits n)"
proof (induction n rule: nat_digits.induct)
  case (1 n)
  then show ?case
    by (cases "n < 10") (auto simp: nat_digits.simps [of n] all_digits_def)
qed

lemma nat_digits_nonempty [simp]: "nat_digits n \<noteq> []"
  using all_digits_nat_digits [of n] by (simp add: all_digits_def)

lemma list_all_nat_digits [simp]: "list_all is_digit (nat_digits n)"
  using all_digits_nat_digits [of n] by (simp add: all_digits_def)

lemma nat_digits_inj [simp]: "nat_digits m = nat_digits n \<longleftrightarrow> m = n"
  by (metis digits_val_nat_digits)

lemma digit_not_in_digits:
  assumes "\<not> is_digit c" and "list_all is_digit s" shows "c \<notin> set s"
  using assms by (auto simp: list_all_iff)

text \<open>
  \<open>strconv.ParseInt(s, 10, 64)\<close> on the text of a number: an optional sign and digits; the
  result must fit 64 bits.
\<close>

definition ParseInt64 :: "string \<Rightarrow> int option" where
  "ParseInt64 s =
     (let (neg, ds) =
        (case s of
           [] \<Rightarrow> (False, [])
         | c # cs \<Rightarrow>
             if c = CHR ''-'' then (True, cs) else if c = CHR ''+'' then (False, cs) else (False, s))
      in if all_digits ds
         then let v = (if neg then - int (digits_val ds) else int (digits_val ds))
              in if int64 v then Some v else None
         else None)"

lemma not_digit_sign [simp]: "\<not> is_digit CHR ''-''" "\<not> is_digit CHR ''+''"
  by (simp_all add: is_digit_def)

lemma all_digits_head: "all_digits s \<Longrightarrow> \<exists>c cs. s = c # cs \<and> is_digit c"
  by (cases s) (auto simp: all_digits_def)

lemma ParseInt64_itoa: "int64 i \<Longrightarrow> ParseInt64 (itoa i) = Some i"
proof (cases "i < 0")
  case True
  moreover assume "int64 i"
  ultimately show ?thesis
    by (simp add: ParseInt64_def itoa_def)
next
  case False
  moreover assume "int64 i"
  moreover obtain c cs where "nat_digits (nat i) = c # cs" "is_digit c"
    using all_digits_head all_digits_nat_digits by blast
  moreover from this have "c \<noteq> CHR ''-''" "c \<noteq> CHR ''+''"
    by auto
  ultimately show ?thesis
    using digits_val_nat_digits [of "nat i"] all_digits_nat_digits [of "nat i"]
    by (simp add: ParseInt64_def itoa_def Let_def)
qed

section \<open>White space and trimming\<close>

text \<open>
  \<open>unicode.IsSpace\<close> on UTF-8 text: the number of bytes of the white-space rune at the head
  of a string, 0 when there is none. \<open>space_len_rev\<close> reads a reversed string.
\<close>

definition ascii_space :: "char \<Rightarrow> bool" where
  "ascii_space c \<longleftrightarrow> 9 \<le> byte c \<and> byte c \<le> 13 \<or> byte c = 32"

definition space2 :: "char \<Rightarrow> char \<Rightarrow> bool" where
  "space2 c d \<longleftrightarrow> byte c = 0xC2 \<and> (byte d = 0x85 \<or> byte d = 0xA0)"

definition space3 :: "char \<Rightarrow> char \<Rightarrow> char \<Rightarrow> bool" where
  "space3 c d e \<longleftrightarrow>
     byte c = 0xE1 \<and> byte d = 0x9A \<and> byte e = 0x80 \<or>
     byte c = 0xE2 \<and> byte d = 0x80 \<and>
       (0x80 \<le> byte e \<and> byte e \<le> 0x8A \<or> byte e = 0xA8 \<or> byte e = 0xA9 \<or> byte e = 0xAF) \<or>
     byte c = 0xE2 \<and> byte d = 0x81 \<and> byte e = 0x9F \<or>
     byte c = 0xE3 \<and> byte d = 0x80 \<and> byte e = 0x80"

fun space_len :: "string \<Rightarrow> nat" where
  "space_len (c # d # e # s) =
     (if ascii_space c then 1 else if space2 c d then 2 else if space3 c d e then 3 else 0)"
| "space_len [c, d] = (if ascii_space c then 1 else if space2 c d then 2 else 0)"
| "space_len [c] = (if ascii_space c then 1 else 0)"
| "space_len [] = 0"

fun space_len_rev :: "string \<Rightarrow> nat" where
  "space_len_rev (c # d # e # s) =
     (if ascii_space c then 1 else if space2 d c then 2 else if space3 e d c then 3 else 0)"
| "space_len_rev [c, d] = (if ascii_space c then 1 else if space2 d c then 2 else 0)"
| "space_len_rev [c] = (if ascii_space c then 1 else 0)"
| "space_len_rev [] = 0"

function strip :: "(string \<Rightarrow> nat) \<Rightarrow> string \<Rightarrow> string" where
  "strip f s = (if s = [] \<or> f s = 0 then s else strip f (drop (f s) s))"
  by pat_completeness auto
termination
  by (relation "measure (\<lambda>(f, s). length s)") auto

declare strip.simps [simp del]

definition TrimSpace :: "string \<Rightarrow> string" where
  "TrimSpace s = rev (strip space_len_rev (rev (strip space_len s)))"

text \<open>\<open>strings.TrimRight(s, cutset)\<close> for a cutset of one ASCII byte.\<close>

definition TrimRight :: "string \<Rightarrow> char \<Rightarrow> string" where
  "TrimRight s c = rev (dropWhile (\<lambda>d. d = c) (rev s))"

lemma strip_suffix: "suffix (strip f s) s"
proof (induction f s rule: strip.induct)
  case (1 f s)
  then show ?case
    by (simp add: strip.simps [of f s]) (metis suffix_drop suffix_order.trans)
qed

lemma strip_done: "strip f s = [] \<or> f (strip f s) = 0"
proof (induction f s rule: strip.induct)
  case (1 f s)
  then show ?case
    by (cases "s = [] \<or> f s = 0") (auto simp: strip.simps [of f s])
qed

lemma strip_fixed: "s = [] \<or> f s = 0 \<Longrightarrow> strip f s = s"
  by (simp add: strip.simps)

lemma space_len_ascii: "ascii_space c \<Longrightarrow> space_len (c # t) = 1"
  by (cases t rule: space_len.cases) auto

lemma space_len_two: "space2 c d \<Longrightarrow> space_len (c # d # t) \<noteq> 0"
  by (cases t) auto

lemma space_len_append: "space_len s \<noteq> 0 \<Longrightarrow> space_len (s @ t) \<noteq> 0"
  by (induction s rule: space_len.induct)
    (auto split: if_splits simp: space_len_ascii dest: space_len_two)

lemma TrimSpace_prefix: "prefix (TrimSpace s) (strip space_len s)"
  using strip_suffix [of space_len_rev "rev (strip space_len s)"]
  by (simp add: TrimSpace_def suffix_to_prefix)

lemma TrimSpace_left_done: "TrimSpace s = [] \<or> space_len (TrimSpace s) = 0"
proof -
  from TrimSpace_prefix obtain t where t: "strip space_len s = TrimSpace s @ t"
    by (auto simp: prefix_def)
  show ?thesis
    using strip_done [of space_len s] space_len_append [of "TrimSpace s" t] by (auto simp: t)
qed

lemma TrimSpace_right_done: "TrimSpace s = [] \<or> space_len_rev (rev (TrimSpace s)) = 0"
  using strip_done [of space_len_rev "rev (strip space_len s)"] by (simp add: TrimSpace_def)

lemma TrimSpace_fixed:
  assumes "s = [] \<or> space_len s = 0" and "s = [] \<or> space_len_rev (rev s) = 0"
  shows "TrimSpace s = s"
  using assms by (simp add: TrimSpace_def strip_fixed)

lemma TrimSpace_idem [simp]: "TrimSpace (TrimSpace s) = TrimSpace s"
  by (intro TrimSpace_fixed TrimSpace_left_done TrimSpace_right_done)

lemma TrimRight_append: "TrimRight (s @ [c]) c = TrimRight s c"
  by (simp add: TrimRight_def)

lemma TrimRight_fixed: "s = [] \<or> last s \<noteq> c \<Longrightarrow> TrimRight s c = s"
  by (cases s rule: rev_cases) (auto simp: TrimRight_def)

lemma TrimRight_last: "TrimRight s c = [] \<or> last (TrimRight s c) \<noteq> c"
  by (induction s rule: rev_induct) (auto simp: TrimRight_def)

lemma TrimRight_idem [simp]: "TrimRight (TrimRight s c) c = TrimRight s c"
  by (rule TrimRight_fixed) (rule TrimRight_last)

lemma TrimRight_prefix: "prefix (TrimRight s c) s"
  by (induction s rule: rev_induct) (auto simp: TrimRight_def)

section \<open>Case folding\<close>

text \<open>
  \<open>strings.EqualFold(s, t)\<close> for an ASCII \<open>t\<close>: both sides are compared after ASCII
  lower-casing and after mapping the two non-ASCII runes that fold to ASCII letters,
  U+017F (bytes C5 BF, folds with s) and U+212A (bytes E2 84 AA, folds with k).
\<close>

fun fold_norm :: "string \<Rightarrow> string" where
  "fold_norm [] = []"
| "fold_norm [c] = [to_lower c]"
| "fold_norm [c, d] =
     (if byte c = 0xC5 \<and> byte d = 0xBF then ''s'' else to_lower c # fold_norm [d])"
| "fold_norm (c # d # e # s) =
     (if byte c = 0xC5 \<and> byte d = 0xBF then CHR ''s'' # fold_norm (e # s)
      else if byte c = 0xE2 \<and> byte d = 0x84 \<and> byte e = 0xAA then CHR ''k'' # fold_norm s
      else to_lower c # fold_norm (d # e # s))"

definition EqualFold :: "string \<Rightarrow> string \<Rightarrow> bool" where
  "EqualFold s t \<longleftrightarrow> fold_norm s = fold_norm t"

section \<open>Reading numbers and booleans\<close>

text \<open>
  \<open>fmt.Sscanf(s, "%d", &n)\<close>: white space is skipped (a newline, alone or after a carriage
  return, is an error), then an optional sign and the longest run of digits; anything after
  is ignored. The result is \<open>None\<close> when nothing is stored.
\<close>

function scan_skip_space :: "string \<Rightarrow> string option" where
  "scan_skip_space s =
     (if s = [] then Some []
      else if hd s = CHR 0x0D \<and> tl s \<noteq> [] \<and> hd (tl s) = CHR 0x0A then scan_skip_space (tl s)
      else if hd s = CHR 0x0A then None
      else if space_len s = 0 then Some s
      else scan_skip_space (drop (space_len s) s))"
  by pat_completeness auto
termination
  by (relation "measure length") auto

declare scan_skip_space.simps [simp del]

definition scan_sign :: "string \<Rightarrow> string \<times> string" where
  "scan_sign s =
     (case s of
        [] \<Rightarrow> ([], [])
      | c # cs \<Rightarrow> if c = CHR ''+'' \<or> c = CHR ''-'' then ([c], cs) else ([], s))"

definition Sscanf_d :: "string \<Rightarrow> int option" where
  "Sscanf_d s =
     (case scan_skip_space s of
        None \<Rightarrow> None
      | Some t \<Rightarrow>
          let (sign, rest) = scan_sign t; ds = takeWhile is_digit rest
          in ParseInt64 (sign @ ds))"

text \<open>\<open>strconv.ParseBool\<close>.\<close>

definition ParseBool :: "string \<Rightarrow> bool option" where
  "ParseBool s =
     (if s \<in> set [''1'', ''t'', ''T'', ''true'', ''TRUE'', ''True''] then Some True
      else if s \<in> set [''0'', ''f'', ''F'', ''false'', ''FALSE'', ''False''] then Some False
      else None)"

lemma digit_not_space: "is_digit c \<Longrightarrow> space_len (c # s) = 0"
  by (cases s rule: space_len.cases)
    (auto simp: is_digit_def ascii_space_def space2_def space3_def)

lemma scan_skip_space_digit: "is_digit c \<Longrightarrow> scan_skip_space (c # s) = Some (c # s)"
  by (subst scan_skip_space.simps) (auto simp: digit_not_space is_digit_def)

lemma takeWhile_digits: "list_all is_digit ds \<Longrightarrow> t = [] \<or> \<not> is_digit (hd t) \<Longrightarrow>
    takeWhile is_digit (ds @ t) = ds"
  by (induction ds) (auto simp: takeWhile_eq_Nil_iff)

lemma Sscanf_d_digits:
  assumes "int n \<le> max_int64" and "t = [] \<or> \<not> is_digit (hd t)"
  shows "Sscanf_d (nat_digits n @ t) = Some (int n)"
proof -
  obtain c cs where c: "nat_digits n = c # cs" "is_digit c"
    using all_digits_head all_digits_nat_digits by blast
  then have "c \<noteq> CHR ''-''" "c \<noteq> CHR ''+''" by auto
  moreover have "takeWhile is_digit (c # cs @ t) = nat_digits n"
    using takeWhile_digits [OF list_all_nat_digits [of n] assms(2)] c(1) by simp
  moreover have "ParseInt64 (nat_digits n) = Some (int n)"
    using ParseInt64_itoa [of "int n"] assms(1)
    by (simp add: itoa_def int64_def min_int64_def)
  ultimately show ?thesis
    using c by (simp add: Sscanf_d_def scan_skip_space_digit scan_sign_def)
qed

section \<open>Paths\<close>

text \<open>
  \<open>filepath.Clean\<close> on Unix: empty and \<open>.\<close> components are dropped, an inner
  \<open>..\<close> removes the component before it, a \<open>..\<close> at the root is dropped, and the
  empty result is \<open>.\<close>. The accumulator holds the components kept so far, last first.
\<close>

definition clean_step :: "bool \<Rightarrow> string list \<Rightarrow> string \<Rightarrow> string list" where
  "clean_step rooted acc w =
     (if w = [] \<or> w = ''.'' then acc
      else if w = ''..'' then
        (case acc of
           [] \<Rightarrow> if rooted then [] else [w]
         | v # vs \<Rightarrow> if v = ''..'' then w # acc else vs)
      else w # acc)"

definition clean_parts :: "bool \<Rightarrow> string list \<Rightarrow> string list" where
  "clean_parts rooted ws = rev (foldl (clean_step rooted) [] ws)"

definition filepath_Clean :: "string \<Rightarrow> string" where
  "filepath_Clean path =
     (let rooted = HasPrefix path ''/'';
          body = Join (clean_parts rooted (split_on CHR ''/'' path)) ''/''
      in if rooted then CHR ''/'' # body else if body = [] then ''.'' else body)"

text \<open>Component lists that \<open>clean_parts\<close> leaves alone, stored last first.\<close>

fun clean_stack :: "bool \<Rightarrow> string list \<Rightarrow> bool" where
  "clean_stack rooted [] = True"
| "clean_stack rooted (w # acc) =
     (w \<noteq> [] \<and> w \<noteq> ''.'' \<and> CHR ''/'' \<notin> set w \<and>
      (w = ''..'' \<longrightarrow> (case acc of [] \<Rightarrow> \<not> rooted | v # _ \<Rightarrow> v = ''..'')) \<and>
      clean_stack rooted acc)"

lemma clean_step_stack:
  assumes "clean_stack rooted acc" and "CHR ''/'' \<notin> set w"
  shows "clean_stack rooted (clean_step rooted acc w)"
  using assms by (cases acc) (auto simp: clean_step_def)

lemma clean_fold_stack:
  assumes "clean_stack rooted acc" and "\<forall>w\<in>set ws. CHR ''/'' \<notin> set w"
  shows "clean_stack rooted (foldl (clean_step rooted) acc ws)"
  using assms by (induction ws arbitrary: acc) (auto intro: clean_step_stack)

lemma clean_step_push: "clean_stack rooted (w # acc) \<Longrightarrow> clean_step rooted acc w = w # acc"
  by (cases acc) (auto simp: clean_step_def)

lemma clean_fold_id:
  "clean_stack rooted acc \<Longrightarrow> foldl (clean_step rooted) [] (rev acc) = acc"
proof (induction acc)
  case (Cons w acc)
  then have "foldl (clean_step rooted) [] (rev acc) = acc" by simp
  with Cons.prems show ?case by (simp add: clean_step_push del: clean_stack.simps)
qed simp

lemma clean_stack_elems:
  "clean_stack rooted acc \<Longrightarrow> w \<in> set acc \<Longrightarrow> w \<noteq> [] \<and> w \<noteq> ''.'' \<and> CHR ''/'' \<notin> set w"
  by (induction acc) auto

lemma clean_parts_idem:
  assumes "\<forall>w\<in>set ws. CHR ''/'' \<notin> set w"
  shows "clean_parts rooted (clean_parts rooted ws) = clean_parts rooted ws"
    and "\<forall>w\<in>set (clean_parts rooted ws). w \<noteq> [] \<and> w \<noteq> ''.'' \<and> CHR ''/'' \<notin> set w"
proof -
  have "clean_stack rooted []" by simp
  from clean_fold_stack [OF this assms]
  have *: "clean_stack rooted (foldl (clean_step rooted) [] ws)" .
  show "clean_parts rooted (clean_parts rooted ws) = clean_parts rooted ws"
    using clean_fold_id [OF *] by (simp add: clean_parts_def)
  show "\<forall>w\<in>set (clean_parts rooted ws). w \<noteq> [] \<and> w \<noteq> ''.'' \<and> CHR ''/'' \<notin> set w"
    using clean_stack_elems [OF *] by (auto simp: clean_parts_def)
qed

lemma clean_parts_Nil [simp]: "clean_parts rooted [] = []" "clean_parts rooted ([] # ws) = clean_parts rooted ws"
  by (simp_all add: clean_parts_def clean_step_def)

lemma HasPrefix_slash: "HasPrefix s ''/'' \<longleftrightarrow> (\<exists>t. s = CHR ''/'' # t)"
  by (cases s) (auto simp: HasPrefix_def)

lemma Join_head: "ws \<noteq> [] \<Longrightarrow> hd ws \<noteq> [] \<Longrightarrow> hd (Join ws sep) = hd (hd ws) \<and> Join ws sep \<noteq> []"
  by (induction ws sep rule: Join.induct) auto

lemma filepath_Clean_idem: "filepath_Clean (filepath_Clean path) = filepath_Clean path"
proof -
  define rooted where "rooted = HasPrefix path ''/''"
  define ps where "ps = clean_parts rooted (split_on CHR ''/'' path)"
  have ws: "\<forall>w\<in>set (split_on CHR ''/'' path). CHR ''/'' \<notin> set w"
    by (auto dest: set_split_on)
  note ps = clean_parts_idem [OF ws, of rooted, folded ps_def]
  have split: "ps \<noteq> [] \<Longrightarrow> split_on CHR ''/'' (Join ps ''/'') = ps"
    using ps(2) by (intro split_on_Join) auto
  have head: "\<not> HasPrefix (Join ps ''/'') ''/'' \<and> Join ps ''/'' \<noteq> []" if ne: "ps \<noteq> []"
  proof -
    obtain c cs qs where q: "ps = (c # cs) # qs"
      using ne ps(2) by (cases ps) (auto simp: neq_Nil_conv)
    with Join_head [of ps "''/''"] show ?thesis
      using ps(2) by (auto simp: HasPrefix_slash)
  qed
  have eq: "filepath_Clean path =
      (if rooted then CHR ''/'' # Join ps ''/'' else if ps = [] then ''.'' else Join ps ''/'')"
    unfolding filepath_Clean_def Let_def rooted_def [symmetric] ps_def [symmetric]
    using head by (cases "ps = []") auto
  have rootc: "HasPrefix (CHR ''/'' # Join ps ''/'') ''/''"
    by (simp add: HasPrefix_def)
  have dot: "filepath_Clean ''.'' = ''.''"
    by code_simp
  show ?thesis
    unfolding eq using ps(1) split head rootc dot
    by (cases "ps = []") (auto simp: filepath_Clean_def Let_def)
qed

end
