(* ===== verification/Policy_Model.thy ===== *)
theory Policy_Model
  imports Go_Net
begin

text \<open>
  Package \<open>policy\<close>: the policy data model with its validation and loading
  (\<open>pkg/policy/types.go\<close>) and the route evaluator (\<open>pkg/policy/policy.go\<close>).
  \<open>Policy_Validate\<close> is shown to decide the declarative well-formedness
  \<open>policy_wf\<close> and to report the first offending rule; \<open>Parse\<close> returns only
  well-formed policies whose default is never missing. The YAML decoder and the file system
  are parameters.
\<close>

section \<open>Data model\<close>

text \<open>An \<open>Effect\<close> is a string type in the source: any string can occur before validation.\<close>

type_synonym Effect = string

definition EffectAllow :: Effect where
  "EffectAllow = ''allow''"

definition EffectDeny :: Effect where
  "EffectDeny = ''deny''"

record Match =
  m_Target :: string
  m_User :: string
  m_SourceIP :: string
  m_Protocol :: string

record Rule =
  r_Name :: string
  r_Effect :: Effect
  r_Match :: Match

record Policy =
  p_Default :: Effect
  p_Rules :: "Rule list"

datatype match_error = InvalidCIDR string | InvalidProtocol string
datatype rule_error = NameRequired | InvalidEffect Effect | MatchError match_error
datatype policy_error =
    InvalidDefault Effect
  | RuleError nat rule_error
  | DuplicateRuleName string
  | YamlError string
  | ReadError string string

section \<open>Validation\<close>

definition valid_protocols :: "string list" where
  "valid_protocols = [''tcp'', ''udp'', ''http'', ''https'', ''stcp'', ''sudp'', ''xtcp'']"

definition Match_Validate :: "Match \<Rightarrow> match_error option" where
  "Match_Validate m =
     (if m_SourceIP m \<noteq> [] \<and> ParseCIDR (m_SourceIP m) = None then Some (InvalidCIDR (m_SourceIP m))
      else if m_Protocol m \<noteq> [] \<and> \<not> list_ex (EqualFold (m_Protocol m)) valid_protocols
      then Some (InvalidProtocol (m_Protocol m))
      else None)"

definition Rule_Validate :: "Rule \<Rightarrow> rule_error option" where
  "Rule_Validate r =
     (if r_Name r = [] then Some NameRequired
      else if r_Effect r \<noteq> EffectAllow \<and> r_Effect r \<noteq> EffectDeny then Some (InvalidEffect (r_Effect r))
      else map_option MatchError (Match_Validate (r_Match r)))"

text \<open>The loop over the rules, with the index and the names seen so far.\<close>

fun validate_rules :: "nat \<Rightarrow> string set \<Rightarrow> Rule list \<Rightarrow> policy_error option" where
  "validate_rules i names [] = None"
| "validate_rules i names (r # rs) =
     (case Rule_Validate r of
        Some e \<Rightarrow> Some (RuleError i e)
      | None \<Rightarrow>
          if r_Name r \<in> names then Some (DuplicateRuleName (r_Name r))
          else validate_rules (Suc i) (insert (r_Name r) names) rs)"

definition Policy_Validate :: "Policy \<Rightarrow> policy_error option" where
  "Policy_Validate p =
     (if p_Default p \<noteq> [] \<and> p_Default p \<noteq> EffectAllow \<and> p_Default p \<noteq> EffectDeny
      then Some (InvalidDefault (p_Default p))
      else validate_rules 0 {} (p_Rules p))"

definition Match_IsEmpty :: "Match \<Rightarrow> bool" where
  "Match_IsEmpty m \<longleftrightarrow>
     m_Target m = [] \<and> m_User m = [] \<and> m_SourceIP m = [] \<and> m_Protocol m = []"

section \<open>Loading\<close>

text \<open>\<open>yaml_Unmarshal\<close> stands for the third-party decoder: an error text or the decoded policy.\<close>

definition Parse :: "(string \<Rightarrow> string + Policy) \<Rightarrow> string \<Rightarrow> policy_error + Policy" where
  "Parse yaml_Unmarshal data =
     (case yaml_Unmarshal data of
        Inl err \<Rightarrow> Inl (YamlError err)
      | Inr p \<Rightarrow>
          let p' = (if p_Default p = [] then p\<lparr>p_Default := EffectDeny\<rparr> else p)
          in (case Policy_Validate p' of Some e \<Rightarrow> Inl e | None \<Rightarrow> Inr p'))"

text \<open>\<open>ReadFile\<close> stands for the file system: an error text or the file's bytes.\<close>

definition LoadFromFile ::
  "(string \<Rightarrow> string + Policy) \<Rightarrow> (string \<Rightarrow> string + string) \<Rightarrow> string \<Rightarrow> policy_error + Policy" where
  "LoadFromFile yaml_Unmarshal ReadFile path =
     (let path' = filepath_Clean path
      in (case ReadFile path' of
            Inl err \<Rightarrow> Inl (ReadError path' err)
          | Inr data \<Rightarrow> Parse yaml_Unmarshal data))"

definition DefaultPolicy :: Policy where
  "DefaultPolicy = \<lparr>p_Default = EffectDeny, p_Rules = []\<rparr>"

section \<open>The route evaluator\<close>

record Route =
  rt_Name :: string
  rt_Destination :: string

datatype route_error = RouteCtx ctx_error | RouteDenied string

text \<open>\<open>Evaluator.Allow\<close>: the value of the context's \<open>Err()\<close> when the select runs decides.\<close>

definition Evaluator_Allow :: "go_ctx \<Rightarrow> instant \<Rightarrow> Route \<Rightarrow> route_error option" where
  "Evaluator_Allow ctx t route =
     (case ctx_Err ctx t of
        Some e \<Rightarrow> Some (RouteCtx e)
      | None \<Rightarrow> Some (RouteDenied (''route '' @ rt_Name route @ '' is denied (policy stub)'')))"

section \<open>Well-formed policies\<close>

definition match_wf :: "Match \<Rightarrow> bool" where
  "match_wf m \<longleftrightarrow>
     (m_SourceIP m = [] \<or> ParseCIDR (m_SourceIP m) \<noteq> None) \<and>
     (m_Protocol m = [] \<or> fold_norm (m_Protocol m) \<in> set valid_protocols)"

definition rule_wf :: "Rule \<Rightarrow> bool" where
  "rule_wf r \<longleftrightarrow>
     r_Name r \<noteq> [] \<and> r_Effect r \<in> {EffectAllow, EffectDeny} \<and> match_wf (r_Match r)"

definition policy_wf :: "Policy \<Rightarrow> bool" where
  "policy_wf p \<longleftrightarrow>
     p_Default p \<in> {[], EffectAllow, EffectDeny} \<and>
     (\<forall>r\<in>set (p_Rules p). rule_wf r) \<and>
     distinct (map r_Name (p_Rules p))"

lemma fold_norm_valid_protocols: "p \<in> set valid_protocols \<Longrightarrow> fold_norm p = p"
  by (auto simp: valid_protocols_def to_lower_def is_upper_def)

lemma Match_Validate_None: "Match_Validate m = None \<longleftrightarrow> match_wf m"
  using fold_norm_valid_protocols
  by (auto simp: Match_Validate_def match_wf_def list_ex_iff EqualFold_def)

lemma Rule_Validate_None: "Rule_Validate r = None \<longleftrightarrow> rule_wf r"
  by (auto simp: Rule_Validate_def rule_wf_def Match_Validate_None)

lemma validate_rules_None:
  "validate_rules i names rs = None \<longleftrightarrow>
     (\<forall>r\<in>set rs. rule_wf r) \<and> distinct (map r_Name rs) \<and> r_Name ` set rs \<inter> names = {}"
  by (induction rs arbitrary: i names)
    (auto simp: Rule_Validate_None [symmetric] split: option.splits)

lemma Policy_Validate_None: "Policy_Validate p = None \<longleftrightarrow> policy_wf p"
  by (auto simp: Policy_Validate_def policy_wf_def validate_rules_None)

lemma validate_rules_Some:
  "validate_rules i names rs = Some e \<Longrightarrow>
     \<exists>k < length rs. validate_rules i names (take k rs) = None \<and>
       (case Rule_Validate (rs ! k) of
          Some re \<Rightarrow> e = RuleError (i + k) re
        | None \<Rightarrow> r_Name (rs ! k) \<in> names \<union> r_Name ` set (take k rs) \<and>
                  e = DuplicateRuleName (r_Name (rs ! k)))"
proof (induction rs arbitrary: i names)
  case (Cons r rs)
  show ?case
  proof (cases "Rule_Validate r = None \<and> r_Name r \<notin> names")
    case True
    with Cons.prems have "validate_rules (Suc i) (insert (r_Name r) names) rs = Some e"
      by simp
    from Cons.IH [OF this] obtain k where
      "k < length rs" "validate_rules (Suc i) (insert (r_Name r) names) (take k rs) = None"
      "case Rule_Validate (rs ! k) of
          Some re \<Rightarrow> e = RuleError (Suc i + k) re
        | None \<Rightarrow> r_Name (rs ! k) \<in> insert (r_Name r) names \<union> r_Name ` set (take k rs) \<and>
                  e = DuplicateRuleName (r_Name (rs ! k))"
      by blast
    with True show ?thesis
      by (intro exI [of _ "Suc k"]) (auto split: option.splits)
  next
    case False
    with Cons.prems show ?thesis
      by (intro exI [of _ 0]) (auto split: option.splits if_splits)
  qed
qed simp

lemma Parse_Inr:
  assumes "Parse yaml data = Inr p"
  obtains q where "yaml data = Inr q" "p_Rules p = p_Rules q" "policy_wf p"
    "p_Default p = (if p_Default q = [] then EffectDeny else p_Default q)"
  using assms
  by (auto simp: Parse_def Let_def Policy_Validate_None split: sum.splits option.splits if_splits)

section \<open>Properties\<close>

text \<open>
  C20. \<open>Policy.Validate\<close> accepts exactly the well-formed policies: a default that is empty,
  \<open>allow\<close> or \<open>deny\<close>, and rules with non-empty, pairwise distinct names, an effect, a
  parseable CIDR and a known protocol (up to letter case) where these are given.
\<close>

theorem Policy_Validate_decides_wf: "Policy_Validate p = None \<longleftrightarrow> policy_wf p"
  by (rule Policy_Validate_None)

text \<open>
  C31. A rejected policy is reported by its first defect: the default effect, or the first rule
  such that all rules before it are accepted, with its own error and index, or the repeated name.
\<close>

theorem Policy_Validate_reports_first_defect:
  assumes "Policy_Validate p = Some e"
  shows "(e = InvalidDefault (p_Default p) \<and> p_Default p \<notin> {[], EffectAllow, EffectDeny})
    \<or> (\<exists>k < length (p_Rules p). validate_rules 0 {} (take k (p_Rules p)) = None \<and>
         (case Rule_Validate (p_Rules p ! k) of
            Some re \<Rightarrow> e = RuleError k re
          | None \<Rightarrow> r_Name (p_Rules p ! k) \<in> r_Name ` set (take k (p_Rules p))
              \<and> e = DuplicateRuleName (r_Name (p_Rules p ! k))))"
proof (cases "p_Default p \<in> {[], EffectAllow, EffectDeny}")
  case True
  with assms have "validate_rules 0 {} (p_Rules p) = Some e"
    by (auto simp: Policy_Validate_def split: if_splits)
  from validate_rules_Some [OF this, unfolded add_0 Un_empty_left] show ?thesis by (rule disjI2)
qed (use assms in \<open>simp add: Policy_Validate_def\<close>)

definition any_match :: Match where
  "any_match = \<lparr>m_Target = [], m_User = [], m_SourceIP = [], m_Protocol = []\<rparr>"

definition allow_rule :: "string \<Rightarrow> Rule" where
  "allow_rule name = \<lparr>r_Name = name, r_Effect = EffectAllow, r_Match = any_match\<rparr>"

definition repeated_rule :: Policy where
  "repeated_rule = \<lparr>p_Default = EffectDeny, p_Rules = [allow_rule ''a'', allow_rule ''b'', allow_rule ''a'']\<rparr>"

lemma repeated_rule_rejected: "Policy_Validate repeated_rule = Some (DuplicateRuleName ''a'')"
  by (simp add: repeated_rule_def Policy_Validate_def allow_rule_def any_match_def Rule_Validate_def
      Match_Validate_def EffectAllow_def EffectDeny_def)

theorem Policy_Validate_reports_first_defect_witness:
  "\<exists>k < length (p_Rules repeated_rule). validate_rules 0 {} (take k (p_Rules repeated_rule)) = None \<and>
     (case Rule_Validate (p_Rules repeated_rule ! k) of
        Some re \<Rightarrow> DuplicateRuleName ''a'' = RuleError k re
      | None \<Rightarrow> r_Name (p_Rules repeated_rule ! k) \<in> r_Name ` set (take k (p_Rules repeated_rule))
          \<and> DuplicateRuleName ''a'' = DuplicateRuleName (r_Name (p_Rules repeated_rule ! k)))"
  using Policy_Validate_reports_first_defect [OF repeated_rule_rejected] by blast

text \<open>
  C21. Whatever the YAML decoder and the file system return, a policy that \<open>LoadFromFile\<close>
  hands out is well-formed, has an explicit default effect (\<open>deny\<close> where the file gives
  none), and holds the rules of the file in their order.
\<close>

theorem LoadFromFile_yields_wf:
  assumes "LoadFromFile yaml_Unmarshal ReadFile path = Inr p"
  shows "policy_wf p \<and> p_Default p \<in> {EffectAllow, EffectDeny}
    \<and> (\<exists>data q. ReadFile (filepath_Clean path) = Inr data \<and> yaml_Unmarshal data = Inr q
         \<and> p_Rules p = p_Rules q \<and> (p_Default q = [] \<longrightarrow> p_Default p = EffectDeny))"
proof -
  obtain data where data: "ReadFile (filepath_Clean path) = Inr data" "Parse yaml_Unmarshal data = Inr p"
    using assms by (auto simp: LoadFromFile_def Let_def split: sum.splits)
  obtain q where q: "yaml_Unmarshal data = Inr q" "p_Rules p = p_Rules q" "policy_wf p"
      "p_Default p = (if p_Default q = [] then EffectDeny else p_Default q)"
    using Parse_Inr [OF data(2)] by blast
  then have "p_Default p \<in> {EffectAllow, EffectDeny}"
    by (simp add: policy_wf_def split: if_splits)
  with data q show ?thesis by auto
qed

theorem LoadFromFile_yields_wf_witness:
  "policy_wf \<lparr>p_Default = EffectDeny, p_Rules = [allow_rule ''a'']\<rparr>"
proof -
  have "LoadFromFile (\<lambda>data. Inr \<lparr>p_Default = [], p_Rules = [allow_rule ''a'']\<rparr>) (\<lambda>path. Inr []) ''/etc//p.yaml''
      = Inr \<lparr>p_Default = EffectDeny, p_Rules = [allow_rule ''a'']\<rparr>"
    by (simp add: LoadFromFile_def Parse_def Policy_Validate_def allow_rule_def any_match_def
        Rule_Validate_def Match_Validate_def EffectAllow_def EffectDeny_def Let_def)
  from LoadFromFile_yields_wf [OF this] show ?thesis by blast
qed

text \<open>
  A rule's \<open>source_ip\<close> that is an IPv4 address in dotted-quad notation with a prefix
  length is accepted exactly when the prefix length is at most 32 (and the protocol, if given, is
  a known one up to letter case).
\<close>

theorem Match_Validate_ipv4_networks:
  assumes "m_SourceIP m = dotted_quad a b c d @ ''/'' @ nat_digits n"
    and "a < 256" and "b < 256" and "c < 256" and "d < 256"
  shows "Match_Validate m = None \<longleftrightarrow>
    n \<le> 32 \<and> (m_Protocol m = [] \<or> fold_norm (m_Protocol m) \<in> set valid_protocols)"
  using ParseCIDR_dotted_quad [OF assms(2-5), of n] assms(1)
  by (auto simp: Match_Validate_None match_wf_def split: if_splits)

theorem Match_Validate_ipv4_networks_witness:
  "Match_Validate \<lparr>m_Target = [], m_User = [], m_SourceIP = dotted_quad 10 0 0 0 @ ''/'' @ nat_digits 8,
     m_Protocol = ''TCP''\<rparr> = None"
proof -
  have "fold_norm ''TCP'' \<in> set valid_protocols" by code_simp
  then show ?thesis
    using Match_Validate_ipv4_networks [of "\<lparr>m_Target = [], m_User = [], m_SourceIP =
        dotted_quad 10 0 0 0 @ ''/'' @ nat_digits 8, m_Protocol = ''TCP''\<rparr>" 10 0 0 0 8]
    by simp
qed

end
