(* ===== verification/Go_Json.thy ===== *)
theory Go_Json
  imports Go_Strings
begin

text \<open>
  What the sources use of Go's \<open>encoding/json\<close>: reading the first JSON value of a text,
  storing a value into strings, booleans, integers, string maps, string lists and structs
  (with the package's rules for \<open>null\<close>, unknown and case-folded member names, repeated
  members and type errors), and writing values. The reader takes fuel; \<open>json_fuel\<close> is
  enough for every text. Facts: written strings and values are read back unchanged.
\<close>

section \<open>Values\<close>

text \<open>A number is kept as its literal, as \<open>encoding/json\<close> converts it only when stored.\<close>

datatype json =
    JNull
  | JBool bool
  | JNum string
  | JStr string
  | JArr "json list"
  | JObj "(string \<times> json) list"

section \<open>Storing values\<close>

text \<open>
  A decoder takes a value and the target's present contents and returns the new contents with
  a flag that is \<open>False\<close> when a type error was recorded: decoding goes on after one, and
  \<open>Unmarshal\<close> reports it at the end.
\<close>

type_synonym 'a decoder = "json \<Rightarrow> 'a \<Rightarrow> 'a \<times> bool"

fun dec_string :: "string decoder" where
  "dec_string JNull s = (s, True)"
| "dec_string (JStr t) s = (t, True)"
| "dec_string _ s = (s, False)"

fun dec_bool :: "bool decoder" where
  "dec_bool JNull b = (b, True)"
| "dec_bool (JBool c) b = (c, True)"
| "dec_bool _ b = (b, False)"

fun dec_int :: "int decoder" where
  "dec_int JNull n = (n, True)"
| "dec_int (JNum t) n = (case ParseInt64 t of None \<Rightarrow> (n, False) | Some m \<Rightarrow> (m, True))"
| "dec_int _ n = (n, False)"

text \<open>
  \<open>map[string]string\<close>: \<open>null\<close> empties the map, a member stores its value under its key;
  a \<open>null\<close> member stores the empty string.
\<close>

fun dec_map_members :: "(string \<times> json) list \<Rightarrow> (string, string) gomap \<Rightarrow> bool \<Rightarrow>
    (string, string) gomap \<times> bool" where
  "dec_map_members [] m ok = (m, ok)"
| "dec_map_members ((k, j) # ms) m ok =
     (let (v, ok') = dec_string j [] in dec_map_members ms (AList.update k v m) (ok \<and> ok'))"

fun dec_map :: "(string, string) gomap decoder" where
  "dec_map JNull m = ([], True)"
| "dec_map (JObj ms) m = dec_map_members ms m True"
| "dec_map _ m = (m, False)"

text \<open>\<open>[]string\<close>: the elements overwrite the present ones, and the length becomes the array's.\<close>

fun dec_elems :: "json list \<Rightarrow> string list \<Rightarrow> string list \<times> bool" where
  "dec_elems [] old = ([], True)"
| "dec_elems (j # js) old =
     (let (s, ok) = dec_string j (case old of [] \<Rightarrow> [] | o1 # _ \<Rightarrow> o1);
          (ss, ok') = dec_elems js (case old of [] \<Rightarrow> [] | _ # os \<Rightarrow> os)
      in (s # ss, ok \<and> ok'))"

fun dec_list :: "string list decoder" where
  "dec_list JNull l = ([], True)"
| "dec_list (JArr js) l = dec_elems js l"
| "dec_list _ l = (l, False)"

text \<open>\<open>json.RawMessage\<close> keeps the value, \<open>null\<close> included.\<close>

definition dec_raw :: "json option decoder" where
  "dec_raw j r = (Some j, True)"

text \<open>
  Structs: \<open>fields\<close> lists the member names with their decoders in the order of the
  declaration; a member goes to the field of exactly its name, otherwise to the first field
  whose name is equal after case folding, otherwise it is skipped.
\<close>

definition find_field :: "(string \<times> 'a decoder) list \<Rightarrow> string \<Rightarrow> 'a decoder option" where
  "find_field fields k =
     (case map_of fields k of
        Some d \<Rightarrow> Some d
      | None \<Rightarrow> map_option snd (find (\<lambda>(n, d). fold_norm n = fold_norm k) fields))"

fun dec_members :: "(string \<times> 'a decoder) list \<Rightarrow> (string \<times> json) list \<Rightarrow> 'a \<Rightarrow> bool \<Rightarrow> 'a \<times> bool" where
  "dec_members fields [] v ok = (v, ok)"
| "dec_members fields ((k, j) # ms) v ok =
     (case find_field fields k of
        None \<Rightarrow> dec_members fields ms v ok
      | Some d \<Rightarrow> let (v', ok') = d j v in dec_members fields ms v' (ok \<and> ok'))"

fun dec_struct :: "(string \<times> 'a decoder) list \<Rightarrow> 'a decoder" where
  "dec_struct fields JNull v = (v, True)"
| "dec_struct fields (JObj ms) v = dec_members fields ms v True"
| "dec_struct fields _ v = (v, False)"

text \<open>A struct field as a decoder of the struct, from the field's reader and updater.\<close>

definition field :: "'f decoder \<Rightarrow> ('a \<Rightarrow> 'f) \<Rightarrow> ('f \<Rightarrow> 'a \<Rightarrow> 'a) \<Rightarrow> 'a decoder" where
  "field d rd wr j v = (let (x, ok) = d j (rd v) in (wr x v, ok))"

text \<open>
  \<open>json.Unmarshal\<close> of a raw message: \<open>None\<close> is the empty (absent) message, which is a
  syntax error. The result is \<open>None\<close> where \<open>Unmarshal\<close> returns an error.
\<close>

definition Unmarshal :: "'a decoder \<Rightarrow> json option \<Rightarrow> 'a \<Rightarrow> 'a option" where
  "Unmarshal d raw v =
     (case raw of
        None \<Rightarrow> None
      | Some j \<Rightarrow> let (v', ok) = d j v in if ok then Some v' else None)"

section \<open>Reading text\<close>

definition json_ws :: "char \<Rightarrow> bool" where
  "json_ws c \<longleftrightarrow> byte c = 32 \<or> byte c = 9 \<or> byte c = 10 \<or> byte c = 13"

definition cont_byte :: "char \<Rightarrow> bool" where
  "cont_byte c \<longleftrightarrow> 0x80 \<le> byte c \<and> byte c \<le> 0xBF"

text \<open>The length of the well-formed multi-byte UTF-8 sequence at the head, 0 if there is none.\<close>

definition utf8_two :: "char \<Rightarrow> char \<Rightarrow> bool" where
  "utf8_two a b \<longleftrightarrow> 0xC2 \<le> byte a \<and> byte a \<le> 0xDF \<and> cont_byte b"

definition utf8_three :: "char \<Rightarrow> char \<Rightarrow> char \<Rightarrow> bool" where
  "utf8_three a b c \<longleftrightarrow>
     0xE0 \<le> byte a \<and> byte a \<le> 0xEF \<and> cont_byte b \<and> cont_byte c \<and>
     (byte a = 0xE0 \<longrightarrow> 0xA0 \<le> byte b) \<and> (byte a = 0xED \<longrightarrow> byte b \<le> 0x9F)"

definition utf8_four :: "char \<Rightarrow> char \<Rightarrow> char \<Rightarrow> char \<Rightarrow> bool" where
  "utf8_four a b c d \<longleftrightarrow>
     0xF0 \<le> byte a \<and> byte a \<le> 0xF4 \<and> cont_byte b \<and> cont_byte c \<and> cont_byte d \<and>
     (byte a = 0xF0 \<longrightarrow> 0x90 \<le> byte b) \<and> (byte a = 0xF4 \<longrightarrow> byte b \<le> 0x8F)"

fun utf8_len :: "string \<Rightarrow> nat" where
  "utf8_len (a # b # c # d # s) =
     (if utf8_two a b then 2 else if utf8_three a b c then 3 else if utf8_four a b c d then 4 else 0)"
| "utf8_len [a, b, c] = (if utf8_two a b then 2 else if utf8_three a b c then 3 else 0)"
| "utf8_len [a, b] = (if utf8_two a b then 2 else 0)"
| "utf8_len _ = 0"

text \<open>UTF-8 encoding of a code point; a surrogate is written as U+FFFD.\<close>

definition utf8_encode :: "nat \<Rightarrow> string" where
  "utf8_encode r =
     (if r < 0x80 then [char_of r]
      else if r < 0x800 then [char_of (0xC0 + r div 64), char_of (0x80 + r mod 64)]
      else if 0xD800 \<le> r \<and> r \<le> 0xDFFF then [char_of (0xEF::nat), char_of (0xBF::nat), char_of (0xBD::nat)]
      else if r < 0x10000 then
        [char_of (0xE0 + r div 4096), char_of (0x80 + r div 64 mod 64), char_of (0x80 + r mod 64)]
      else [char_of (0xF0 + r div 262144), char_of (0x80 + r div 4096 mod 64),
            char_of (0x80 + r div 64 mod 64), char_of (0x80 + r mod 64)])"

definition hex4 :: "string \<Rightarrow> nat option" where
  "hex4 s =
     (if length s \<ge> 4 \<and> list_all is_hex (take 4 s)
      then Some (foldl (\<lambda>n c. 16 * n + hex_val c) 0 (take 4 s)) else None)"

text \<open>
  The body of a string after its opening quote: its decoded bytes and the text after the
  closing quote. The argument strings get shorter in every call, so the recursion needs no
  fuel.
\<close>

fun simple_escape :: "char \<Rightarrow> char option" where
  "simple_escape c =
     (if c = CHR 0x22 \<or> c = CHR 0x5C \<or> c = CHR ''/'' then Some c
      else if c = CHR ''b'' then Some (CHR 0x08)
      else if c = CHR ''f'' then Some (CHR 0x0C)
      else if c = CHR ''n'' then Some (CHR 0x0A)
      else if c = CHR ''r'' then Some (CHR 0x0D)
      else if c = CHR ''t'' then Some (CHR 0x09)
      else None)"

definition low_surrogate :: "string \<Rightarrow> nat option" where
  "low_surrogate s =
     (if HasPrefix s [CHR 0x5C, CHR ''u''] then
        (case hex4 (drop 2 s) of
           Some r \<Rightarrow> if 0xDC00 \<le> r \<and> r \<le> 0xDFFF then Some r else None
         | None \<Rightarrow> None)
      else None)"

function read_string :: "string \<Rightarrow> string \<Rightarrow> (string \<times> string) option" where
  "read_string acc s =
     (case s of
        [] \<Rightarrow> None
      | c # cs \<Rightarrow>
          if c = CHR 0x22 then Some (acc, cs)
          else if byte c < 0x20 then None
          else if c = CHR 0x5C then
            (case cs of
               [] \<Rightarrow> None
             | e # es \<Rightarrow>
                 if e = CHR ''u'' then
                   (case hex4 es of
                      None \<Rightarrow> None
                    | Some r \<Rightarrow>
                        if 0xD800 \<le> r \<and> r \<le> 0xDBFF then
                          (case low_surrogate (drop 4 es) of
                             Some l \<Rightarrow>
                               read_string (acc @ utf8_encode
                                 (0x10000 + (r - 0xD800) * 0x400 + (l - 0xDC00))) (drop 10 es)
                           | None \<Rightarrow> read_string (acc @ utf8_encode 0xFFFD) (drop 4 es))
                        else read_string (acc @ utf8_encode r) (drop 4 es))
                 else (case simple_escape e of
                         None \<Rightarrow> None
                       | Some d \<Rightarrow> read_string (acc @ [d]) es))
          else if byte c < 0x80 then read_string (acc @ [c]) cs
          else if utf8_len s = 0 then read_string (acc @ utf8_encode 0xFFFD) cs
          else read_string (acc @ take (utf8_len s) s) (drop (utf8_len s - 1) cs))"
  by pat_completeness auto
termination
  by (relation "measure (\<lambda>(acc, s). length s)") auto

declare read_string.simps [simp del]

text \<open>A number literal: the longest prefix the grammar allows, or an error inside it.\<close>

definition read_digits1 :: "string \<Rightarrow> (string \<times> string) option" where
  "read_digits1 s =
     (let ds = takeWhile is_digit s in if ds = [] then None else Some (ds, dropWhile is_digit s))"

definition read_frac :: "string \<Rightarrow> (string \<times> string) option" where
  "read_frac s =
     (case s of
        c # cs \<Rightarrow>
          if c = CHR ''.'' then map_option (\<lambda>(ds, r). (c # ds, r)) (read_digits1 cs) else Some ([], s)
      | [] \<Rightarrow> Some ([], []))"

definition read_exp :: "string \<Rightarrow> (string \<times> string) option" where
  "read_exp s =
     (case s of
        c # cs \<Rightarrow>
          if c = CHR ''e'' \<or> c = CHR ''E'' then
            (let (sign, r) = scan_sign cs
             in map_option (\<lambda>(ds, r'). (c # sign @ ds, r')) (read_digits1 r))
          else Some ([], s)
      | [] \<Rightarrow> Some ([], []))"

definition read_int :: "string \<Rightarrow> (string \<times> string) option" where
  "read_int s =
     (case s of
        [] \<Rightarrow> None
      | c # cs \<Rightarrow> if c = CHR ''0'' then Some ([c], cs) else read_digits1 s)"

definition read_number :: "string \<Rightarrow> (string \<times> string) option" where
  "read_number s =
     (let (sign, s1) = (case s of c # cs \<Rightarrow> if c = CHR ''-'' then ([c], cs) else ([], s) | [] \<Rightarrow> ([], []))
      in (case read_int s1 of
            None \<Rightarrow> None
          | Some (i, s2) \<Rightarrow>
              (case read_frac s2 of
                 None \<Rightarrow> None
               | Some (f, s3) \<Rightarrow>
                   map_option (\<lambda>(e, s4). (sign @ i @ f @ e, s4)) (read_exp s3))))"

text \<open>
  Values, arrays and objects. The first argument is fuel, the second the nesting depth, which
  \<open>encoding/json\<close> limits to 10000. \<open>read_elems\<close> is entered after \<open>[\<close> or a comma,
  \<open>read_members\<close> after \<open>{\<close> or a comma, with the members read so far.
\<close>

definition max_nesting :: nat where
  "max_nesting = 10000"

fun read_value :: "nat \<Rightarrow> nat \<Rightarrow> string \<Rightarrow> (json \<times> string) option"
and read_elems :: "nat \<Rightarrow> nat \<Rightarrow> json list \<Rightarrow> string \<Rightarrow> (json \<times> string) option"
and read_members :: "nat \<Rightarrow> nat \<Rightarrow> (string \<times> json) list \<Rightarrow> string \<Rightarrow> (json \<times> string) option" where
  "read_value 0 depth s = None"
| "read_value (Suc f) depth s =
     (case dropWhile json_ws s of
        [] \<Rightarrow> None
      | c # cs \<Rightarrow>
          if c = CHR 0x22 then map_option (\<lambda>(t, r). (JStr t, r)) (read_string [] cs)
          else if c = CHR ''['' then
            (if depth \<ge> max_nesting then None
             else (case dropWhile json_ws cs of
                     [] \<Rightarrow> None
                   | d # ds \<Rightarrow> if d = CHR '']'' then Some (JArr [], ds)
                              else read_elems f (Suc depth) [] (d # ds)))
          else if c = CHR 0x7B then
            (if depth \<ge> max_nesting then None
             else (case dropWhile json_ws cs of
                     [] \<Rightarrow> None
                   | d # ds \<Rightarrow> if d = CHR 0x7D then Some (JObj [], ds)
                              else read_members f (Suc depth) [] (d # ds)))
          else if HasPrefix (c # cs) ''null'' then Some (JNull, drop 4 (c # cs))
          else if HasPrefix (c # cs) ''true'' then Some (JBool True, drop 4 (c # cs))
          else if HasPrefix (c # cs) ''false'' then Some (JBool False, drop 5 (c # cs))
          else map_option (\<lambda>(t, r). (JNum t, r)) (read_number (c # cs)))"
| "read_elems 0 depth acc s = None"
| "read_elems (Suc f) depth acc s =
     (case read_value f depth s of
        None \<Rightarrow> None
      | Some (j, r) \<Rightarrow>
          (case dropWhile json_ws r of
             [] \<Rightarrow> None
           | c # cs \<Rightarrow>
               if c = CHR '']'' then Some (JArr (acc @ [j]), cs)
               else if c = CHR '','' then read_elems f depth (acc @ [j]) cs
               else None))"
| "read_members 0 depth acc s = None"
| "read_members (Suc f) depth acc s =
     (case dropWhile json_ws s of
        [] \<Rightarrow> None
      | q # qs \<Rightarrow>
          if q \<noteq> CHR 0x22 then None
          else (case read_string [] qs of
                  None \<Rightarrow> None
                | Some (k, r) \<Rightarrow>
                    (case dropWhile json_ws r of
                       [] \<Rightarrow> None
                     | d # ds \<Rightarrow>
                         if d \<noteq> CHR '':'' then None
                         else (case read_value f depth ds of
                                 None \<Rightarrow> None
                               | Some (j, r') \<Rightarrow>
                                   (case dropWhile json_ws r' of
                                      [] \<Rightarrow> None
                                    | c # cs \<Rightarrow>
                                        if c = CHR 0x7D then Some (JObj (acc @ [(k, j)]), cs)
                                        else if c = CHR '','' then read_members f depth (acc @ [(k, j)]) cs
                                        else None)))))"

text \<open>Two units of fuel per byte and two more are always enough (\<open>read_value_fuel\<close>).\<close>

definition json_fuel :: "string \<Rightarrow> nat" where
  "json_fuel s = 2 * length s + 2"

text \<open>\<open>json.NewDecoder(r).Decode\<close>: the first value of the text, whatever follows it.\<close>

definition json_first :: "string \<Rightarrow> json option" where
  "json_first s = map_option fst (read_value (json_fuel s) 0 s)"

section \<open>Writing text\<close>

definition hex_digit :: "nat \<Rightarrow> char" where
  "hex_digit n = (if n < 10 then char_of (48 + n) else char_of (87 + n))"

definition enc_ascii :: "char \<Rightarrow> string" where
  "enc_ascii c =
     (if c = CHR 0x22 \<or> c = CHR 0x5C then [CHR 0x5C, c]
      else if c = CHR 0x08 then [CHR 0x5C, CHR ''b'']
      else if c = CHR 0x0C then [CHR 0x5C, CHR ''f'']
      else if c = CHR 0x0A then [CHR 0x5C, CHR ''n'']
      else if c = CHR 0x0D then [CHR 0x5C, CHR ''r'']
      else if c = CHR 0x09 then [CHR 0x5C, CHR ''t'']
      else if byte c < 0x20 \<or> c = CHR 0x3C \<or> c = CHR 0x3E \<or> c = CHR 0x26 then
        [CHR 0x5C, CHR ''u'', CHR ''0'', CHR ''0'', hex_digit (byte c div 16), hex_digit (byte c mod 16)]
      else [c])"

function enc_body :: "string \<Rightarrow> string" where
  "enc_body s =
     (case s of
        [] \<Rightarrow> []
      | c # cs \<Rightarrow>
          if byte c < 0x80 then enc_ascii c @ enc_body cs
          else if utf8_len s = 0 then CHR 0x5C # ''ufffd'' @ enc_body cs
          else if take 3 s = utf8_encode 0x2028 then CHR 0x5C # ''u2028'' @ enc_body (drop 2 cs)
          else if take 3 s = utf8_encode 0x2029 then CHR 0x5C # ''u2029'' @ enc_body (drop 2 cs)
          else take (utf8_len s) s @ enc_body (drop (utf8_len s - 1) cs))"
  by pat_completeness auto
termination
  by (relation "measure length") auto

declare enc_body.simps [simp del]

definition enc_string :: "string \<Rightarrow> string" where
  "enc_string s = CHR 0x22 # enc_body s @ [CHR 0x22]"

fun enc_value :: "json \<Rightarrow> string" where
  "enc_value JNull = ''null''"
| "enc_value (JBool True) = ''true''"
| "enc_value (JBool False) = ''false''"
| "enc_value (JNum t) = t"
| "enc_value (JStr t) = enc_string t"
| "enc_value (JArr js) = ''['' @ Join (map enc_value js) '','' @ '']''"
| "enc_value (JObj ms) =
     CHR 0x7B # Join (map (\<lambda>(k, j). enc_string k @ '':'' @ enc_value j) ms) '','' @ [CHR 0x7D]"

text \<open>\<open>json.NewEncoder(w).Encode\<close> ends the value with a newline.\<close>

definition json_Encode :: "json \<Rightarrow> string" where
  "json_Encode j = enc_value j @ [CHR 0x0A]"

section \<open>Enough fuel\<close>

lemma length_dropWhile_le: "length (dropWhile P s) \<le> length s"
  by (induction s) auto

lemma dropWhile_Cons_length: "dropWhile P s = c # cs \<Longrightarrow> length cs < length s"
  using length_dropWhile_le [of P s] by simp

lemma read_string_shorter: "read_string acc s = Some (t, r) \<Longrightarrow> length r < length s"
proof (induction s arbitrary: acc rule: length_induct)
  case (1 s)
  have IH: "length r < length s" if "read_string a y = Some (t, r)" "length y < length s" for a y
    using "1.IH" that less_trans by blast
  show ?case
  proof (cases s)
    case Nil
    with "1.prems" show ?thesis by (simp add: read_string.simps)
  next
    case (Cons c cs)
    define n where "n = length s"
    have le: "Suc (length cs) \<le> n" by (simp add: n_def Cons)
    have IH': "length r < n" if "read_string a y = Some (t, r)" "length y < n" for a y
      using IH that by (simp add: n_def)
    from "1.prems" [unfolded read_string.simps [of acc s]] le have "length r < n"
      by (auto simp: Cons simp del: simple_escape.simps utf8_len.simps intro: IH'
          split: if_splits list.splits option.splits)
    then show ?thesis by (simp add: n_def)
  qed
qed

lemma read_digits1_shorter: "read_digits1 s = Some (t, r) \<Longrightarrow> length r < length s"
  by (cases s) (auto simp: read_digits1_def Let_def length_dropWhile_le le_imp_less_Suc split: if_splits)

lemma read_frac_length: "read_frac s = Some (t, r) \<Longrightarrow> length r \<le> length s"
  by (auto simp: read_frac_def split: list.splits if_splits dest: read_digits1_shorter)

lemma read_exp_length: "read_exp s = Some (t, r) \<Longrightarrow> length r \<le> length s"
  by (auto simp: read_exp_def scan_sign_def Let_def split: list.splits if_splits
      dest!: read_digits1_shorter)

lemma read_int_shorter: "read_int s = Some (t, r) \<Longrightarrow> length r < length s"
  by (auto simp: read_int_def split: list.splits if_splits dest: read_digits1_shorter)

lemma read_number_shorter: "read_number s = Some (t, r) \<Longrightarrow> length r < length s"
  by (auto simp: read_number_def Let_def split: list.splits if_splits option.splits
      dest!: read_int_shorter read_frac_length read_exp_length)

lemma length_drop_prefix: "HasPrefix s p \<Longrightarrow> p \<noteq> [] \<Longrightarrow> length (drop (length p) s) < length s"
  by (cases s) (auto simp: HasPrefix_def)

text \<open>Every reader consumes at least one byte.\<close>

lemma read_shorter:
  "read_value f d s = Some (j, r) \<Longrightarrow> length r < length s"
  "read_elems f d acc s = Some (j, r) \<Longrightarrow> length r < length s"
  "read_members f d acc' s = Some (j, r) \<Longrightarrow> length r < length s"
proof (induction f arbitrary: d s acc acc' j r)
  case (Suc f)
  {
    case 1
    then obtain c cs where c: "dropWhile json_ws s = c # cs"
      by (cases "dropWhile json_ws s") auto
    have le: "Suc (length cs) \<le> length s"
      using length_dropWhile_le [of json_ws s] c by simp
    have ds: "length ys < length s" if "dropWhile json_ws cs = y # ys" for y ys
      using dropWhile_Cons_length [OF that] le by simp
    from 1 le show ?case
      by (auto simp: c split: if_splits list.splits dest!: ds Suc.IH(2,3) read_string_shorter
          read_number_shorter)
  next
    case 2
    then show ?case
      by (auto split: option.splits list.splits if_splits
          dest!: Suc.IH(1,2) dropWhile_Cons_length)
  next
    case 3
    then show ?case
      by (auto split: option.splits list.splits if_splits
          dest!: Suc.IH(1,3) dropWhile_Cons_length read_string_shorter)
  }
qed simp_all

lemma read_fuel:
  "2 * length s + 1 \<le> f \<Longrightarrow> 2 * length s + 1 \<le> g \<Longrightarrow> read_value f d s = read_value g d s"
  "2 * length s + 2 \<le> f \<Longrightarrow> 2 * length s + 2 \<le> g \<Longrightarrow> read_elems f d acc s = read_elems g d acc s"
  "2 * length s + 2 \<le> f \<Longrightarrow> 2 * length s + 2 \<le> g \<Longrightarrow> read_members f d acc' s = read_members g d acc' s"
proof (induction f arbitrary: g d s acc acc')
  case (Suc f)
  {
    case 1
    then obtain g' where g: "g = Suc g'" by (cases g) auto
    show ?case
    proof (cases "dropWhile json_ws s")
      case (Cons c cs)
      have le: "Suc (length cs) \<le> length s"
        using length_dropWhile_le [of json_ws s] Cons by simp
      have sub: "read_elems f (Suc d) [] (y # ys) = read_elems g' (Suc d) [] (y # ys) \<and>
          read_members f (Suc d) [] (y # ys) = read_members g' (Suc d) [] (y # ys)"
        if "dropWhile json_ws cs = y # ys" for y ys
        using dropWhile_Cons_length [OF that] le 1 g by (intro conjI Suc.IH(2,3)) auto
      show ?thesis
        unfolding g read_value.simps Cons using sub
        by (cases "dropWhile json_ws cs") (simp_all del: dropWhile_eq_Nil_conv)
    qed (simp add: g del: dropWhile_eq_Nil_conv)
  next
    case 2
    then obtain g' where g: "g = Suc g'" by (cases g) auto
    have v: "read_value f d s = read_value g' d s"
      using 2 g by (intro Suc.IH(1)) auto
    have e: "read_elems f d ac cs = read_elems g' d ac cs"
      if "read_value g' d s = Some (j, r)" "dropWhile json_ws r = c # cs" for j r c cs ac
      using read_shorter(1) [OF that(1)] dropWhile_Cons_length [OF that(2)] 2 g
      by (intro Suc.IH(2)) auto
    show ?case
      unfolding g read_elems.simps v using e
      by (auto split: option.split list.split simp del: dropWhile_eq_Nil_conv)
  next
    case 3
    then obtain g' where g: "g = Suc g'" by (cases g) auto
    have v: "read_value f d ds = read_value g' d ds"
      if "dropWhile json_ws s = q # qs" "read_string [] qs = Some (k, r)" "dropWhile json_ws r = e # ds"
      for q qs k r e ds
      using dropWhile_Cons_length [OF that(1)] read_string_shorter [OF that(2)]
        dropWhile_Cons_length [OF that(3)] 3 g
      by (intro Suc.IH(1)) auto
    have m: "read_members f d ac cs = read_members g' d ac cs"
      if "dropWhile json_ws s = q # qs" "read_string [] qs = Some (k, r)" "dropWhile json_ws r = e # ds"
        "read_value g' d ds = Some (j, r')" "dropWhile json_ws r' = c # cs"
      for q qs k r e ds j r' c cs ac
      using dropWhile_Cons_length [OF that(1)] read_string_shorter [OF that(2)]
        dropWhile_Cons_length [OF that(3)] read_shorter(1) [OF that(4)]
        dropWhile_Cons_length [OF that(5)] 3 g
      by (intro Suc.IH(3)) auto
    show ?case
      unfolding g read_members.simps using v m
      by (auto split: option.split list.split simp del: dropWhile_eq_Nil_conv)
  }
qed simp_all

text \<open>\<open>json_fuel\<close> is enough: any larger amount of fuel reads the same value.\<close>

lemma read_value_fuel: "json_fuel s \<le> f \<Longrightarrow> read_value f d s = read_value (json_fuel s) d s"
  by (rule read_fuel(1)) (simp_all add: json_fuel_def)

lemma json_first_fuel: "json_fuel s \<le> f \<Longrightarrow> json_first s = map_option fst (read_value f 0 s)"
  using read_value_fuel [of s f 0] by (simp add: json_first_def)

section \<open>Reading back what was written\<close>

function valid_utf8 :: "string \<Rightarrow> bool" where
  "valid_utf8 s =
     (case s of
        [] \<Rightarrow> True
      | c # cs \<Rightarrow>
          if byte c < 0x80 then valid_utf8 cs
          else utf8_len s \<noteq> 0 \<and> valid_utf8 (drop (utf8_len s - 1) cs))"
  by pat_completeness auto
termination
  by (relation "measure length") auto

declare valid_utf8.simps [simp del]

lemma valid_utf8_ascii: "\<forall>c\<in>set s. byte c < 0x80 \<Longrightarrow> valid_utf8 s"
proof (induction s)
  case Nil
  show ?case by (subst valid_utf8.simps) simp
next
  case (Cons c s)
  then show ?case by (subst valid_utf8.simps) simp
qed

lemma utf8_len_head:
  "utf8_two a b \<Longrightarrow> utf8_len (a # b # t) = 2"
  "utf8_three a b c \<Longrightarrow> utf8_len (a # b # c # t) = 3"
  "utf8_four a b c d \<Longrightarrow> utf8_len (a # b # c # d # t) = 4"
  by (cases t rule: utf8_len.cases; simp add: utf8_two_def utf8_three_def utf8_four_def)+

lemma utf8_len_cases:
  assumes "utf8_len s \<noteq> 0"
  obtains a b t where "s = a # b # t" "utf8_two a b" "utf8_len s = 2"
  | a b c t where "s = a # b # c # t" "utf8_three a b c" "utf8_len s = 3"
  | a b c d t where "s = a # b # c # d # t" "utf8_four a b c d" "utf8_len s = 4"
  using assms by (cases s rule: utf8_len.cases) (auto split: if_splits)

lemma utf8_len_take:
  assumes "utf8_len s \<noteq> 0"
  shows "utf8_len (take (utf8_len s) s @ t) = utf8_len s"
  using assms by (cases rule: utf8_len_cases) (simp_all add: utf8_len_head del: utf8_len.simps)

lemma utf8_len_bounds: "utf8_len s \<noteq> 0 \<Longrightarrow> 2 \<le> utf8_len s \<and> utf8_len s \<le> length s"
  by (erule utf8_len_cases) (simp_all del: utf8_len.simps)

lemma utf8_len_append:
  assumes "utf8_len s \<noteq> 0"
  shows "utf8_len (s @ t) = utf8_len s"
  using assms by (cases rule: utf8_len_cases) (simp_all add: utf8_len_head del: utf8_len.simps)

lemma valid_utf8_append: "valid_utf8 s \<Longrightarrow> valid_utf8 t \<Longrightarrow> valid_utf8 (s @ t)"
proof (induction s rule: valid_utf8.induct)
  case (1 s)
  show ?case
  proof (cases s)
    case (Cons c cs)
    show ?thesis
    proof (cases "byte c < 0x80")
      case True
      with Cons 1 show ?thesis by (simp add: valid_utf8.simps [of "c # cs"] valid_utf8.simps [of "c # cs @ t"])
    next
      case False
      with Cons 1(3) have len: "utf8_len s \<noteq> 0" and rest: "valid_utf8 (drop (utf8_len s - 1) cs)"
        by (simp_all add: valid_utf8.simps [of "c # cs"])
      have "utf8_len s - 1 \<le> length cs" using utf8_len_bounds [OF len] Cons by auto
      then have "drop (utf8_len s - 1) (cs @ t) = drop (utf8_len s - 1) cs @ t" by simp
      with 1(2) [OF Cons False rest 1(4)] len Cons False utf8_len_append [OF len, of t] show ?thesis
        by (simp add: valid_utf8.simps [of "c # cs @ t"])
    qed
  qed (use 1 in simp)
qed

lemma read_string_ascii:
  assumes "byte c < 0x80"
  shows "read_string acc (enc_ascii c @ t) = read_string (acc @ [c]) t"
proof -
  have hx: "is_hex (hex_digit n) \<and> hex_val (hex_digit n) = n" if "n < 16" for n
    using that by (auto simp: hex_digit_def is_hex_def hex_val_def is_digit_def)
  have h4: "hex4 (CHR ''0'' # CHR ''0'' # hex_digit (byte c div 16) # hex_digit (byte c mod 16) # t) =
      Some (byte c)"
    using hx [of "byte c div 16"] hx [of "byte c mod 16"] assms
    by (simp add: hex4_def is_hex_def is_digit_def hex_val_def)
  have enc: "utf8_encode (byte c) = [c]"
    using assms by (simp add: utf8_encode_def)
  show ?thesis
    using assms
    by (subst read_string.simps) (auto simp: enc_ascii_def h4 enc)
qed

lemma read_string_utf8:
  assumes "utf8_len s \<noteq> 0"
  shows "read_string acc (take (utf8_len s) s @ t) = read_string (acc @ take (utf8_len s) s) t"
proof -
  let ?w = "take (utf8_len s) s"
  obtain c cs where w: "?w = c # cs" and c: "0x80 \<le> byte c"
    using assms
    by (cases rule: utf8_len_cases)
      (auto simp: utf8_two_def utf8_three_def utf8_four_def simp del: utf8_len.simps)
  have len: "length ?w = utf8_len s"
    using utf8_len_bounds [OF assms] by simp
  have "utf8_len ((c # cs) @ t) = length (c # cs)"
    using utf8_len_take [OF assms, of t] len w by simp
  moreover have "c \<noteq> CHR 0x22" "c \<noteq> CHR 0x5C" "\<not> byte c < 0x20"
    using c by auto
  ultimately show ?thesis
    unfolding w using c
    by (subst read_string.simps) (simp del: utf8_len.simps)
qed

lemma hex4_2028: "hex4 (''2028'' @ t) = Some 0x2028" "hex4 (''2029'' @ t) = Some 0x2029"
  by (simp_all add: hex4_def is_hex_def is_digit_def hex_val_def)

lemma read_string_2028:
  "read_string acc (CHR 0x5C # ''u2028'' @ t) = read_string (acc @ utf8_encode 0x2028) t"
  "read_string acc (CHR 0x5C # ''u2029'' @ t) = read_string (acc @ utf8_encode 0x2029) t"
  using hex4_2028 [of t] by (subst read_string.simps, simp)+

lemma read_string_enc_body:
  "valid_utf8 s \<Longrightarrow> read_string acc (enc_body s @ CHR 0x22 # r) = Some (acc @ s, r)"
proof (induction s arbitrary: acc rule: length_induct)
  case (1 s)
  show ?case
  proof (cases s)
    case Nil
    then show ?thesis by (simp add: enc_body.simps read_string.simps)
  next
    case (Cons c cs)
    show ?thesis
    proof (cases "byte c < 0x80")
      case True
      with "1.prems" Cons have "valid_utf8 cs" by (subst (asm) valid_utf8.simps) simp
      with "1.IH" Cons have "read_string (acc @ [c]) (enc_body cs @ CHR 0x22 # r) = Some (acc @ [c] @ cs, r)"
        by simp
      with True Cons show ?thesis
        by (subst enc_body.simps) (simp add: read_string_ascii)
    next
      case False
      define n where "n = utf8_len s"
      from "1.prems" False Cons have n: "n \<noteq> 0" and v: "valid_utf8 (drop n s)"
        unfolding n_def by (subst (asm) valid_utf8.simps; simp add: drop_Cons' del: utf8_len.simps)+
      have bound: "2 \<le> n" "n \<le> length s"
        using utf8_len_bounds n by (auto simp: n_def)
      have IH: "read_string (acc @ take n s) (enc_body (drop n s) @ CHR 0x22 # r) = Some (acc @ s, r)"
        using "1.IH" [rule_format, of "drop n s" "acc @ take n s"] v bound by simp
      have enc: "enc_body s =
          (if take 3 s = utf8_encode 0x2028 then CHR 0x5C # ''u2028'' @ enc_body (drop 3 s)
           else if take 3 s = utf8_encode 0x2029 then CHR 0x5C # ''u2029'' @ enc_body (drop 3 s)
           else take n s @ enc_body (drop n s))"
        using False Cons n bound
        by (subst enc_body.simps) (simp add: n_def drop_Cons' del: utf8_len.simps)
      have three: "n = 3" if "take 3 s = utf8_encode m" "m = 0x2028 \<or> m = 0x2029" for m
      proof -
        from that obtain x y z where xyz: "take 3 s = [x, y, z]" "utf8_three x y z"
          by (auto simp: utf8_encode_def utf8_three_def cont_byte_def)
        then have "s = x # y # z # drop 3 s"
          by (metis append_Cons append_Nil append_take_drop_id)
        with xyz(2) show ?thesis unfolding n_def by (metis utf8_len_head(2))
      qed
      show ?thesis
        using IH three [of "0x2028"] three [of "0x2029"]
        by (auto simp: enc read_string_2028 [simplified] n_def [symmetric]
            read_string_utf8 [OF n [unfolded n_def], folded n_def])
    qed
  qed
qed

text \<open>
  Values whose text is read back as they are: no numbers, strings and member names in valid
  UTF-8, and the nesting limit respected from the given depth on.
\<close>

fun wf_out :: "nat \<Rightarrow> json \<Rightarrow> bool" where
  "wf_out d JNull = True"
| "wf_out d (JBool b) = True"
| "wf_out d (JNum t) = False"
| "wf_out d (JStr t) = valid_utf8 t"
| "wf_out d (JArr js) = (d < max_nesting \<and> (\<forall>j\<in>set js. wf_out (Suc d) j))"
| "wf_out d (JObj ms) = (d < max_nesting \<and> (\<forall>(k, j)\<in>set ms. valid_utf8 k \<and> wf_out (Suc d) j))"

lemma json_ws_quote [simp]: "\<not> json_ws CHR 0x22" "\<not> json_ws CHR ''[''" "\<not> json_ws CHR '']''"
    "\<not> json_ws CHR 0x7B" "\<not> json_ws CHR 0x7D" "\<not> json_ws CHR '',''" "\<not> json_ws CHR '':''"
    "\<not> json_ws CHR ''n''" "\<not> json_ws CHR ''t''" "\<not> json_ws CHR ''f''"
  by (simp_all add: json_ws_def)

lemma enc_value_head:
  "wf_out d j \<Longrightarrow> \<exists>c cs. enc_value j = c # cs \<and> \<not> json_ws c \<and> c \<noteq> CHR '']''"
  by (induction j rule: enc_value.induct) (auto simp: enc_string_def)

lemma read_enc_string:
  "valid_utf8 t \<Longrightarrow> read_value (Suc f) d (enc_string t @ r) = Some (JStr t, r)"
  using read_string_enc_body [of t "[]" r] by (simp add: enc_string_def)

lemma read_elems_enc:
  assumes "js \<noteq> []"
    and "\<forall>j\<in>set js. \<forall>r. \<exists>f0. \<forall>f\<ge>f0. read_value f d (enc_value j @ r) = Some (j, r)"
  shows "\<exists>f0. \<forall>f\<ge>f0. read_elems f d acc (Join (map enc_value js) '','' @ CHR '']'' # r) = Some (JArr (acc @ js), r)"
  using assms
proof (induction js arbitrary: acc)
  case (Cons j js)
  let ?rest = "if js = [] then CHR '']'' # r else CHR '','' # Join (map enc_value js) '','' @ CHR '']'' # r"
  have shape: "Join (map enc_value (j # js)) '','' @ CHR '']'' # r = enc_value j @ ?rest"
    by (cases js) simp_all
  obtain f1 where f1: "\<forall>f\<ge>f1. read_value f d (enc_value j @ ?rest) = Some (j, ?rest)"
    using Cons.prems(2) by fastforce
  show ?case
  proof (cases "js = []")
    case True
    show ?thesis
    proof (intro exI [of _ "Suc f1"] allI impI)
      fix f assume "Suc f1 \<le> f"
      then obtain g where g: "f = Suc g" "f1 \<le> g" by (cases f) auto
      with f1 True show "read_elems f d acc (Join (map enc_value (j # js)) '','' @ CHR '']'' # r) =
          Some (JArr (acc @ j # js), r)"
        unfolding shape by simp
    qed
  next
    case False
    then obtain f2 where f2: "\<forall>f\<ge>f2. read_elems f d (acc @ [j])
        (Join (map enc_value js) '','' @ CHR '']'' # r) = Some (JArr ((acc @ [j]) @ js), r)"
      using Cons.IH [of "acc @ [j]"] Cons.prems by auto
    show ?thesis
    proof (intro exI [of _ "Suc (max f1 f2)"] allI impI)
      fix f assume "Suc (max f1 f2) \<le> f"
      then obtain g where g: "f = Suc g" "f1 \<le> g" "f2 \<le> g" by (cases f) auto
      with f1 f2 False show "read_elems f d acc (Join (map enc_value (j # js)) '','' @ CHR '']'' # r) =
          Some (JArr (acc @ j # js), r)"
        unfolding shape by simp
    qed
  qed
qed simp

definition enc_member :: "string \<times> json \<Rightarrow> string" where
  "enc_member m = enc_string (fst m) @ '':'' @ enc_value (snd m)"

lemma enc_value_JObj: "enc_value (JObj ms) = CHR 0x7B # Join (map enc_member ms) '','' @ [CHR 0x7D]"
  by (simp add: enc_member_def [abs_def] case_prod_unfold)

lemma read_member_enc:
  assumes "valid_utf8 k" and "read_value f d (enc_value j @ c # cs) = Some (j, c # cs)"
    and "\<not> json_ws c"
  shows "read_members (Suc f) d acc (enc_member (k, j) @ c # cs) =
    (if c = CHR 0x7D then Some (JObj (acc @ [(k, j)]), cs)
     else if c = CHR '','' then read_members f d (acc @ [(k, j)]) cs else None)"
  using assms read_string_enc_body [OF assms(1), of "[]"]
  by (simp add: enc_member_def enc_string_def)

lemma read_members_enc:
  assumes "ms \<noteq> []"
    and "\<forall>m\<in>set ms. valid_utf8 (fst m) \<and>
      (\<forall>r. \<exists>f0. \<forall>f\<ge>f0. read_value f d (enc_value (snd m) @ r) = Some (snd m, r))"
  shows "\<exists>f0. \<forall>f\<ge>f0. read_members f d acc (Join (map enc_member ms) '','' @ CHR 0x7D # r) = Some (JObj (acc @ ms), r)"
  using assms
proof (induction ms arbitrary: acc)
  case (Cons m ms)
  obtain k j where m: "m = (k, j)" by (cases m)
  let ?rest = "if ms = [] then CHR 0x7D # r else CHR '','' # Join (map enc_member ms) '','' @ CHR 0x7D # r"
  have shape: "Join (map enc_member (m # ms)) '','' @ CHR 0x7D # r = enc_member (k, j) @ ?rest"
    by (cases ms) (simp_all add: m)
  obtain f1 where f1: "\<forall>f\<ge>f1. read_value f d (enc_value j @ ?rest) = Some (j, ?rest)"
    using Cons.prems(2) m by fastforce
  have k: "valid_utf8 k" using Cons.prems(2) m by simp
  show ?case
  proof (cases "ms = []")
    case True
    show ?thesis
    proof (intro exI [of _ "Suc f1"] allI impI)
      fix f assume "Suc f1 \<le> f"
      then obtain g where g: "f = Suc g" "f1 \<le> g" by (cases f) auto
      with f1 True show "read_members f d acc (Join (map enc_member (m # ms)) '','' @ CHR 0x7D # r) =
          Some (JObj (acc @ m # ms), r)"
        unfolding shape by (simp add: read_member_enc [OF k] m del: read_members.simps)
    qed
  next
    case False
    then obtain f2 where f2: "\<forall>f\<ge>f2. read_members f d (acc @ [(k, j)])
        (Join (map enc_member ms) '','' @ CHR 0x7D # r) = Some (JObj ((acc @ [(k, j)]) @ ms), r)"
      using Cons.IH [of "acc @ [(k, j)]"] Cons.prems by auto
    show ?thesis
    proof (intro exI [of _ "Suc (max f1 f2)"] allI impI)
      fix f assume "Suc (max f1 f2) \<le> f"
      then obtain g where g: "f = Suc g" "f1 \<le> g" "f2 \<le> g" by (cases f) auto
      with f1 f2 False show "read_members f d acc (Join (map enc_member (m # ms)) '','' @ CHR 0x7D # r) =
          Some (JObj (acc @ m # ms), r)"
        unfolding shape by (simp add: read_member_enc [OF k] m del: read_members.simps)
    qed
  qed
qed simp

lemma enc_member_head: "\<exists>cs. Join (map enc_member (m # ms)) '','' = CHR 0x22 # cs"
  by (cases ms) (auto simp: enc_member_def enc_string_def)

lemma read_enc_value:
  "wf_out d j \<Longrightarrow> \<exists>f0. \<forall>f\<ge>f0. read_value f d (enc_value j @ r) = Some (j, r)"
proof (induction j arbitrary: d r)
  case JNull
  show ?case by (rule exI [of _ 1]) (auto simp: HasPrefix_def Suc_le_eq gr0_conv_Suc)
next
  case (JBool b)
  show ?case
    by (rule exI [of _ 1], cases b) (auto simp: HasPrefix_def Suc_le_eq gr0_conv_Suc)
next
  case (JStr t)
  then show ?case
    using read_enc_string by (intro exI [of _ 1]) (auto simp: Suc_le_eq gr0_conv_Suc)
next
  case (JArr js)
  show ?case
  proof (cases js)
    case Nil
    with JArr.prems show ?thesis
      by (intro exI [of _ 1]) (auto simp: Suc_le_eq gr0_conv_Suc)
  next
    case (Cons j js')
    from JArr.prems JArr.IH
    have "\<forall>j\<in>set js. \<forall>r. \<exists>f0. \<forall>f\<ge>f0. read_value f (Suc d) (enc_value j @ r) = Some (j, r)"
      by auto
    from read_elems_enc [OF _ this, of "[]" r] Cons obtain f0 where
      f0: "\<forall>f\<ge>f0. read_elems f (Suc d) [] (Join (map enc_value js) '','' @ CHR '']'' # r) = Some (JArr js, r)"
      by auto
    have "wf_out (Suc d) j" using JArr.prems Cons by simp
    from enc_value_head [OF this] obtain c cs where
      "Join (map enc_value js) '','' @ CHR '']'' # r = c # cs" "\<not> json_ws c" "c \<noteq> CHR '']''"
      using Cons by (cases js') auto
    with f0 JArr.prems show ?thesis
      by (intro exI [of _ "Suc f0"]) (auto simp: Suc_le_eq less_eq_Suc_le [symmetric] dest!: less_imp_Suc_add)
  qed
next
  case (JObj ms)
  show ?case
  proof (cases ms)
    case Nil
    with JObj.prems show ?thesis
      by (intro exI [of _ 1]) (auto simp: Suc_le_eq gr0_conv_Suc)
  next
    case (Cons m ms')
    have IH: "\<forall>m\<in>set ms. valid_utf8 (fst m) \<and>
        (\<forall>r. \<exists>f0. \<forall>f\<ge>f0. read_value f (Suc d) (enc_value (snd m) @ r) = Some (snd m, r))"
    proof
      fix m assume "m \<in> set ms"
      with JObj.prems JObj.IH [of m "snd m" "Suc d"] show "valid_utf8 (fst m) \<and>
          (\<forall>r. \<exists>f0. \<forall>f\<ge>f0. read_value f (Suc d) (enc_value (snd m) @ r) = Some (snd m, r))"
        by (cases m) auto
    qed
    from read_members_enc [OF _ IH, of "[]" r] Cons obtain f0 where
      f0: "\<forall>f\<ge>f0. read_members f (Suc d) [] (Join (map enc_member ms) '','' @ CHR 0x7D # r) = Some (JObj ms, r)"
      by auto
    obtain cs where "Join (map enc_member ms) '','' @ CHR 0x7D # r = CHR 0x22 # cs"
      using enc_member_head [of m ms'] Cons by auto
    with f0 JObj.prems show ?thesis
      by (intro exI [of _ "Suc f0"])
        (auto simp: enc_value_JObj Suc_le_eq less_eq_Suc_le [symmetric] dest!: less_imp_Suc_add
          simp del: enc_value.simps)
  qed
qed simp

theorem json_first_Encode: "wf_out 0 j \<Longrightarrow> json_first (json_Encode j) = Some j"
proof -
  assume "wf_out 0 j"
  then obtain f0 where "\<forall>f\<ge>f0. read_value f 0 (json_Encode j) = Some (j, [CHR 0x0A])"
    using read_enc_value by (metis json_Encode_def)
  then have "read_value (max f0 (json_fuel (json_Encode j))) 0 (json_Encode j) = Some (j, [CHR 0x0A])"
    by simp
  then show ?thesis
    using json_first_fuel [of "json_Encode j" "max f0 (json_fuel (json_Encode j))"] by simp
qed

end
