(* ===== verification/Go_Url.thy ===== *)
theory Go_Url
  imports Go_Strings
begin

text \<open>
  What the sources use of Go's \<open>net/url\<close> and of \<open>net/http\<close>'s messages: query
  escaping, \<open>Values.Encode\<close>, \<open>URL.Query().Get\<close>, \<open>url.Parse\<close> with its scheme
  and host, and the request and response records with \<open>http.Error\<close>. Facts: a parameter
  that was encoded into a query is found in it unchanged, and \<open>url.Parse\<close> accepts every
  URL of a known scheme with a plain host and path, a decimal port and an encoded query.
\<close>

section \<open>Escaping\<close>

definition is_alnum :: "char \<Rightarrow> bool" where
  "is_alnum c \<longleftrightarrow> is_digit c \<or> is_upper c \<or> is_lower c"

definition is_unreserved :: "char \<Rightarrow> bool" where
  "is_unreserved c \<longleftrightarrow> is_alnum c \<or> c \<in> set ''-_.~''"

definition upper_hex :: "nat \<Rightarrow> char" where
  "upper_hex n = (if n < 10 then char_of (48 + n) else char_of (55 + n))"

fun QueryEscape :: "string \<Rightarrow> string" where
  "QueryEscape [] = []"
| "QueryEscape (c # cs) =
     (if is_unreserved c then [c]
      else if c = CHR '' '' then ''+''
      else [CHR ''%'', upper_hex (byte c div 16), upper_hex (byte c mod 16)]) @ QueryEscape cs"

text \<open>
  \<open>url.unescape\<close>: \<open>bad\<close> tells which plain bytes the mode refuses, \<open>bad_esc\<close> which
  escaped ones (given the two hexadecimal digits), \<open>spc\<close> whether a plus means a space.
\<close>

fun unescape :: "(char \<Rightarrow> bool) \<Rightarrow> (char \<Rightarrow> char \<Rightarrow> bool) \<Rightarrow> bool \<Rightarrow> string \<Rightarrow> string option" where
  "unescape bad bad_esc spc [] = Some []"
| "unescape bad bad_esc spc (c # cs) =
     (if c = CHR ''%'' then
        (case cs of
           h # l # rest \<Rightarrow>
             if is_hex h \<and> is_hex l \<and> \<not> bad_esc h l
             then map_option (Cons (char_of (16 * hex_val h + hex_val l))) (unescape bad bad_esc spc rest)
             else None
         | _ \<Rightarrow> None)
      else if c = CHR ''+'' then
        map_option (Cons (if spc then CHR '' '' else c)) (unescape bad bad_esc spc cs)
      else if bad c then None
      else map_option (Cons c) (unescape bad bad_esc spc cs))"

definition QueryUnescape :: "string \<Rightarrow> string option" where
  "QueryUnescape = unescape (\<lambda>_. False) (\<lambda>_ _. False) True"

section \<open>Query strings\<close>

definition parse_param :: "string \<Rightarrow> (string \<times> string) option" where
  "parse_param p =
     (if CHR '';'' \<in> set p \<or> p = [] then None
      else let (k, v, _) = Cut p CHR ''=''
           in (case (QueryUnescape k, QueryUnescape v) of
                 (Some k', Some v') \<Rightarrow> Some (k', v')
               | _ \<Rightarrow> None))"

definition ParseQuery :: "string \<Rightarrow> (string \<times> string) list" where
  "ParseQuery q = List.map_filter parse_param (split_on CHR ''&'' q)"

text \<open>\<open>Values.Get\<close>: the first value of the key, or the empty string.\<close>

definition query_Get :: "string \<Rightarrow> string \<Rightarrow> string" where
  "query_Get q k = (case map_of (ParseQuery q) k of None \<Rightarrow> [] | Some v \<Rightarrow> v)"

definition Values_Encode :: "(string, string list) gomap \<Rightarrow> string" where
  "Values_Encode vs =
     Join (concat (map (\<lambda>(k, xs). map (\<lambda>x. QueryEscape k @ ''='' @ QueryEscape x) xs) (sort_key fst vs))) ''&''"

section \<open>Parsing URLs\<close>

text \<open>
  \<open>url.Parse\<close> as far as the sources look at its result: the error, or scheme and host.
\<close>

datatype url_error =
    ControlByte | MissingScheme | ColonInFirstSegment | BadHost | BadUserinfo | BadEscape

definition has_ctl :: "string \<Rightarrow> bool" where
  "has_ctl s \<longleftrightarrow> list_ex (\<lambda>c. byte c < 0x20 \<or> byte c = 0x7F) s"

fun getScheme :: "string \<Rightarrow> string \<Rightarrow> url_error + (string \<times> string)" where
  "getScheme seen [] = Inr ([], seen)"
| "getScheme seen (c # cs) =
     (if is_upper c \<or> is_lower c then getScheme (seen @ [c]) cs
      else if is_digit c \<or> c \<in> set ''+-.'' then
        (if seen = [] then Inr ([], c # cs) else getScheme (seen @ [c]) cs)
      else if c = CHR '':'' then
        (if seen = [] then Inl MissingScheme else Inr (seen, cs))
      else Inr ([], seen @ c # cs))"

text \<open>Bytes that need no escape in a host (sub-delims, brackets, colon and quotes as in Go).\<close>

definition host_byte :: "char \<Rightarrow> bool" where
  "host_byte c \<longleftrightarrow> is_unreserved c \<or> c \<in> set ''!$&()*+,;=:[]<>'' \<or> byte c = 0x27 \<or> byte c = 0x22"

definition unescape_host :: "string \<Rightarrow> string option" where
  "unescape_host =
     unescape (\<lambda>c. byte c < 0x80 \<and> \<not> host_byte c)
       (\<lambda>h l. hex_val h < 8 \<and> \<not> (h = CHR ''2'' \<and> l = CHR ''5'')) False"

definition unescape_zone :: "string \<Rightarrow> string option" where
  "unescape_zone =
     unescape (\<lambda>c. byte c < 0x80 \<and> \<not> host_byte c)
       (\<lambda>h l. \<not> (h = CHR ''2'' \<and> l = CHR ''5'') \<and>
          (let v = char_of (16 * hex_val h + hex_val l) in v \<noteq> CHR '' '' \<and> \<not> host_byte v)) False"

definition unescape_path :: "string \<Rightarrow> string option" where
  "unescape_path = unescape (\<lambda>_. False) (\<lambda>_ _. False) False"

definition validOptionalPort :: "string \<Rightarrow> bool" where
  "validOptionalPort p \<longleftrightarrow> p = [] \<or> (hd p = CHR '':'' \<and> list_all is_digit (tl p))"

definition parseHost :: "string \<Rightarrow> string option" where
  "parseHost host =
     (if HasPrefix host ''['' then
        (case last_index_byte host CHR '']'' of
           None \<Rightarrow> None
         | Some i \<Rightarrow>
             if \<not> validOptionalPort (drop (Suc i) host) then None
             else (case index_string (take i host) ''%25'' of
                     Some z \<Rightarrow>
                       (case (unescape_host (take z host), unescape_zone (drop z (take i host)),
                              unescape_host (drop i host)) of
                          (Some h1, Some h2, Some h3) \<Rightarrow> Some (h1 @ h2 @ h3)
                        | _ \<Rightarrow> None)
                   | None \<Rightarrow> unescape_host host))
      else (case last_index_byte host CHR '':'' of
              Some i \<Rightarrow> if validOptionalPort (drop i host) then unescape_host host else None
            | None \<Rightarrow> unescape_host host))"

definition valid_userinfo :: "string \<Rightarrow> bool" where
  "valid_userinfo s \<longleftrightarrow>
     list_all (\<lambda>c. is_alnum c \<or> c \<in> set ''-._:~!$&()*+,;=%@'' \<or> byte c = 0x27) s"

definition parseAuthority :: "string \<Rightarrow> url_error + string" where
  "parseAuthority a =
     (case last_index_byte a CHR ''@'' of
        None \<Rightarrow> (case parseHost a of None \<Rightarrow> Inl BadHost | Some h \<Rightarrow> Inr h)
      | Some i \<Rightarrow>
          (case parseHost (drop (Suc i) a) of
             None \<Rightarrow> Inl BadHost
           | Some h \<Rightarrow>
               let u = take i a
               in if \<not> valid_userinfo u then Inl BadUserinfo
                  else let (name, pw, _) = Cut u CHR '':''
                       in if unescape_path name = None \<or> unescape_path pw = None then Inl BadEscape
                          else Inr h))"

definition parse_rest :: "string \<Rightarrow> string \<Rightarrow> url_error + (string \<times> string)" where
  "parse_rest scheme rest =
     (let rest1 = (if HasSuffix rest ''?'' \<and> count_list rest CHR ''?'' = 1 then butlast rest
                   else fst (Cut rest CHR ''?''))
      in if \<not> HasPrefix rest1 ''/'' \<and> scheme \<noteq> [] then Inr (scheme, [])
         else if \<not> HasPrefix rest1 ''/'' \<and> CHR '':'' \<in> set (fst (Cut rest1 CHR ''/''))
         then Inl ColonInFirstSegment
         else if (scheme \<noteq> [] \<or> \<not> HasPrefix rest1 ''///'') \<and> HasPrefix rest1 ''//'' then
           (let a0 = drop 2 rest1;
                (a, path) = (case index_byte a0 CHR ''/'' of
                               None \<Rightarrow> (a0, [])
                             | Some i \<Rightarrow> (take i a0, drop i a0))
            in (case parseAuthority a of
                  Inl e \<Rightarrow> Inl e
                | Inr h \<Rightarrow> if unescape_path path = None then Inl BadEscape else Inr (scheme, h)))
         else if unescape_path rest1 = None then Inl BadEscape
         else Inr (scheme, []))"

definition url_Parse :: "string \<Rightarrow> url_error + (string \<times> string)" where
  "url_Parse raw =
     (let (u, frag, _) = Cut raw CHR ''#''
      in if has_ctl u then Inl ControlByte
         else if u = ''*'' then
           (if unescape_path frag = None then Inl BadEscape else Inr ([], []))
         else (case getScheme [] u of
                 Inl e \<Rightarrow> Inl e
               | Inr (scheme, rest) \<Rightarrow>
                   (case parse_rest (map to_lower scheme) rest of
                      Inl e \<Rightarrow> Inl e
                    | Inr r \<Rightarrow> if unescape_path frag = None then Inl BadEscape else Inr r)))"

text \<open>\<open>URL.Port()\<close> of a host: the digits after the last colon outside brackets.\<close>

definition url_Port :: "string \<Rightarrow> string" where
  "url_Port host =
     (case last_index_byte host CHR '':'' of
        None \<Rightarrow> []
      | Some i \<Rightarrow> if validOptionalPort (drop i host) then drop (Suc i) host else [])"

section \<open>HTTP messages\<close>

record http_request =
  rq_Method :: string
  rq_Path :: string
  rq_RawQuery :: string
  rq_Header :: "(string, string) gomap"
  rq_Body :: string
  rq_Ctx :: go_ctx

record http_response =
  rs_Status :: nat
  rs_Header :: "(string, string) gomap"
  rs_Body :: string

text \<open>\<open>http.Error(w, msg, code)\<close>.\<close>

definition http_Error :: "string \<Rightarrow> nat \<Rightarrow> http_response" where
  "http_Error msg code =
     \<lparr>rs_Status = code,
      rs_Header = [(''Content-Type'', ''text/plain; charset=utf-8''),
                   (''X-Content-Type-Options'', ''nosniff'')],
      rs_Body = msg @ [CHR 0x0A]\<rparr>"

section \<open>Encoded parameters are found again\<close>

lemma is_hex_upper_hex: "n < 16 \<Longrightarrow> is_hex (upper_hex n) \<and> hex_val (upper_hex n) = n"
  by (auto simp: upper_hex_def is_hex_def hex_val_def is_digit_def)

lemma unreserved_not_special: "is_unreserved c \<Longrightarrow> c \<noteq> CHR ''%'' \<and> c \<noteq> CHR ''+'' \<and> c \<noteq> CHR ''&'' \<and>
    c \<noteq> CHR ''='' \<and> c \<noteq> CHR '';''"
  by (auto simp: is_unreserved_def is_alnum_def is_digit_def is_upper_def is_lower_def)

lemma nibbles: "byte c div 16 < 16" "byte c mod 16 < 16"
  by (rule less_mult_imp_div_less) (simp_all del: of_char_mod_256)

lemma QueryUnescape_QueryEscape: "QueryUnescape (QueryEscape s) = Some s"
proof (induction s)
  case (Cons c s)
  note nib = nibbles [of c]
  have "char_of (16 * (byte c div 16) + byte c mod 16) = c"
    by (simp del: of_char_mod_256)
  then show ?case
    using Cons unreserved_not_special [of c] nib
    by (auto simp: QueryUnescape_def is_hex_upper_hex)
qed (simp add: QueryUnescape_def)

lemma upper_hex_plain: "n < 16 \<Longrightarrow> upper_hex n \<noteq> CHR ''&'' \<and> upper_hex n \<noteq> CHR ''='' \<and> upper_hex n \<noteq> CHR '';''"
  by (auto simp: upper_hex_def dest!: arg_cong [where f = byte])

lemma QueryEscape_plain: "CHR ''&'' \<notin> set (QueryEscape s) \<and> CHR ''='' \<notin> set (QueryEscape s) \<and>
    CHR '';'' \<notin> set (QueryEscape s)"
proof (induction s)
  case (Cons c s)
  note nib = nibbles [of c]
  from Cons unreserved_not_special [of c] upper_hex_plain [OF nib(1)] upper_hex_plain [OF nib(2)]
  show ?case by auto
qed simp

theorem query_Get_Values_Encode: "query_Get (Values_Encode [(k, [v])]) k = v"
proof -
  let ?p = "QueryEscape k @ CHR ''='' # QueryEscape v"
  have "split_on CHR ''&'' ?p = [?p]"
    using QueryEscape_plain by (intro split_on_word) auto
  moreover have "parse_param ?p = Some (k, v)"
    using QueryEscape_plain by (auto simp: parse_param_def QueryUnescape_QueryEscape)
  ultimately show ?thesis
    by (simp add: query_Get_def ParseQuery_def Values_Encode_def List.map_filter_def)
qed

section \<open>Absolute URLs\<close>

text \<open>Hosts, schemes and queries of the usual form, and what \<open>url.Parse\<close> makes of them.\<close>

definition plain_host :: "string \<Rightarrow> bool" where
  "plain_host h \<longleftrightarrow> h \<noteq> [] \<and> list_all is_unreserved h"

lemma unescape_plain:
  assumes "list_all (\<lambda>c. is_unreserved c \<or> c = CHR '':'') s"
  shows "unescape_host s = Some s"
  using assms
  by (induction s) (auto simp: unescape_host_def host_byte_def dest: unreserved_not_special)

definition schemes :: "string list" where
  "schemes = [''tcp'', ''http'', ''https'', ''grpc'', ''grpcs'']"

lemma getScheme_known: "sch \<in> set schemes \<Longrightarrow> getScheme [] (sch @ CHR '':'' # rest) = Inr (sch, rest)"
  by (auto simp: schemes_def is_lower_def is_upper_def is_digit_def)

lemma schemes_lower: "sch \<in> set schemes \<Longrightarrow> map to_lower sch = sch \<and> sch \<noteq> [] \<and> CHR ''#'' \<notin> set sch \<and> \<not> has_ctl sch"
  by (auto simp: schemes_def to_lower_def is_upper_def has_ctl_def)

lemma parseHost_plain:
  assumes "plain_host h" and "list_all is_digit p"
  shows "parseHost (h @ CHR '':'' # p) = Some (h @ CHR '':'' # p)"
proof -
  have "list_all (\<lambda>c. is_unreserved c \<or> c = CHR '':'') (h @ CHR '':'' # p)"
    using assms by (auto simp: plain_host_def list_all_iff is_unreserved_def is_alnum_def)
  then have "unescape_host (h @ CHR '':'' # p) = Some (h @ CHR '':'' # p)"
    by (rule unescape_plain)
  moreover have "CHR '':'' \<notin> set p"
    using assms(2) by (intro digit_not_in_digits) (simp_all add: is_digit_def)
  moreover have "\<not> HasPrefix (h @ CHR '':'' # p) ''[''"
    using assms(1) by (cases h) (auto simp: plain_host_def HasPrefix_def is_unreserved_def is_alnum_def is_digit_def
        is_upper_def is_lower_def)
  ultimately show ?thesis
    using assms(2) by (simp add: parseHost_def validOptionalPort_def)
qed

lemma unreserved_bytes:
  assumes "is_unreserved c"
  shows "c \<noteq> CHR ''#'' \<and> c \<noteq> CHR ''?'' \<and> c \<noteq> CHR ''/'' \<and> c \<noteq> CHR ''@''" and "0x20 < byte c \<and> byte c < 0x7F"
proof -
  show "c \<noteq> CHR ''#'' \<and> c \<noteq> CHR ''?'' \<and> c \<noteq> CHR ''/'' \<and> c \<noteq> CHR ''@''"
    using assms by (auto simp: is_unreserved_def is_alnum_def is_digit_def is_upper_def is_lower_def)
  show "0x20 < byte c \<and> byte c < 0x7F"
    using assms unfolding is_unreserved_def is_alnum_def is_digit_def is_upper_def is_lower_def
    by (elim disjE conjE) auto
qed

lemma hostport_bytes:
  assumes "plain_host h" and "list_all is_digit p" and "c \<in> set (h @ CHR '':'' # p)"
  shows "c \<noteq> CHR ''#'' \<and> c \<noteq> CHR ''?'' \<and> c \<noteq> CHR ''/'' \<and> c \<noteq> CHR ''@'' \<and> \<not> (byte c < 0x20 \<or> byte c = 0x7F)"
proof -
  have "is_unreserved c \<or> c = CHR '':''"
    using assms by (auto simp: plain_host_def list_all_iff is_unreserved_def is_alnum_def)
  then show ?thesis
  proof
    assume "is_unreserved c"
    from unreserved_bytes [OF this] show ?thesis by simp
  qed simp
qed

text \<open>The bytes of an encoded query.\<close>

definition query_byte :: "char \<Rightarrow> bool" where
  "query_byte c \<longleftrightarrow> is_unreserved c \<or> c \<in> set ''%+=''"

lemma query_byte_plain: "query_byte c \<Longrightarrow> c \<noteq> CHR ''#'' \<and> c \<noteq> CHR ''?'' \<and> \<not> (byte c < 0x20 \<or> byte c = 0x7F)"
  using unreserved_bytes [of c] by (auto simp: query_byte_def)

lemma upper_hex_unreserved: "n < 16 \<Longrightarrow> is_unreserved (upper_hex n)"
  by (auto simp: upper_hex_def is_unreserved_def is_alnum_def is_digit_def is_upper_def)

lemma QueryEscape_bytes: "list_all query_byte (QueryEscape s)"
proof (induction s)
  case (Cons c s)
  then show ?case using upper_hex_unreserved nibbles [of c] by (auto simp: query_byte_def)
qed simp

text \<open>A path without escapes: empty, or rooted and free of special bytes.\<close>

definition plain_path :: "string \<Rightarrow> bool" where
  "plain_path s \<longleftrightarrow> (s = [] \<or> hd s = CHR ''/'') \<and> list_all (\<lambda>c. is_unreserved c \<or> c = CHR ''/'') s"

lemma plain_path_facts:
  assumes "plain_path s"
  shows "CHR ''?'' \<notin> set s" and "CHR ''#'' \<notin> set s" and "\<not> has_ctl s" and "unescape_path s = Some s"
proof -
  have bytes: "c \<noteq> CHR ''#'' \<and> c \<noteq> CHR ''?'' \<and> \<not> (byte c < 0x20 \<or> byte c = 0x7F)" if "c \<in> set s" for c
  proof -
    have "is_unreserved c \<or> c = CHR ''/''" using that assms by (auto simp: plain_path_def list_all_iff)
    then show ?thesis
    proof
      assume "is_unreserved c"
      from unreserved_bytes [OF this] show ?thesis by simp
    qed simp
  qed
  then show "CHR ''?'' \<notin> set s" "CHR ''#'' \<notin> set s" by blast+
  show "\<not> has_ctl s" using bytes unfolding has_ctl_def list_ex_iff by blast
  have "list_all (\<lambda>c. is_unreserved c \<or> c = CHR ''/'') s" using assms by (simp add: plain_path_def)
  then show "unescape_path s = Some s"
    by (induction s) (auto simp: unescape_path_def dest: unreserved_not_special)
qed

text \<open>A query part: nothing, or a question mark and a non-empty encoded query.\<close>

definition query_part :: "string \<Rightarrow> bool" where
  "query_part t \<longleftrightarrow> t = [] \<or> (\<exists>q. t = CHR ''?'' # q \<and> q \<noteq> [] \<and> list_all query_byte q)"

lemma has_ctl_append: "has_ctl (s @ t) \<longleftrightarrow> has_ctl s \<or> has_ctl t"
  by (simp add: has_ctl_def)

lemma query_part_bytes:
  assumes "query_part t"
  shows "CHR ''#'' \<notin> set t" and "\<not> has_ctl t" and "t \<noteq> [] \<Longrightarrow> last t \<noteq> CHR ''?''"
proof -
  have bytes: "c \<noteq> CHR ''#'' \<and> c \<noteq> CHR ''?'' \<and> \<not> (byte c < 0x20 \<or> byte c = 0x7F)" if "c \<in> set q" "list_all query_byte q" for c q
    using that query_byte_plain by (simp add: list_all_iff)
  show "CHR ''#'' \<notin> set t" using assms bytes [of "CHR ''#''"] by (auto simp: query_part_def)
  show "\<not> has_ctl t" using assms bytes by (auto simp: query_part_def has_ctl_def list_ex_iff)
  show "t \<noteq> [] \<Longrightarrow> last t \<noteq> CHR ''?''" using assms bytes by (metis last_ConsR last_in_set query_part_def)
qed

lemma Cut_query_part: "query_part t \<Longrightarrow> CHR ''?'' \<notin> set s \<Longrightarrow> fst (Cut (s @ t) CHR ''?'') = s"
  by (auto simp: query_part_def)

lemma HasSuffix_last: "HasSuffix s [c] \<Longrightarrow> s \<noteq> [] \<and> last s = c"
  by (auto simp: HasSuffix_def HasPrefix_iff prefix_def rev_eq_Cons_iff)

lemma parse_rest_plain:
  assumes sch: "sch \<in> set schemes" and hp: "plain_host h" "list_all is_digit p"
    and path: "plain_path path" and t: "query_part t"
  shows "parse_rest sch (''//'' @ (h @ CHR '':'' # p) @ path @ t) = Inr (sch, h @ CHR '':'' # p)"
proof -
  let ?hp = "h @ CHR '':'' # p"
  note pf = plain_path_facts [OF path] and sl = schemes_lower [OF sch]
  have no: "CHR ''?'' \<notin> set ?hp" "CHR ''/'' \<notin> set ?hp" "CHR ''@'' \<notin> set ?hp"
    using hostport_bytes [OF hp] by blast+
  have "CHR ''?'' \<notin> set (''//'' @ ?hp @ path)" using no(1) pf(1) by auto
  then have "last (''//'' @ ?hp @ path) \<noteq> CHR ''?''" by (metis append_is_Nil_conv last_in_set list.discI)
  then have "last (''//'' @ ?hp @ path @ t) \<noteq> CHR ''?''"
    using query_part_bytes(3) [OF t] by (cases "t = []") simp_all
  then have suf: "\<not> HasSuffix (''//'' @ ?hp @ path @ t) ''?''" using HasSuffix_last by blast
  have c: "fst (Cut (''//'' @ ?hp @ path @ t) CHR ''?'') = ''//'' @ ?hp @ path"
    using Cut_query_part [OF t, of "''//'' @ ?hp @ path"] no(1) pf(1) by auto
  have i: "(case index_byte (?hp @ path) CHR ''/'' of None \<Rightarrow> (?hp @ path, [])
        | Some i \<Rightarrow> (take i (?hp @ path), drop i (?hp @ path))) = (?hp, path)"
  proof (cases path)
    case (Cons c u)
    with path have u: "path = CHR ''/'' # u" by (simp add: plain_path_def)
    have "take (length ?hp) (?hp @ path) = ?hp" "drop (length ?hp) (?hp @ path) = path" by simp_all
    with index_byte_append [OF no(2), of u] show ?thesis by (simp only: u option.case)
  qed (use no(2) in \<open>simp add: index_byte_None [THEN iffD2]\<close>)
  have au: "parseAuthority ?hp = Inr ?hp"
    using no(3) parseHost_plain [OF hp] by (simp add: parseAuthority_def last_index_byte_None [THEN iffD2])
  have pre: "HasPrefix (''//'' @ v) ''/''" "HasPrefix (''//'' @ v) ''//''" for v by (simp_all add: HasPrefix_def)
  have tail: "drop 2 (''//'' @ ?hp @ path) = ?hp @ path" by simp
  show ?thesis
    unfolding parse_rest_def Let_def c using suf sl
    by (simp only: pre tail i au pf(4) if_False if_True simp_thms option.case sum.case prod.case) simp
qed

lemma url_Parse_plain:
  assumes sch: "sch \<in> set schemes" and hp: "plain_host h" "list_all is_digit p"
    and path: "plain_path path" and t: "query_part t"
  shows "url_Parse (sch @ ''://'' @ h @ '':'' @ p @ path @ t) = Inr (sch, h @ '':'' @ p)"
proof -
  let ?hp = "h @ CHR '':'' # p"
  note bytes = hostport_bytes [OF hp] and pf = plain_path_facts [OF path] and sl = schemes_lower [OF sch]
  have "\<not> has_ctl ?hp" using bytes unfolding has_ctl_def list_ex_iff by blast
  moreover have "\<not> has_ctl ''://''" by (simp add: has_ctl_def)
  ultimately have "\<not> has_ctl (sch @ ''://'' @ ?hp @ path @ t)"
    using sl pf(3) query_part_bytes(2) [OF t] unfolding has_ctl_append by blast
  moreover have "CHR ''#'' \<notin> set ?hp" using bytes by blast
  then have "Cut (sch @ ''://'' @ ?hp @ path @ t) CHR ''#'' = (sch @ ''://'' @ ?hp @ path @ t, [], False)"
    using sl pf(2) query_part_bytes(1) [OF t] by (intro Cut_none) auto
  moreover have "sch @ ''://'' @ ?hp @ path @ t \<noteq> ''*''" by (cases sch) auto
  ultimately show ?thesis
    using parse_rest_plain [OF assms] getScheme_known [OF sch, of "''//'' @ ?hp @ path @ t"] sl
    by (simp add: url_Parse_def unescape_path_def)
qed

lemma url_Parse_hostport:
  "sch \<in> set schemes \<Longrightarrow> plain_host h \<Longrightarrow> list_all is_digit p \<Longrightarrow>
     url_Parse (sch @ ''://'' @ h @ '':'' @ p) = Inr (sch, h @ '':'' @ p)"
  using url_Parse_plain [of sch h p "[]" "[]"] by (simp add: plain_path_def query_part_def)

end
