(* ===== verification/Webhook.thy ===== *)
theory Webhook
  imports Adapter_Api Go_Net Go_Json Go_Url
begin

text \<open>
  The frp plugin webhook server (\<open>pkg/adapter/frp/webhook.go\<close>): configuration, plugin
  messages and their decoding, one definition per operation handler, request dispatch and the
  connection tracking. The server's state is the record \<open>WebhookServer\<close>; an operation
  handler returns its response, the events it passed to the connection handler, and, where it
  changes the server, the new state. Log output is not modelled.

  Shown here: what each handler answers on every branch, that user-supplied metadata cannot
  overwrite the keys the server sets and that the iteration order of Go maps does not matter,
  and that every answer to a plugin request reads back as the response decided on. The connection
  tracking has a theory of its own (\<open>Webhook_Tracking\<close>).
\<close>

section \<open>Configuration\<close>

record WebhookConfig =
  wc_ListenAddr :: string
  wc_Path :: string
  wc_ReadTimeout :: duration
  wc_WriteTimeout :: duration

definition DefaultWebhookConfig :: WebhookConfig where
  "DefaultWebhookConfig =
     \<lparr>wc_ListenAddr = ''127.0.0.1:9000'', wc_Path = ''/handler'',
      wc_ReadTimeout = 10 * Second, wc_WriteTimeout = 10 * Second\<rparr>"

datatype webhook_config_error = ListenAddrRequired | PathRequired | PathNotRooted

definition WebhookConfig_Validate :: "WebhookConfig \<Rightarrow> webhook_config_error option" where
  "WebhookConfig_Validate c =
     (if wc_ListenAddr c = [] then Some ListenAddrRequired
      else if wc_Path c = [] then Some PathRequired
      else if \<not> HasPrefix (wc_Path c) ''/'' then Some PathNotRooted
      else None)"

section \<open>Plugin messages\<close>

definition OpLogin :: string where "OpLogin = ''Login''"
definition OpNewProxy :: string where "OpNewProxy = ''NewProxy''"
definition OpCloseProxy :: string where "OpCloseProxy = ''CloseProxy''"
definition OpPing :: string where "OpPing = ''Ping''"
definition OpNewWorkConn :: string where "OpNewWorkConn = ''NewWorkConn''"
definition OpNewUserConn :: string where "OpNewUserConn = ''NewUserConn''"

lemmas op_defs = OpLogin_def OpNewProxy_def OpCloseProxy_def OpPing_def OpNewWorkConn_def OpNewUserConn_def

text \<open>Raw message content is a JSON value; \<open>None\<close> is a missing content member.\<close>

record PluginRequest =
  pr_Version :: string
  pr_Op :: string
  pr_Content :: "json option"

record PluginResponse =
  pl_Reject :: bool
  pl_RejectReason :: string
  pl_Unchange :: bool
  pl_Content :: "json option"

record UserInfo =
  ui_User :: string
  ui_Metas :: "(string, string) gomap"
  ui_RunID :: string

record LoginContent =
  lc_Version :: string
  lc_Hostname :: string
  lc_OS :: string
  lc_Arch :: string
  lc_User :: string
  lc_Timestamp :: int
  lc_PrivilegeKey :: string
  lc_RunID :: string
  lc_PoolCount :: int
  lc_Metas :: "(string, string) gomap"
  lc_ClientAddress :: string

record NewProxyContent =
  np_User :: UserInfo
  np_ProxyName :: string
  np_ProxyType :: string
  np_UseEncryption :: bool
  np_UseCompression :: bool
  np_BandwidthLimit :: string
  np_BandwidthLimitMode :: string
  np_Group :: string
  np_GroupKey :: string
  np_RemotePort :: int
  np_CustomDomains :: "string list"
  np_Subdomain :: string
  np_Locations :: "string list"
  np_HTTPUser :: string
  np_HTTPPwd :: string
  np_HostHeaderRewrite :: string
  np_Headers :: "(string, string) gomap"
  np_SK :: string
  np_Multiplexer :: string
  np_Metas :: "(string, string) gomap"

record CloseProxyContent =
  cp_User :: UserInfo
  cp_ProxyName :: string

record PingContent =
  pi_User :: UserInfo
  pi_Timestamp :: int
  pi_PrivilegeKey :: string

record NewWorkConnContent =
  nw_User :: UserInfo
  nw_RunID :: string
  nw_Timestamp :: int
  nw_PrivilegeKey :: string

record NewUserConnContent =
  nu_User :: UserInfo
  nu_ProxyName :: string
  nu_ProxyType :: string
  nu_RemoteAddr :: string

text \<open>The zero values the decoders start from.\<close>

definition zero_UserInfo :: UserInfo where
  "zero_UserInfo = \<lparr>ui_User = [], ui_Metas = [], ui_RunID = []\<rparr>"

definition zero_PluginRequest :: PluginRequest where
  "zero_PluginRequest = \<lparr>pr_Version = [], pr_Op = [], pr_Content = None\<rparr>"

definition zero_LoginContent :: LoginContent where
  "zero_LoginContent =
     \<lparr>lc_Version = [], lc_Hostname = [], lc_OS = [], lc_Arch = [], lc_User = [], lc_Timestamp = 0,
      lc_PrivilegeKey = [], lc_RunID = [], lc_PoolCount = 0, lc_Metas = [], lc_ClientAddress = []\<rparr>"

definition zero_NewProxyContent :: NewProxyContent where
  "zero_NewProxyContent =
     \<lparr>np_User = zero_UserInfo, np_ProxyName = [], np_ProxyType = [], np_UseEncryption = False,
      np_UseCompression = False, np_BandwidthLimit = [], np_BandwidthLimitMode = [], np_Group = [],
      np_GroupKey = [], np_RemotePort = 0, np_CustomDomains = [], np_Subdomain = [],
      np_Locations = [], np_HTTPUser = [], np_HTTPPwd = [], np_HostHeaderRewrite = [],
      np_Headers = [], np_SK = [], np_Multiplexer = [], np_Metas = []\<rparr>"

definition zero_CloseProxyContent :: CloseProxyContent where
  "zero_CloseProxyContent = \<lparr>cp_User = zero_UserInfo, cp_ProxyName = []\<rparr>"

definition zero_PingContent :: PingContent where
  "zero_PingContent = \<lparr>pi_User = zero_UserInfo, pi_Timestamp = 0, pi_PrivilegeKey = []\<rparr>"

definition zero_NewWorkConnContent :: NewWorkConnContent where
  "zero_NewWorkConnContent =
     \<lparr>nw_User = zero_UserInfo, nw_RunID = [], nw_Timestamp = 0, nw_PrivilegeKey = []\<rparr>"

definition zero_NewUserConnContent :: NewUserConnContent where
  "zero_NewUserConnContent =
     \<lparr>nu_User = zero_UserInfo, nu_ProxyName = [], nu_ProxyType = [], nu_RemoteAddr = []\<rparr>"

lemmas zero_defs = zero_UserInfo_def zero_PluginRequest_def zero_LoginContent_def
  zero_NewProxyContent_def zero_CloseProxyContent_def zero_PingContent_def
  zero_NewWorkConnContent_def zero_NewUserConnContent_def

section \<open>Decoders, from the struct tags\<close>

abbreviation fld :: "'f decoder \<Rightarrow> ('a \<Rightarrow> 'f) \<Rightarrow> (('f \<Rightarrow> 'f) \<Rightarrow> 'a \<Rightarrow> 'a) \<Rightarrow> 'a decoder" where
  "fld d rd upd \<equiv> field d rd (\<lambda>x. upd (\<lambda>_. x))"

definition dec_UserInfo :: "UserInfo decoder" where
  "dec_UserInfo = dec_struct
     [(''user'', fld dec_string ui_User ui_User_update),
      (''metas'', fld dec_map ui_Metas ui_Metas_update),
      (''run_id'', fld dec_string ui_RunID ui_RunID_update)]"

definition dec_PluginRequest :: "PluginRequest decoder" where
  "dec_PluginRequest = dec_struct
     [(''version'', fld dec_string pr_Version pr_Version_update),
      (''op'', fld dec_string pr_Op pr_Op_update),
      (''content'', fld dec_raw pr_Content pr_Content_update)]"

definition dec_LoginContent :: "LoginContent decoder" where
  "dec_LoginContent = dec_struct
     [(''version'', fld dec_string lc_Version lc_Version_update),
      (''hostname'', fld dec_string lc_Hostname lc_Hostname_update),
      (''os'', fld dec_string lc_OS lc_OS_update),
      (''arch'', fld dec_string lc_Arch lc_Arch_update),
      (''user'', fld dec_string lc_User lc_User_update),
      (''timestamp'', fld dec_int lc_Timestamp lc_Timestamp_update),
      (''privilege_key'', fld dec_string lc_PrivilegeKey lc_PrivilegeKey_update),
      (''run_id'', fld dec_string lc_RunID lc_RunID_update),
      (''pool_count'', fld dec_int lc_PoolCount lc_PoolCount_update),
      (''metas'', fld dec_map lc_Metas lc_Metas_update),
      (''client_address'', fld dec_string lc_ClientAddress lc_ClientAddress_update)]"

definition dec_NewProxyContent :: "NewProxyContent decoder" where
  "dec_NewProxyContent = dec_struct
     [(''user'', fld dec_UserInfo np_User np_User_update),
      (''proxy_name'', fld dec_string np_ProxyName np_ProxyName_update),
      (''proxy_type'', fld dec_string np_ProxyType np_ProxyType_update),
      (''use_encryption'', fld dec_bool np_UseEncryption np_UseEncryption_update),
      (''use_compression'', fld dec_bool np_UseCompression np_UseCompression_update),
      (''bandwidth_limit'', fld dec_string np_BandwidthLimit np_BandwidthLimit_update),
      (''bandwidth_limit_mode'', fld dec_string np_BandwidthLimitMode np_BandwidthLimitMode_update),
      (''group'', fld dec_string np_Group np_Group_update),
      (''group_key'', fld dec_string np_GroupKey np_GroupKey_update),
      (''remote_port'', fld dec_int np_RemotePort np_RemotePort_update),
      (''custom_domains'', fld dec_list np_CustomDomains np_CustomDomains_update),
      (''subdomain'', fld dec_string np_Subdomain np_Subdomain_update),
      (''locations'', fld dec_list np_Locations np_Locations_update),
      (''http_user'', fld dec_string np_HTTPUser np_HTTPUser_update),
      (''http_pwd'', fld dec_string np_HTTPPwd np_HTTPPwd_update),
      (''host_header_rewrite'', fld dec_string np_HostHeaderRewrite np_HostHeaderRewrite_update),
      (''headers'', fld dec_map np_Headers np_Headers_update),
      (''sk'', fld dec_string np_SK np_SK_update),
      (''multiplexer'', fld dec_string np_Multiplexer np_Multiplexer_update),
      (''metas'', fld dec_map np_Metas np_Metas_update)]"

definition dec_CloseProxyContent :: "CloseProxyContent decoder" where
  "dec_CloseProxyContent = dec_struct
     [(''user'', fld dec_UserInfo cp_User cp_User_update),
      (''proxy_name'', fld dec_string cp_ProxyName cp_ProxyName_update)]"

definition dec_PingContent :: "PingContent decoder" where
  "dec_PingContent = dec_struct
     [(''user'', fld dec_UserInfo pi_User pi_User_update),
      (''timestamp'', fld dec_int pi_Timestamp pi_Timestamp_update),
      (''privilege_key'', fld dec_string pi_PrivilegeKey pi_PrivilegeKey_update)]"

definition dec_NewWorkConnContent :: "NewWorkConnContent decoder" where
  "dec_NewWorkConnContent = dec_struct
     [(''user'', fld dec_UserInfo nw_User nw_User_update),
      (''run_id'', fld dec_string nw_RunID nw_RunID_update),
      (''timestamp'', fld dec_int nw_Timestamp nw_Timestamp_update),
      (''privilege_key'', fld dec_string nw_PrivilegeKey nw_PrivilegeKey_update)]"

definition dec_NewUserConnContent :: "NewUserConnContent decoder" where
  "dec_NewUserConnContent = dec_struct
     [(''user'', fld dec_UserInfo nu_User nu_User_update),
      (''proxy_name'', fld dec_string nu_ProxyName nu_ProxyName_update),
      (''proxy_type'', fld dec_string nu_ProxyType nu_ProxyType_update),
      (''remote_addr'', fld dec_string nu_RemoteAddr nu_RemoteAddr_update)]"

lemmas dec_defs = dec_UserInfo_def dec_PluginRequest_def dec_LoginContent_def dec_NewProxyContent_def
  dec_CloseProxyContent_def dec_PingContent_def dec_NewWorkConnContent_def dec_NewUserConnContent_def

text \<open>\<open>PluginResponse\<close> as JSON: empty members with \<open>omitempty\<close> are left out.\<close>

definition response_json :: "PluginResponse \<Rightarrow> json" where
  "response_json r = JObj
     ([(''reject'', JBool (pl_Reject r))] @
      (if pl_RejectReason r = [] then [] else [(''reject_reason'', JStr (pl_RejectReason r))]) @
      (if pl_Unchange r then [(''unchange'', JBool True)] else []) @
      (case pl_Content r of None \<Rightarrow> [] | Some j \<Rightarrow> [(''content'', j)]))"

section \<open>Server state\<close>

record connectionState =
  cs_connectionID :: string
  cs_user :: string
  cs_proxyName :: string
  cs_proxyType :: string
  cs_startedAt :: instant

text \<open>The \<open>http.Server\<close> that \<open>Start\<close> creates, as far as the code sets it.\<close>

record HttpServer =
  hs_Pattern :: string
  hs_ReadTimeout :: duration
  hs_WriteTimeout :: duration

record WebhookServer =
  ws_config :: WebhookConfig
  ws_handler :: "ConnectionHandler option"
  ws_server :: "HttpServer option"
  ws_listener :: "string option"
  ws_started :: bool
  activeConnections :: "(string, connectionState) gomap"
  connectionCount :: "32 word"

definition NewWebhookServer :: "WebhookConfig \<Rightarrow> WebhookServer" where
  "NewWebhookServer cfg =
     (let cfg1 = (if wc_ListenAddr cfg = [] then cfg\<lparr>wc_ListenAddr := ''127.0.0.1:9000''\<rparr> else cfg);
          cfg2 = (if wc_Path cfg1 = [] then cfg1\<lparr>wc_Path := ''/handler''\<rparr> else cfg1);
          cfg3 = (if wc_ReadTimeout cfg2 = 0 then cfg2\<lparr>wc_ReadTimeout := 10 * Second\<rparr> else cfg2);
          cfg4 = (if wc_WriteTimeout cfg3 = 0 then cfg3\<lparr>wc_WriteTimeout := 10 * Second\<rparr> else cfg3)
      in \<lparr>ws_config = cfg4, ws_handler = None, ws_server = None, ws_listener = None,
          ws_started = False, activeConnections = [], connectionCount = 0\<rparr>)"

definition SetHandler :: "ConnectionHandler option \<Rightarrow> WebhookServer \<Rightarrow> WebhookServer" where
  "SetHandler h s = s\<lparr>ws_handler := h\<rparr>"

definition ActiveConnections :: "WebhookServer \<Rightarrow> int" where
  "ActiveConnections s = sint (connectionCount s)"

definition Addr :: "WebhookServer \<Rightarrow> string" where
  "Addr s = (case ws_listener s of None \<Rightarrow> [] | Some a \<Rightarrow> a)"

section \<open>Addresses, targets and metadata\<close>

definition parseAddr :: "string \<Rightarrow> string \<times> int" where
  "parseAddr addr =
     (if addr = [] then ([], 0)
      else (case SplitHostPort addr of
              Inl _ \<Rightarrow> (addr, 0)
            | Inr (host, portStr) \<Rightarrow>
                (host, case Sscanf_d portStr of None \<Rightarrow> 0 | Some n \<Rightarrow> n)))"

definition buildTarget :: "NewProxyContent \<Rightarrow> string" where
  "buildTarget p =
     (if np_ProxyType p = ''tcp'' \<or> np_ProxyType p = ''udp'' then
        (if np_RemotePort p > 0 then '':'' @ itoa (np_RemotePort p) else np_ProxyName p)
      else if np_ProxyType p = ''http'' \<or> np_ProxyType p = ''https'' then
        (case np_CustomDomains p of
           d # _ \<Rightarrow> d
         | [] \<Rightarrow> if np_Subdomain p \<noteq> [] then np_Subdomain p else np_ProxyName p)
      else if np_ProxyType p = ''stcp'' \<or> np_ProxyType p = ''xtcp'' \<or> np_ProxyType p = ''sudp'' then
        np_ProxyName p
      else np_ProxyName p)"

text \<open>
  \<open>for k, v := range metas { event.Metadata[prefix+k] = v }\<close>. The argument lists the
  entries in the order the range visits them.
\<close>

fun merge_metas :: "string \<Rightarrow> (string, string) gomap \<Rightarrow> (string, string) gomap \<Rightarrow> (string, string) gomap" where
  "merge_metas pre [] md = md"
| "merge_metas pre ((k, v) # ms) md = merge_metas pre ms (AList.update (pre @ k) v md)"

definition bool_text :: "bool \<Rightarrow> string" where
  "bool_text b = (if b then ''true'' else ''false'')"

definition conn_key :: "string \<Rightarrow> string \<Rightarrow> string" where
  "conn_key run_id proxy = run_id @ ''/'' @ proxy"

section \<open>Operation handlers\<close>

text \<open>
  What a request takes from its surroundings: the readings of the clock and the identifiers
  drawn from the \<open>uuid\<close> package (in the order of the calls).
\<close>

record request_env =
  env_now :: instant
  env_now2 :: instant
  env_uuid :: string
  env_uuid2 :: string

definition accept :: PluginResponse where
  "accept = \<lparr>pl_Reject = False, pl_RejectReason = [], pl_Unchange = True, pl_Content = None\<rparr>"

definition reject :: "string \<Rightarrow> PluginResponse" where
  "reject reason = \<lparr>pl_Reject = True, pl_RejectReason = reason, pl_Unchange = False, pl_Content = None\<rparr>"

definition login_event :: "request_env \<Rightarrow> LoginContent \<Rightarrow> ConnectionEvent" where
  "login_event env login =
     (let (sourceIP, sourcePort) = parseAddr (lc_ClientAddress login)
      in \<lparr>ce_ID = env_uuid env, ce_ConnectionID = lc_RunID login,
          ce_Timestamp = time_Unix (lc_Timestamp login), ce_Type = EventConnect,
          ce_Target = lc_Hostname login, ce_User = lc_User login,
          ce_SourceIP = sourceIP, ce_SourcePort = sourcePort, ce_DestIP = [], ce_DestPort = 0,
          ce_Protocol = ''frp'', ce_Request = None,
          ce_Metadata = merge_metas ''meta.'' (lc_Metas login)
            [(''frp.op'', OpLogin), (''frp.version'', lc_Version login), (''frp.os'', lc_OS login),
             (''frp.arch'', lc_Arch login), (''frp.hostname'', lc_Hostname login)]\<rparr>)"

definition handleLogin ::
  "request_env \<Rightarrow> json option \<Rightarrow> ConnectionHandler option \<Rightarrow> PluginResponse \<times> ConnectionEvent list" where
  "handleLogin env content handler =
     (case Unmarshal dec_LoginContent content zero_LoginContent of
        None \<Rightarrow> (reject ''invalid login content'', [])
      | Some login \<Rightarrow>
          (case handler of
             None \<Rightarrow> (accept, [])
           | Some h \<Rightarrow>
               let event = login_event env login; decision = h event
               in if \<not> d_Allowed decision then (reject (d_Reason decision), [event])
                  else (accept, [event])))"

definition new_proxy_metadata :: "NewProxyContent \<Rightarrow> (string, string) gomap" where
  "new_proxy_metadata proxy =
     (let md0 = [(''frp.op'', OpNewProxy), (''frp.proxy_name'', np_ProxyName proxy),
                 (''frp.proxy_type'', np_ProxyType proxy),
                 (''frp.use_encryption'', bool_text (np_UseEncryption proxy)),
                 (''frp.use_compression'', bool_text (np_UseCompression proxy))];
          md1 = (if np_CustomDomains proxy \<noteq> []
                 then AList.update ''frp.custom_domains'' (Join (np_CustomDomains proxy) '','') md0
                 else md0);
          md2 = (if np_Subdomain proxy \<noteq> []
                 then AList.update ''frp.subdomain'' (np_Subdomain proxy) md1 else md1)
      in merge_metas ''proxy_meta.'' (np_Metas proxy)
           (merge_metas ''user_meta.'' (ui_Metas (np_User proxy)) md2))"

definition new_proxy_event :: "request_env \<Rightarrow> NewProxyContent \<Rightarrow> ConnectionEvent" where
  "new_proxy_event env proxy =
     \<lparr>ce_ID = env_uuid env, ce_ConnectionID = ui_RunID (np_User proxy),
      ce_Timestamp = env_now env, ce_Type = EventConnect,
      ce_Target = buildTarget proxy, ce_User = ui_User (np_User proxy),
      ce_SourceIP = [], ce_SourcePort = 0, ce_DestIP = [], ce_DestPort = np_RemotePort proxy,
      ce_Protocol = np_ProxyType proxy, ce_Request = None,
      ce_Metadata = new_proxy_metadata proxy\<rparr>"

text \<open>
  The atomic accesses to the tracking state: \<open>activeConnections.Store\<close>,
  \<open>activeConnections.LoadAndDelete\<close> (with its \<open>loaded\<close> result) and
  \<open>connectionCount.Add\<close>.
\<close>

definition store_conn :: "connectionState \<Rightarrow> WebhookServer \<Rightarrow> WebhookServer" where
  "store_conn st s = s\<lparr>activeConnections := AList.update (cs_connectionID st) st (activeConnections s)\<rparr>"

definition load_and_delete :: "string \<Rightarrow> WebhookServer \<Rightarrow> bool \<times> WebhookServer" where
  "load_and_delete k s =
     (map_of (activeConnections s) k \<noteq> None,
      s\<lparr>activeConnections := AList.delete k (activeConnections s)\<rparr>)"

definition count_add :: "32 word \<Rightarrow> WebhookServer \<Rightarrow> WebhookServer" where
  "count_add d s = s\<lparr>connectionCount := connectionCount s + d\<rparr>"

definition proxy_state :: "request_env \<Rightarrow> NewProxyContent \<Rightarrow> connectionState" where
  "proxy_state env proxy =
     \<lparr>cs_connectionID = conn_key (ui_RunID (np_User proxy)) (np_ProxyName proxy),
      cs_user = ui_User (np_User proxy), cs_proxyName = np_ProxyName proxy,
      cs_proxyType = np_ProxyType proxy, cs_startedAt = env_now2 env\<rparr>"

definition track_proxy :: "connectionState \<Rightarrow> WebhookServer \<Rightarrow> WebhookServer" where
  "track_proxy st s = count_add 1 (store_conn st s)"

definition untrack_proxy :: "string \<Rightarrow> WebhookServer \<Rightarrow> WebhookServer" where
  "untrack_proxy connID s =
     (let (loaded, s') = load_and_delete connID s
      in if loaded then count_add (- 1) s' else s')"

definition handleNewProxy ::
  "request_env \<Rightarrow> json option \<Rightarrow> ConnectionHandler option \<Rightarrow> WebhookServer \<Rightarrow>
     PluginResponse \<times> ConnectionEvent list \<times> WebhookServer" where
  "handleNewProxy env content handler s =
     (case Unmarshal dec_NewProxyContent content zero_NewProxyContent of
        None \<Rightarrow> (reject ''invalid proxy content'', [], s)
      | Some proxy \<Rightarrow>
          (case handler of
             None \<Rightarrow> (accept, [], s)
           | Some h \<Rightarrow>
               let event = new_proxy_event env proxy; decision = h event
               in if \<not> d_Allowed decision then (reject (d_Reason decision), [event], s)
                  else (accept, [event], track_proxy (proxy_state env proxy) s)))"

definition close_proxy_event :: "request_env \<Rightarrow> CloseProxyContent \<Rightarrow> ConnectionEvent" where
  "close_proxy_event env cp =
     \<lparr>ce_ID = env_uuid env, ce_ConnectionID = ui_RunID (cp_User cp),
      ce_Timestamp = env_now env, ce_Type = EventDisconnect,
      ce_Target = [], ce_User = ui_User (cp_User cp),
      ce_SourceIP = [], ce_SourcePort = 0, ce_DestIP = [], ce_DestPort = 0,
      ce_Protocol = [], ce_Request = None,
      ce_Metadata = [(''frp.op'', OpCloseProxy), (''frp.proxy_name'', cp_ProxyName cp)]\<rparr>"

definition handleCloseProxy ::
  "request_env \<Rightarrow> json option \<Rightarrow> ConnectionHandler option \<Rightarrow> WebhookServer \<Rightarrow>
     PluginResponse \<times> ConnectionEvent list \<times> WebhookServer" where
  "handleCloseProxy env content handler s =
     (case Unmarshal dec_CloseProxyContent content zero_CloseProxyContent of
        None \<Rightarrow> (accept, [], s)
      | Some cp \<Rightarrow>
          let s' = untrack_proxy (conn_key (ui_RunID (cp_User cp)) (cp_ProxyName cp)) s
          in (case handler of
                None \<Rightarrow> (accept, [], s')
              | Some h \<Rightarrow> (accept, [close_proxy_event env cp], s')))"

definition handlePing :: "json option \<Rightarrow> PluginResponse" where
  "handlePing content =
     (case Unmarshal dec_PingContent content zero_PingContent of
        None \<Rightarrow> accept
      | Some _ \<Rightarrow> accept)"

definition handleNewWorkConn :: "json option \<Rightarrow> PluginResponse" where
  "handleNewWorkConn content =
     (case Unmarshal dec_NewWorkConnContent content zero_NewWorkConnContent of
        None \<Rightarrow> reject ''invalid work conn content''
      | Some _ \<Rightarrow> accept)"

text \<open>The request's identifier ends in the first 8 bytes of a second uuid (36 bytes long).\<close>

definition user_conn_event :: "request_env \<Rightarrow> NewUserConnContent \<Rightarrow> ConnectionEvent" where
  "user_conn_event env uc =
     (let (sourceIP, sourcePort) = parseAddr (nu_RemoteAddr uc)
      in \<lparr>ce_ID = env_uuid env,
          ce_ConnectionID = ui_RunID (nu_User uc) @ ''/'' @ nu_ProxyName uc @ ''/'' @ take 8 (env_uuid2 env),
          ce_Timestamp = env_now env, ce_Type = EventRequest,
          ce_Target = nu_ProxyName uc, ce_User = ui_User (nu_User uc),
          ce_SourceIP = sourceIP, ce_SourcePort = sourcePort, ce_DestIP = [], ce_DestPort = 0,
          ce_Protocol = nu_ProxyType uc, ce_Request = None,
          ce_Metadata = merge_metas ''user_meta.'' (ui_Metas (nu_User uc))
            [(''frp.op'', OpNewUserConn), (''frp.proxy_name'', nu_ProxyName uc),
             (''frp.proxy_type'', nu_ProxyType uc)]\<rparr>)"

definition handleNewUserConn ::
  "request_env \<Rightarrow> json option \<Rightarrow> ConnectionHandler option \<Rightarrow> PluginResponse \<times> ConnectionEvent list" where
  "handleNewUserConn env content handler =
     (case Unmarshal dec_NewUserConnContent content zero_NewUserConnContent of
        None \<Rightarrow> (reject ''invalid user conn content'', [])
      | Some uc \<Rightarrow>
          (case handler of
             None \<Rightarrow> (accept, [])
           | Some h \<Rightarrow>
               let event = user_conn_event env uc; decision = h event
               in if \<not> d_Allowed decision then (reject (d_Reason decision), [event])
                  else (accept, [event])))"

section \<open>Dispatch\<close>

definition processRequest ::
  "request_env \<Rightarrow> PluginRequest \<Rightarrow> WebhookServer \<Rightarrow> PluginResponse \<times> ConnectionEvent list \<times> WebhookServer" where
  "processRequest env req s =
     (let handler = ws_handler s; content = pr_Content req
      in if pr_Op req = OpLogin then
           (let (r, es) = handleLogin env content handler in (r, es, s))
         else if pr_Op req = OpNewProxy then handleNewProxy env content handler s
         else if pr_Op req = OpCloseProxy then handleCloseProxy env content handler s
         else if pr_Op req = OpPing then (handlePing content, [], s)
         else if pr_Op req = OpNewWorkConn then (handleNewWorkConn content, [], s)
         else if pr_Op req = OpNewUserConn then
           (let (r, es) = handleNewUserConn env content handler in (r, es, s))
         else (accept, [], s))"

definition sendResponse :: "PluginResponse \<Rightarrow> http_response" where
  "sendResponse r =
     \<lparr>rs_Status = 200, rs_Header = [(''Content-Type'', ''application/json'')],
      rs_Body = json_Encode (response_json r)\<rparr>"

definition handleRequest ::
  "request_env \<Rightarrow> http_request \<Rightarrow> WebhookServer \<Rightarrow> http_response \<times> ConnectionEvent list \<times> WebhookServer" where
  "handleRequest env r s =
     (if rq_Method r \<noteq> ''POST'' then (http_Error ''method not allowed'' 405, [], s)
      else
        let qop = query_Get (rq_RawQuery r) ''op''
        in (case Unmarshal dec_PluginRequest (json_first (rq_Body r)) zero_PluginRequest of
              None \<Rightarrow> (sendResponse (reject ''invalid request body''), [], s)
            | Some req \<Rightarrow>
                let req' = (if pr_Op req = [] then req\<lparr>pr_Op := qop\<rparr> else req);
                    (resp, es, s') = processRequest env req' s
                in (sendResponse resp, es, s')))"

section \<open>Lifecycle\<close>

datatype webhook_error =
    WConfig webhook_config_error
  | WAlreadyStarted
  | WListen string string
  | WShutdown string

text \<open>
  \<open>Start\<close> up to the point where it blocks on \<open>ctx.Done()\<close>. The argument
  \<open>listen\<close> stands for the operating system: an error text or the bound address.
\<close>

definition Webhook_Start_begin ::
  "(string \<Rightarrow> string + string) \<Rightarrow> WebhookServer \<Rightarrow> webhook_error option \<times> WebhookServer" where
  "Webhook_Start_begin listen s =
     (case WebhookConfig_Validate (ws_config s) of
        Some e \<Rightarrow> (Some (WConfig e), s)
      | None \<Rightarrow>
          if ws_started s then (Some WAlreadyStarted, s)
          else
            let s1 = s\<lparr>ws_started := True\<rparr>
            in (case listen (wc_ListenAddr (ws_config s1)) of
                  Inl err \<Rightarrow>
                    (Some (WListen (wc_ListenAddr (ws_config s1)) err), s1\<lparr>ws_started := False\<rparr>)
                | Inr addr \<Rightarrow>
                    (None, s1\<lparr>ws_listener := Some addr,
                      ws_server := Some \<lparr>hs_Pattern = wc_Path (ws_config s1),
                                         hs_ReadTimeout = wc_ReadTimeout (ws_config s1),
                                         hs_WriteTimeout = wc_WriteTimeout (ws_config s1)\<rparr>\<rparr>)))"

text \<open>\<open>shutdown\<close>: the argument is the result of \<open>server.Shutdown\<close> within its five seconds.\<close>

definition Webhook_shutdown ::
  "string option \<Rightarrow> WebhookServer \<Rightarrow> webhook_error option \<times> WebhookServer" where
  "Webhook_shutdown shutdown_err s =
     (case (ws_server s, shutdown_err) of
        (Some _, Some err) \<Rightarrow> (Some (WShutdown err), s)
      | _ \<Rightarrow> (None, s\<lparr>ws_started := False\<rparr>))"

definition Webhook_Stop ::
  "string option \<Rightarrow> WebhookServer \<Rightarrow> webhook_error option \<times> WebhookServer" where
  "Webhook_Stop shutdown_err s =
     (if \<not> ws_started s then (None, s) else Webhook_shutdown shutdown_err s)"

section \<open>Metadata\<close>

lemma merge_metas_ok [go_invs]: "map_ok md \<Longrightarrow> map_ok (merge_metas pre ms md)"
  by (induction pre ms md rule: merge_metas.induct) (auto intro: go_invs)

lemma merge_metas_get:
  assumes "map_ok ms"
  shows "map_of (merge_metas pre ms md) key =
    (if HasPrefix key pre \<and> map_of ms (drop (length pre) key) \<noteq> None
     then map_of ms (drop (length pre) key) else map_of md key)"
  using assms
proof (induction pre ms md rule: merge_metas.induct)
  case (2 pre k v ms md)
  then have IH: "map_of (merge_metas pre ms (AList.update (pre @ k) v md)) key =
      (if HasPrefix key pre \<and> map_of ms (drop (length pre) key) \<noteq> None
       then map_of ms (drop (length pre) key) else map_of (AList.update (pre @ k) v md) key)"
    by (simp add: map_ok_def)
  have k: "map_of ms k = None"
    using "2.prems" by (simp add: map_ok_def map_of_eq_None_iff)
  show ?case
  proof (cases "HasPrefix key pre")
    case True
    then obtain t where "key = pre @ t"
      by (auto simp: HasPrefix_iff prefix_def)
    with IH k show ?thesis by (auto simp: go_map_simps)
  next
    case False
    then have "key \<noteq> pre @ k" by auto
    with IH False show ?thesis by (simp add: go_map_simps)
  qed
qed simp

text \<open>The iteration order of the range does not matter.\<close>

lemma merge_metas_order:
  assumes "map_ok ms" and "map_ok ms'" and "map_of ms = map_of ms'"
  shows "map_of (merge_metas pre ms md) = map_of (merge_metas pre ms' md)"
  using assms by (intro ext) (auto simp: merge_metas_get)

lemma merge_metas_frame: "map_ok ms \<Longrightarrow> \<not> HasPrefix key pre \<Longrightarrow>
    map_of (merge_metas pre ms md) key = map_of md key"
  by (simp add: merge_metas_get)

lemma merge_metas_new: "map_ok ms \<Longrightarrow> map_of ms k = Some v \<Longrightarrow>
    map_of (merge_metas pre ms md) (pre @ k) = Some v"
  by (simp add: merge_metas_get)

section \<open>Decoded messages\<close>

text \<open>Decoded string maps are proper maps.\<close>

lemma dec_map_members_ok: "map_ok m \<Longrightarrow> map_ok (fst (dec_map_members ms m ok))"
  by (induction ms arbitrary: m ok) (auto simp: Let_def gm.ok_put split: prod.splits)

lemma dec_map_ok: "map_ok m \<Longrightarrow> map_ok (fst (dec_map j m))"
  by (cases j) (simp_all add: dec_map_members_ok gm.ok_empty)

lemma dec_members_inv:
  assumes keep: "\<And>k d j v. find_field fs k = Some d \<Longrightarrow> P v \<Longrightarrow> P (fst (d j v))"
  shows "P v \<Longrightarrow> P (fst (dec_members fs ms v ok))"
proof (induction ms arbitrary: v ok)
  case (Cons m ms)
  obtain k j where m: "m = (k, j)" by fastforce
  show ?case
  proof (cases "find_field fs k")
    case None
    then show ?thesis using Cons m by simp
  next
    case (Some d)
    then have "P (fst (d j v))" using keep Cons.prems by blast
    with Cons.IH Some m show ?thesis by (simp add: case_prod_unfold Let_def)
  qed
qed simp

lemma find_field_set: "find_field fs k = Some d \<Longrightarrow> d \<in> snd ` set fs"
  by (auto simp: find_field_def find_Some_iff image_iff split: option.splits dest!: map_of_SomeD)
    (force simp: in_set_conv_nth)+

lemma dec_struct_inv:
  assumes keep: "\<forall>d\<in>snd ` set fs. \<forall>j v. P v \<longrightarrow> P (fst (d j v))" and "P v"
  shows "P (fst (dec_struct fs j v))"
proof (cases j)
  case (JObj ms)
  have "P (fst (dec_members fs ms v True))"
    using dec_members_inv [of fs P v ms True] keep find_field_set [of fs] \<open>P v\<close> by blast
  with JObj show ?thesis by simp
qed (simp_all add: \<open>P v\<close>)

lemma fst_field [simp]: "fst (field d rd wr j v) = wr (fst (d j (rd v))) v"
  by (simp add: field_def case_prod_unfold Let_def)

lemma Unmarshal_Some:
  "Unmarshal d raw v = Some x \<longleftrightarrow> (\<exists>j. raw = Some j \<and> d j v = (x, True))"
  by (auto simp: Unmarshal_def Let_def split: option.splits prod.splits if_splits)

lemma Unmarshal_inv:
  assumes "Unmarshal d raw v = Some x" and "\<And>j. P (fst (d j v))"
  shows "P x"
  using assms by (metis Unmarshal_Some fst_conv)

lemma dec_UserInfo_ok: "map_ok (ui_Metas u) \<Longrightarrow> map_ok (ui_Metas (fst (dec_UserInfo j u)))"
  unfolding dec_UserInfo_def
  by (rule dec_struct_inv [where P = "\<lambda>u. map_ok (ui_Metas u)"]) (simp_all add: dec_map_ok)

lemma Login_metas_ok:
  "Unmarshal dec_LoginContent c zero_LoginContent = Some login \<Longrightarrow> map_ok (lc_Metas login)"
  by (erule Unmarshal_inv, unfold dec_LoginContent_def)
    (rule dec_struct_inv [where P = "\<lambda>l. map_ok (lc_Metas l)"];
      simp add: dec_map_ok zero_defs gm.ok_empty)

lemma NewProxy_metas_ok:
  "Unmarshal dec_NewProxyContent c zero_NewProxyContent = Some p \<Longrightarrow>
     map_ok (np_Metas p) \<and> map_ok (ui_Metas (np_User p))"
  by (erule Unmarshal_inv, unfold dec_NewProxyContent_def)
    (rule dec_struct_inv [where P = "\<lambda>p. map_ok (np_Metas p) \<and> map_ok (ui_Metas (np_User p))"];
      simp add: dec_map_ok dec_UserInfo_ok zero_defs gm.ok_empty)

lemma NewUserConn_metas_ok:
  "Unmarshal dec_NewUserConnContent c zero_NewUserConnContent = Some u \<Longrightarrow>
     map_ok (ui_Metas (nu_User u))"
  by (erule Unmarshal_inv, unfold dec_NewUserConnContent_def)
    (rule dec_struct_inv [where P = "\<lambda>u. map_ok (ui_Metas (nu_User u))"];
      simp add: dec_UserInfo_ok zero_defs gm.ok_empty)

section \<open>Metadata of the events\<close>

text \<open>
  What the server itself puts under \<open>frp.\<close> for a proxy.
\<close>

definition server_meta :: "NewProxyContent \<Rightarrow> string \<Rightarrow> string option" where
  "server_meta p k =
     (if k = ''op'' then Some OpNewProxy
      else if k = ''proxy_name'' then Some (np_ProxyName p)
      else if k = ''proxy_type'' then Some (np_ProxyType p)
      else if k = ''use_encryption'' then Some (bool_text (np_UseEncryption p))
      else if k = ''use_compression'' then Some (bool_text (np_UseCompression p))
      else if k = ''custom_domains'' \<and> np_CustomDomains p \<noteq> [] then Some (Join (np_CustomDomains p) '','')
      else if k = ''subdomain'' \<and> np_Subdomain p \<noteq> [] then Some (np_Subdomain p)
      else None)"

lemma new_proxy_metadata_get:
  assumes "map_ok (np_Metas p)" and "map_ok (ui_Metas (np_User p))"
  shows "map_of (new_proxy_metadata p) (''user_meta.'' @ k) = map_of (ui_Metas (np_User p)) k"
    and "map_of (new_proxy_metadata p) (''proxy_meta.'' @ k) = map_of (np_Metas p) k"
    and "map_of (new_proxy_metadata p) (''frp.'' @ k) = server_meta p k"
  using assms
  by (auto simp: new_proxy_metadata_def server_meta_def Let_def merge_metas_get map_of_update_eq HasPrefix_def)

text \<open>
  C25. A \<open>NewProxy\<close> event's metadata is exact: a key under \<open>frp.\<close> holds what the server
  derives from the message and nothing else, whatever metas the client sent; a key under
  \<open>user_meta.\<close> (\<open>proxy_meta.\<close>) holds the client's user (proxy) meta of that name. So a
  client cannot forge the server's keys, and user and proxy metas do not clobber each other.
\<close>

theorem new_proxy_metadata_exact:
  assumes "Unmarshal dec_NewProxyContent content zero_NewProxyContent = Some p"
    and "ce_Metadata (new_proxy_event env p) = md"
  shows "map_of md (''frp.'' @ k) = server_meta p k
    \<and> map_of md (''user_meta.'' @ k) = map_of (ui_Metas (np_User p)) k
    \<and> map_of md (''proxy_meta.'' @ k) = map_of (np_Metas p) k"
  using NewProxy_metas_ok [OF assms(1)] new_proxy_metadata_get [of p k] assms(2)
  unfolding new_proxy_event_def ConnectionEvent.simps by blast

text \<open>An environment and a message for the examples.\<close>

definition env0 :: request_env where
  "env0 = \<lparr>env_now = 0, env_now2 = 0, env_uuid = [], env_uuid2 = []\<rparr>"

definition forging_content :: json where
  "forging_content = JObj
     [(''user'', JObj [(''user'', JStr ''eve''), (''run_id'', JStr ''r1''),
        (''metas'', JObj [(''frp.op'', JStr ''Login''), (''op'', JStr ''x'')])]),
      (''proxy_name'', JStr ''web''), (''proxy_type'', JStr ''tcp''), (''remote_port'', JNum ''6000''),
      (''metas'', JObj [(''op'', JStr ''y'')])]"

definition forging_proxy :: NewProxyContent where
  "forging_proxy = zero_NewProxyContent
     \<lparr>np_User := \<lparr>ui_User = ''eve'', ui_Metas = [(''frp.op'', ''Login''), (''op'', ''x'')], ui_RunID = ''r1''\<rparr>,
      np_ProxyName := ''web'', np_ProxyType := ''tcp'', np_RemotePort := 6000, np_Metas := [(''op'', ''y'')]\<rparr>"

lemma forging_content_decodes:
  "Unmarshal dec_NewProxyContent (Some forging_content) zero_NewProxyContent = Some forging_proxy"
  by code_simp

theorem new_proxy_metadata_exact_witness:
  "map_of (ce_Metadata (new_proxy_event env0 forging_proxy)) (''frp.'' @ ''op'') = Some OpNewProxy
   \<and> map_of (ce_Metadata (new_proxy_event env0 forging_proxy)) (''user_meta.'' @ ''op'') = Some ''x''"
  using new_proxy_metadata_exact [OF forging_content_decodes refl, of env0 "''op''"]
  by (simp add: server_meta_def forging_proxy_def del: append.simps)

section \<open>What a request gets\<close>

lemmas handler_defs = handleLogin_def handleNewProxy_def handleCloseProxy_def handlePing_def
  handleNewWorkConn_def handleNewUserConn_def

definition content_errors :: "string list" where
  "content_errors = [''invalid login content'', ''invalid proxy content'', ''invalid work conn content'',
     ''invalid user conn content'']"

lemma event_types [simp]:
  "ce_Type (login_event env login) = EventConnect"
  "ce_Type (new_proxy_event env p) = EventConnect"
  "ce_Type (close_proxy_event env cp) = EventDisconnect"
  "ce_Type (user_conn_event env uc) = EventRequest"
  by (simp_all add: login_event_def new_proxy_event_def close_proxy_event_def user_conn_event_def
      split: prod.splits)

text \<open>The outcomes of an operation: what it answers, which events the handler saw, what it did to the state.\<close>

definition outcome_ok :: "ConnectionHandler option \<Rightarrow> PluginResponse \<Rightarrow> ConnectionEvent list \<Rightarrow> bool" where
  "outcome_ok handler r es \<longleftrightarrow>
     (case (handler, es) of
        (_, []) \<Rightarrow> r = accept \<or> (\<exists>t\<in>set content_errors. r = reject t)
      | (Some h, [e]) \<Rightarrow>
          r = (if ce_Type e = EventDisconnect \<or> d_Allowed (h e) then accept else reject (d_Reason (h e)))
      | _ \<Rightarrow> False)"

lemma handler_outcomes:
  "handleLogin env c handler = (r, es) \<Longrightarrow> outcome_ok handler r es"
  "handleNewProxy env c handler s = (r, es, s') \<Longrightarrow> outcome_ok handler r es"
  "handleCloseProxy env c handler s = (r, es, s') \<Longrightarrow> outcome_ok handler r es"
  "outcome_ok handler (handlePing c) []" "outcome_ok handler (handleNewWorkConn c) []"
  "handleNewUserConn env c handler = (r, es) \<Longrightarrow> outcome_ok handler r es"
  by (auto simp: handler_defs outcome_ok_def content_errors_def Let_def split: option.splits if_splits)

lemma accept_outcome: "outcome_ok handler accept []"
  by (simp add: outcome_ok_def split: option.split)

lemma processRequest_outcome:
  assumes "processRequest env req s = (r, es, s')"
  shows "outcome_ok (ws_handler s) r es"
  using assms
  by (auto simp: processRequest_def Let_def split: if_splits prod.splits
      intro: handler_outcomes accept_outcome)



definition allow_all :: ConnectionHandler where
  "allow_all e = \<lparr>d_Allowed = True, d_Reason = [], d_Policy = []\<rparr>"

definition server_with :: "ConnectionHandler \<Rightarrow> WebhookServer" where
  "server_with h = SetHandler (Some h) (NewWebhookServer DefaultWebhookConfig)"



section \<open>The HTTP surface\<close>

definition decode_request :: "http_request \<Rightarrow> PluginRequest option" where
  "decode_request r =
     map_option (\<lambda>req. if pr_Op req = [] then req\<lparr>pr_Op := query_Get (rq_RawQuery r) ''op''\<rparr> else req)
       (Unmarshal dec_PluginRequest (json_first (rq_Body r)) zero_PluginRequest)"

lemma handleRequest_decoded:
  "handleRequest env r s =
     (if rq_Method r \<noteq> ''POST'' then (http_Error ''method not allowed'' 405, [], s)
      else (case decode_request r of
              None \<Rightarrow> (sendResponse (reject ''invalid request body''), [], s)
            | Some req \<Rightarrow>
                (sendResponse (fst (processRequest env req s)), snd (processRequest env req s))))"
  by (simp add: handleRequest_def decode_request_def Let_def case_prod_unfold split: option.split)

lemma sendResponse_readable:
  assumes "pl_Content r = None" and "valid_utf8 (pl_RejectReason r)"
  shows "json_first (rs_Body (sendResponse r)) = Some (response_json r)"
proof -
  have "valid_utf8 ''reject''" "valid_utf8 ''reject_reason''" "valid_utf8 ''unchange''"
    by (rule valid_utf8_ascii, simp)+
  with assms have "wf_out 0 (response_json r)"
    by (auto simp: response_json_def max_nesting_def)
  then show ?thesis by (simp add: sendResponse_def json_first_Encode)
qed

lemma valid_utf8_Nil [simp]: "valid_utf8 []"
  by (rule valid_utf8_ascii) simp

lemma outcome_response:
  assumes "outcome_ok h r es" and "\<forall>hd e. h = Some hd \<longrightarrow> valid_utf8 (d_Reason (hd e))"
  shows "pl_Content r = None \<and> valid_utf8 (pl_RejectReason r)"
proof -
  have "\<forall>t\<in>set content_errors. valid_utf8 t"
    unfolding content_errors_def by (auto intro!: valid_utf8_ascii)
  with assms show ?thesis
    by (auto simp: outcome_ok_def accept_def reject_def split: option.splits list.splits if_splits)
qed

text \<open>
  C19. Every POST to the webhook is answered with status 200 and a JSON document that reads
  back as the plugin response the server decided on: the one \<open>processRequest\<close> computed for
  the decoded request, or the rejection of an unreadable body, which reaches no handler and
  changes nothing. This holds for reasons in valid UTF-8 (others are sanitised by the encoder).
\<close>

theorem handleRequest_answers_in_json:
  assumes "rq_Method r = ''POST''"
    and "\<forall>h e. ws_handler s = Some h \<longrightarrow> valid_utf8 (d_Reason (h e))"
    and "handleRequest env r s = (resp, es, s')"
  shows "rs_Status resp = 200
    \<and> (case decode_request r of
         None \<Rightarrow> json_first (rs_Body resp) = Some (response_json (reject ''invalid request body'')) \<and> es = [] \<and> s' = s
       | Some req \<Rightarrow> \<exists>pr. processRequest env req s = (pr, es, s') \<and> json_first (rs_Body resp) = Some (response_json pr))"
proof (cases "decode_request r")
  case None
  have "valid_utf8 ''invalid request body''"
    by (rule valid_utf8_ascii) simp
  with None assms(1,3) show ?thesis
    using sendResponse_readable [of "reject ''invalid request body''"]
    by (auto simp: handleRequest_decoded reject_def) (simp_all add: sendResponse_def)
next
  case (Some req)
  obtain pr es1 s1 where pr: "processRequest env req s = (pr, es1, s1)"
    by (cases "processRequest env req s") auto
  from outcome_response [OF processRequest_outcome [OF pr] assms(2)]
  have "json_first (rs_Body (sendResponse pr)) = Some (response_json pr)"
    by (simp add: sendResponse_readable)
  with Some pr assms(1,3) show ?thesis
    by (auto simp: handleRequest_decoded) (simp_all add: sendResponse_def)
qed

definition ping_request :: http_request where
  "ping_request = \<lparr>rq_Method = ''POST'', rq_Path = ''/handler'', rq_RawQuery = ''op=Ping'', rq_Header = [],
     rq_Body = CHR 0x7B # CHR 0x22 # ''content'' @ [CHR 0x22] @ '':'' @ [CHR 0x7B, CHR 0x7D, CHR 0x7D], rq_Ctx = Background\<rparr>"

lemma ping_request_decodes:
  "decode_request ping_request = Some \<lparr>pr_Version = [], pr_Op = OpPing, pr_Content = Some (JObj [])\<rparr>"
  by code_simp

theorem handleRequest_answers_in_json_witness:
  "json_first (rs_Body (fst (handleRequest env0 ping_request (server_with allow_all)))) = Some (response_json accept)"
proof -
  have "rq_Method ping_request = ''POST''" by (simp add: ping_request_def)
  moreover have "\<forall>h e. ws_handler (server_with allow_all) = Some h \<longrightarrow> valid_utf8 (d_Reason (h e))"
    by (simp add: server_with_def SetHandler_def NewWebhookServer_def allow_all_def Let_def)
  moreover obtain resp es s' where res: "handleRequest env0 ping_request (server_with allow_all) = (resp, es, s')"
    by (cases "handleRequest env0 ping_request (server_with allow_all)") auto
  moreover have "handlePing c = accept" for c
    by (simp add: handlePing_def split: option.split)
  ultimately show ?thesis
    using handleRequest_answers_in_json [of ping_request "server_with allow_all" env0 resp es s']
    by (auto simp: ping_request_decodes processRequest_def Let_def op_defs)
qed

section \<open>Addresses and targets\<close>

text \<open>
  C33. \<open>parseAddr\<close> recovers host and port from an address that was put together with
  \<open>net.JoinHostPort\<close> (IPv6 hosts in brackets) for every port an \<open>int\<close> can hold, and an
  address without any colon is taken as a bare host with port 0.
\<close>

theorem parseAddr_inverts_JoinHostPort:
  assumes "CHR ''['' \<notin> set h" and "CHR '']'' \<notin> set h" and "int n \<le> max_int64"
  shows "parseAddr (JoinHostPort h (itoa (int n))) = (h, int n)
    \<and> (CHR '':'' \<notin> set h \<longrightarrow> parseAddr h = (h, 0))"
proof -
  have digits: "CHR '':'' \<notin> set (nat_digits n)" "CHR ''['' \<notin> set (nat_digits n)" "CHR '']'' \<notin> set (nat_digits n)"
    by (rule digit_not_in_digits; simp add: is_digit_def)+
  have "SplitHostPort (JoinHostPort h (nat_digits n)) = Inr (h, nat_digits n)"
    using assms(1,2) digits by (rule SplitHostPort_JoinHostPort)
  moreover have "JoinHostPort h (nat_digits n) \<noteq> []"
    by (simp add: JoinHostPort_def)
  moreover have "Sscanf_d (nat_digits n) = Some (int n)"
    using Sscanf_d_digits [OF assms(3), of "[]"] by simp
  moreover have "CHR '':'' \<notin> set h \<Longrightarrow> SplitHostPort h = Inl MissingPort"
    by (simp add: SplitHostPort_def last_index_byte_None [THEN iffD2])
  ultimately show ?thesis
    by (simp add: parseAddr_def itoa_def)
qed

theorem parseAddr_inverts_JoinHostPort_witness:
  "parseAddr (JoinHostPort ''::1'' (itoa 8443)) = (''::1'', 8443)"
  using parseAddr_inverts_JoinHostPort [of "''::1''" 8443] by (simp add: max_int64_def)

end
