(* ===== verification/Webhook_Tracking.thy ===== *)
theory Webhook_Tracking
  imports Webhook "HOL-Library.Multiset"
begin

text \<open>
  The connection tracking of the webhook server (\<open>activeConnections\<close> and
  \<open>connectionCount\<close> in \<open>pkg/adapter/frp/webhook.go\<close>) against an abstract
  specification: a partial map from identifiers to tracked proxies and the number of proxies
  announced while already tracked. Requests handled one after the other refine it.
\<close>

section \<open>The effect of a request\<close>

datatype effect = NoEffect | Track connectionState | Untrack string

primrec apply_effect :: "effect \<Rightarrow> WebhookServer \<Rightarrow> WebhookServer" where
  "apply_effect NoEffect s = s"
| "apply_effect (Track st) s = track_proxy st s"
| "apply_effect (Untrack k) s = untrack_proxy k s"

definition operation_effect :: "request_env \<Rightarrow> PluginRequest \<Rightarrow> ConnectionHandler option \<Rightarrow> effect" where
  "operation_effect env req handler =
     (if pr_Op req = OpNewProxy then
        (case (Unmarshal dec_NewProxyContent (pr_Content req) zero_NewProxyContent, handler) of
           (Some p, Some h) \<Rightarrow>
             if d_Allowed (h (new_proxy_event env p)) then Track (proxy_state env p) else NoEffect
         | _ \<Rightarrow> NoEffect)
      else if pr_Op req = OpCloseProxy then
        (case Unmarshal dec_CloseProxyContent (pr_Content req) zero_CloseProxyContent of
           Some cp \<Rightarrow> Untrack (conn_key (ui_RunID (cp_User cp)) (cp_ProxyName cp))
         | None \<Rightarrow> NoEffect)
      else NoEffect)"

definition request_effect :: "ConnectionHandler option \<Rightarrow> request_env \<times> http_request \<Rightarrow> effect" where
  "request_effect handler er =
     (case er of (env, r) \<Rightarrow>
        if rq_Method r \<noteq> ''POST'' then NoEffect
        else (case decode_request r of
                None \<Rightarrow> NoEffect
              | Some req \<Rightarrow> operation_effect env req handler))"

lemma processRequest_effect:
  "snd (snd (processRequest env req s)) = apply_effect (operation_effect env req (ws_handler s)) s"
  by (auto simp: processRequest_def operation_effect_def handler_defs Let_def case_prod_unfold op_defs
      split: option.split)

lemma handleRequest_effect:
  "snd (snd (handleRequest env r s)) = apply_effect (request_effect (ws_handler s) (env, r)) s"
  by (auto simp: handleRequest_decoded request_effect_def processRequest_effect split: option.split)

lemma apply_effect_frame [simp]:
  "ws_handler (apply_effect f s) = ws_handler s" "ws_config (apply_effect f s) = ws_config s"
  "ws_started (apply_effect f s) = ws_started s" "ws_listener (apply_effect f s) = ws_listener s"
  "ws_server (apply_effect f s) = ws_server s"
  by (cases f; simp add: track_proxy_def untrack_proxy_def store_conn_def load_and_delete_def
      count_add_def)+

text \<open>Requests handled one after the other.\<close>

fun run_requests :: "(request_env \<times> http_request) list \<Rightarrow> WebhookServer \<Rightarrow> WebhookServer" where
  "run_requests [] s = s"
| "run_requests ((env, r) # rs) s = run_requests rs (snd (snd (handleRequest env r s)))"

lemma run_requests_effects:
  "run_requests rs s = fold apply_effect (map (request_effect (ws_handler s)) rs) s"
  by (induction rs s rule: run_requests.induct) (simp_all add: handleRequest_effect)

section \<open>The specification and its refinement\<close>

text \<open>The tracked proxies, and how many announcements found their identifier tracked already.\<close>

type_synonym tracking = "(string \<rightharpoonup> connectionState) \<times> nat"

fun spec_effect :: "effect \<Rightarrow> tracking \<Rightarrow> tracking" where
  "spec_effect NoEffect a = a"
| "spec_effect (Track st) (m, d) =
     (m(cs_connectionID st \<mapsto> st), if m (cs_connectionID st) = None then d else Suc d)"
| "spec_effect (Untrack k) (m, d) = (m(k := None), d)"

definition tracks :: "WebhookServer \<Rightarrow> tracking \<Rightarrow> bool" where
  "tracks s a \<longleftrightarrow>
     map_ok (activeConnections s) \<and> map_of (activeConnections s) = fst a
     \<and> (\<forall>k st. fst a k = Some st \<longrightarrow> cs_connectionID st = k)
     \<and> connectionCount s = of_nat (length (map_keys (activeConnections s)) + snd a)"

lemma tracks_fresh: "tracks (SetHandler h (NewWebhookServer cfg)) (Map.empty, 0)"
  by (simp add: tracks_def SetHandler_def NewWebhookServer_def Let_def gm.ok_empty map_keys_def)

lemma tracks_track:
  assumes "tracks s (m, d)"
  shows "tracks (track_proxy st s) (spec_effect (Track st) (m, d))"
  using assms
  by (auto simp: tracks_def track_proxy_def store_conn_def count_add_def gm.ok_put fun_eq_iff
      go_map_simps ac_simps)

lemma tracks_untrack:
  assumes "tracks s (m, d)"
  shows "tracks (untrack_proxy k s) (spec_effect (Untrack k) (m, d))"
proof -
  let ?a = "activeConnections s"
  have ok: "map_ok ?a" and m: "map_of ?a = m" using assms by (simp_all add: tracks_def)
  have pos: "0 < length (map_keys ?a)" if "m k = Some v" for v
    using that gm.keys_nonempty [of ?a k v] m by simp
  have "of_nat (length (map_keys ?a)) - 1 = (of_nat (length (map_keys ?a) - 1) :: 32 word)" if "m k = Some v" for v
    using pos [OF that] by (cases "map_keys ?a") simp_all
  then show ?thesis using assms
    by (cases "m k") (auto simp: tracks_def untrack_proxy_def load_and_delete_def count_add_def
        gm.ok_del fun_eq_iff gm.get_del gm.length_keys_del algebra_simps)
qed

lemma tracks_effect: "tracks s a \<Longrightarrow> tracks (apply_effect f s) (spec_effect f a)"
  by (cases a; cases f) (simp_all add: tracks_track tracks_untrack del: spec_effect.simps(2,3))

lemma tracks_fold: "tracks s a \<Longrightarrow> tracks (fold apply_effect fs s) (fold spec_effect fs a)"
  by (induction fs arbitrary: s a) (simp_all add: tracks_effect)

lemma tracks_card:
  assumes "tracks s (m, d)"
  shows "finite (dom m)" and "length (map_keys (activeConnections s)) = card (dom m)"
proof -
  have "dom m = set (map_keys (activeConnections s))"
    using assms gm.keys_get [of "activeConnections s"] by (auto simp: tracks_def dom_def)
  then show "finite (dom m)" and "length (map_keys (activeConnections s)) = card (dom m)"
    using assms by (simp_all add: tracks_def gm.length_keys_card)
qed

lemma spec_effect_size:
  assumes "finite (dom (fst a))"
  shows "finite (dom (fst (spec_effect f a))) \<and>
    card (dom (fst (spec_effect f a))) + snd (spec_effect f a) \<le> Suc (card (dom (fst a)) + snd a)"
  using assms
  by (cases a; cases f) (auto simp: card_insert_if domIff card_Diff_singleton_if)

lemma spec_fold_size:
  assumes "finite (dom (fst a))"
  shows "card (dom (fst (fold spec_effect fs a))) + snd (fold spec_effect fs a)
    \<le> length fs + card (dom (fst a)) + snd a"
  using assms
proof (induction fs arbitrary: a)
  case (Cons f fs)
  from spec_effect_size [OF Cons.prems, of f] Cons.IH [of "spec_effect f a"] show ?case by simp
qed simp

text \<open>A count below the sign bit is read back as it is.\<close>

lemma sint_of_nat_32: "n < 2 ^ 31 \<Longrightarrow> sint (of_nat n :: 32 word) = int n"
  by (simp add: signed_of_nat signed_take_bit_int_eq_self)

lemma tracks_ActiveConnections:
  assumes "tracks s (m, d)" and "card (dom m) + d < 2 ^ 31"
  shows "ActiveConnections s = int (card (dom m)) + int d"
  using assms tracks_card [OF assms(1)]
  by (simp add: ActiveConnections_def tracks_def sint_of_nat_32 del: of_nat_add)

text \<open>
  C1. The tracking refines its specification over every sequence of requests: from a fresh
  server, the tracked proxies are exactly the announced and allowed ones not closed since, each
  under its own identifier, and \<open>ActiveConnections\<close> (read from a 32-bit counter) is their
  number plus the number of announcements that found their identifier already tracked, as long
  as there were fewer than \<open>2^31\<close> requests.
\<close>

theorem tracking_refines_spec:
  assumes "length rs < 2 ^ 31"
    and "fold spec_effect (map (request_effect handler) rs) (Map.empty, 0) = (m, d)"
    and "run_requests rs (SetHandler handler (NewWebhookServer cfg)) = s"
  shows "map_of (activeConnections s) = m \<and> (\<forall>k st. m k = Some st \<longrightarrow> cs_connectionID st = k)
    \<and> ActiveConnections s = int (card (dom m)) + int d \<and> card (dom m) + d \<le> length rs"
proof -
  let ?s = "SetHandler handler (NewWebhookServer cfg)"
  have h: "ws_handler ?s = handler" by (simp add: SetHandler_def)
  have t: "tracks s (m, d)"
    using tracks_fold [OF tracks_fresh [of handler cfg]] assms(2,3) h
    by (metis run_requests_effects)
  have size: "card (dom m) + d \<le> length rs"
    using spec_fold_size [of "(Map.empty, 0)" "map (request_effect handler) rs"] assms(2) by simp
  with t assms(1) show ?thesis
    using tracks_ActiveConnections [OF t] by (simp add: tracks_def)
qed

text \<open>A message that announces or closes the proxy \<open>web\<close> of the client \<open>r1\<close>.\<close>

definition web_request :: "string \<Rightarrow> http_request" where
  "web_request op = \<lparr>rq_Method = ''POST'', rq_Path = ''/handler'', rq_RawQuery = ''op='' @ op, rq_Header = [],
     rq_Body = json_Encode (JObj [(''content'', JObj [(''user'', JObj [(''run_id'', JStr ''r1'')]),
       (''proxy_name'', JStr ''web'')])]), rq_Ctx = Background\<rparr>"

definition web_state :: connectionState where
  "web_state = \<lparr>cs_connectionID = ''r1/web'', cs_user = [], cs_proxyName = ''web'', cs_proxyType = [], cs_startedAt = 0\<rparr>"

lemma web_request_NewProxy: "request_effect (Some allow_all) (env0, web_request OpNewProxy) = Track web_state"
  by code_simp

lemma web_request_CloseProxy: "request_effect (Some allow_all) (env0, web_request OpCloseProxy) = Untrack ''r1/web''"
  by code_simp

lemmas web_effects = web_request_NewProxy web_request_CloseProxy

theorem tracking_refines_spec_witness:
  "ActiveConnections (run_requests [(env0, web_request OpNewProxy)] (server_with allow_all)) = 1"
  using tracking_refines_spec [of "[(env0, web_request OpNewProxy)]" "Some allow_all"
      "[''r1/web'' \<mapsto> web_state]" 0 DefaultWebhookConfig, OF _ _ refl]
  by (simp add: web_effects server_with_def web_state_def)


end
