(* ===== verification/Frp_Adapter.thy ===== *)
theory Frp_Adapter
  imports Webhook Complex_Main "HOL-Library.Log_Nat"
begin

text \<open>
  The frp adapter (\<open>pkg/adapter/frp/adapter.go\<close>): configuration, the lifecycle checks of
  \<open>Start\<close> and \<open>Stop\<close>, \<open>Status\<close>, the handling of the frpc process and its output,
  and the restart loop \<open>runLoop\<close>.

  What the loop meets in one pass (instants of its clock readings, the result of starting the
  process, how the waits end) is an \<open>iteration\<close>; \<open>runLoop\<close> runs over a list of them and
  yields \<open>Running\<close> when the list ends before the loop returns, so a loop that goes on
  forever is one that is \<open>Running\<close> for every list.
\<close>

section \<open>Configuration\<close>

record Config =
  cf_FrpcPath :: string
  cf_ConfigPath :: string
  cf_RestartDelay :: duration
  cf_MaxRestartDelay :: duration
  cf_MaxRetries :: int
  cf_Webhook :: WebhookConfig

definition DefaultConfig :: Config where
  "DefaultConfig =
     \<lparr>cf_FrpcPath = [], cf_ConfigPath = [], cf_RestartDelay = Second, cf_MaxRestartDelay = 5 * Minute,
      cf_MaxRetries = 10, cf_Webhook = DefaultWebhookConfig\<rparr>"

datatype config_error =
    FrpcPathRequired | ConfigPathRequired | NegativeRestartDelay | NegativeMaxRestartDelay | NegativeMaxRetries

definition Config_Validate :: "Config \<Rightarrow> config_error option" where
  "Config_Validate c =
     (if cf_FrpcPath c = [] then Some FrpcPathRequired
      else if cf_ConfigPath c = [] then Some ConfigPathRequired
      else if cf_RestartDelay c < 0 then Some NegativeRestartDelay
      else if cf_MaxRestartDelay c < 0 then Some NegativeMaxRestartDelay
      else if cf_MaxRetries c < 0 then Some NegativeMaxRetries
      else None)"

section \<open>The adapter\<close>

text \<open>
  \<open>ad_cmd\<close> is the process id of the command last started; \<open>ad_cancel\<close> tells whether
  the cancel function is set, \<open>ad_done\<close> whether \<open>doneChan\<close> is closed. A command runner
  is known by its name; what becomes of the commands it creates is up to the surroundings
  (\<open>it_spawn\<close> below).
\<close>

datatype CommandRunner = defaultCommandRunner | CustomRunner string

record Adapter =
  ad_config :: Config
  ad_runner :: CommandRunner
  ad_handler :: "ConnectionHandler option"
  ad_started :: bool
  ad_stopped :: bool
  ad_cmd :: "nat option"
  ad_startedAt :: instant
  ad_webhook :: "WebhookServer option"
  ad_reconnectAttempts :: "32 word"
  ad_lastError :: "string option"
  ad_lastErrorAt :: "instant option"
  ad_cancel :: bool
  ad_done :: bool

definition New_config :: "Config \<Rightarrow> Config" where
  "New_config cfg =
     (let cfg1 = (if cf_RestartDelay cfg = 0 then cfg\<lparr>cf_RestartDelay := Second\<rparr> else cfg);
          cfg2 = (if cf_MaxRestartDelay cfg1 = 0 then cfg1\<lparr>cf_MaxRestartDelay := 5 * Minute\<rparr> else cfg1)
      in if cf_MaxRetries cfg2 = 0 then cfg2\<lparr>cf_MaxRetries := 10\<rparr> else cfg2)"

definition New :: "Config \<Rightarrow> Adapter" where
  "New cfg =
     \<lparr>ad_config = New_config cfg, ad_runner = defaultCommandRunner, ad_handler = None, ad_started = False, ad_stopped = False,
      ad_cmd = None, ad_startedAt = zero_time,
      ad_webhook = Some (NewWebhookServer (cf_Webhook (New_config cfg))),
      ad_reconnectAttempts = 0, ad_lastError = None, ad_lastErrorAt = None,
      ad_cancel = False, ad_done = False\<rparr>"

definition SetCommandRunner :: "CommandRunner \<Rightarrow> Adapter \<Rightarrow> Adapter" where
  "SetCommandRunner r a = a\<lparr>ad_runner := r\<rparr>"

definition OnConnection :: "ConnectionHandler option \<Rightarrow> Adapter \<Rightarrow> Adapter" where
  "OnConnection h a = a\<lparr>ad_handler := h, ad_webhook := map_option (SetHandler h) (ad_webhook a)\<rparr>"

datatype start_error = SConfig config_error | SAdapter adapter_error

text \<open>\<open>Start\<close> up to the restart loop; \<open>now\<close> is the reading stored in \<open>startedAt\<close>.\<close>

definition Start_gate :: "instant \<Rightarrow> Adapter \<Rightarrow> start_error + Adapter" where
  "Start_gate now a =
     (case Config_Validate (ad_config a) of
        Some e \<Rightarrow> Inl (SConfig e)
      | None \<Rightarrow>
          if ad_handler a = None then Inl (SAdapter ErrHandlerNotSet)
          else if ad_started a then Inl (SAdapter ErrAlreadyStarted)
          else Inr (a\<lparr>ad_started := True, ad_cancel := True, ad_startedAt := now\<rparr>))"

text \<open>\<open>Stop\<close> up to its wait on \<open>doneChan\<close>.\<close>

definition Stop_gate :: "Adapter \<Rightarrow> start_error + Adapter" where
  "Stop_gate a =
     (if \<not> ad_started a then Inl (SAdapter ErrNotStarted)
      else if ad_stopped a then Inl (SAdapter ErrNotStarted)
      else Inr (a\<lparr>ad_stopped := True\<rparr>))"

section \<open>Status\<close>

text \<open>
  \<open>int64(d.Seconds())\<close>: \<open>Seconds\<close> adds the whole seconds and the fraction as
  \<open>float64\<close> values, so two roundings to 53 significant bits (to nearest, ties to even) come
  before the truncation.
\<close>

definition float_exp :: "rat \<Rightarrow> int" where
  "float_exp x =
     (if 1 \<le> x then int (floorlog 2 (nat \<lfloor>x\<rfloor>)) - 1
      else - int (floorlog 2 (nat (\<lceil>1 / x\<rceil> - 1))))"

definition round_half_even :: "rat \<Rightarrow> int" where
  "round_half_even y =
     (let f = \<lfloor>y\<rfloor>; r = y - of_int f
      in if r < 1 / 2 then f else if 1 / 2 < r then f + 1 else if even f then f else f + 1)"

definition float64 :: "rat \<Rightarrow> rat" where
  "float64 x =
     (let m = \<bar>x\<bar>; u = power_int 2 (float_exp m - 52)
      in if x = 0 then 0 else sgn x * (of_int (round_half_even (m / u)) * u))"

definition go_quot :: "int \<Rightarrow> int \<Rightarrow> int" where
  "go_quot a b = sgn a * sgn b * (\<bar>a\<bar> div \<bar>b\<bar>)"

definition go_rem :: "int \<Rightarrow> int \<Rightarrow> int" where
  "go_rem a b = a - b * go_quot a b"

definition Duration_Seconds :: "duration \<Rightarrow> rat" where
  "Duration_Seconds d =
     float64 (of_int (go_quot d Second) + float64 (of_int (go_rem d Second) / 1000000000))"

definition trunc_int :: "rat \<Rightarrow> int" where
  "trunc_int x = (if 0 \<le> x then \<lfloor>x\<rfloor> else \<lceil>x\<rceil>)"

text \<open>\<open>alive\<close> is the answer to probing a process with signal 0.\<close>

definition isProcessRunning :: "(nat \<Rightarrow> bool) \<Rightarrow> Adapter \<Rightarrow> bool" where
  "isProcessRunning alive a = (case ad_cmd a of None \<Rightarrow> False | Some pid \<Rightarrow> alive pid)"

definition Adapter_Status :: "instant \<Rightarrow> (nat \<Rightarrow> bool) \<Rightarrow> Adapter \<Rightarrow> Status" where
  "Adapter_Status now alive a =
     \<lparr>st_Type = ''frp'',
      st_Connected = (ad_started a \<and> \<not> ad_stopped a \<and> isProcessRunning alive a),
      st_StartedAt = ad_startedAt a,
      st_UptimeSeconds =
        (if ad_startedAt a \<noteq> zero_time then trunc_int (Duration_Seconds (time_Sub now (ad_startedAt a))) else 0),
      st_ActiveConnections = (case ad_webhook a of None \<Rightarrow> 0 | Some w \<Rightarrow> ActiveConnections w),
      st_ReconnectAttempts = sint (ad_reconnectAttempts a),
      st_BackendEndpoint = wc_ListenAddr (cf_Webhook (ad_config a)),
      st_LastError = (case ad_lastError a of None \<Rightarrow> [] | Some e \<Rightarrow> e),
      st_LastErrorAt = (case ad_lastErrorAt a of None \<Rightarrow> zero_time | Some t \<Rightarrow> t)\<rparr>"

section \<open>The process\<close>

datatype spawn = StdoutPipeErr string | StderrPipeErr string | StartErr string | Spawned nat

datatype signal = Interrupt nat | Kill nat

text \<open>The command line is \<open>FrpcPath -c ConfigPath\<close>.\<close>

definition startProcess :: "(CommandRunner \<Rightarrow> string \<Rightarrow> string list \<Rightarrow> spawn) \<Rightarrow> Adapter \<Rightarrow> string option \<times> Adapter" where
  "startProcess run a =
     (case run (ad_runner a) (cf_FrpcPath (ad_config a)) [''-c'', cf_ConfigPath (ad_config a)] of
        StdoutPipeErr e \<Rightarrow> (Some (''failed to create stdout pipe: '' @ e), a)
      | StderrPipeErr e \<Rightarrow> (Some (''failed to create stderr pipe: '' @ e), a)
      | StartErr e \<Rightarrow> (Some (''failed to start frpc: '' @ e), a)
      | Spawned pid \<Rightarrow> (None, a\<lparr>ad_cmd := Some pid\<rparr>))"

text \<open>\<open>stopProcess\<close>: \<open>interrupt_ok\<close> tells whether the interrupt could be delivered; the signals sent are returned.\<close>

definition stopProcess :: "bool \<Rightarrow> Adapter \<Rightarrow> signal list \<times> Adapter" where
  "stopProcess interrupt_ok a =
     (case ad_cmd a of
        None \<Rightarrow> ([], a)
      | Some pid \<Rightarrow>
          (if interrupt_ok then [Interrupt pid] else [Interrupt pid, Kill pid], a\<lparr>ad_cmd := None\<rparr>))"

text \<open>How the select of \<open>waitProcess\<close> ends: the result of \<open>cmd.Wait\<close>, or the context at an instant.\<close>

datatype wait_event = ProcExited "string option" | Interrupted instant

definition waitProcess ::
  "go_ctx \<Rightarrow> wait_event \<Rightarrow> bool \<Rightarrow> Adapter \<Rightarrow> string option \<times> signal list \<times> Adapter" where
  "waitProcess ctx w interrupt_ok a =
     (case ad_cmd a of
        None \<Rightarrow> (None, [], a)
      | Some _ \<Rightarrow>
          (case w of
             ProcExited err \<Rightarrow> (err, [], a)
           | Interrupted t \<Rightarrow>
               let (sigs, a') = stopProcess interrupt_ok a
               in (map_option ctx_error_text (ctx_Err ctx t), sigs, a')))"

definition setLastError :: "string \<Rightarrow> instant \<Rightarrow> Adapter \<Rightarrow> Adapter" where
  "setLastError err now a = a\<lparr>ad_lastError := Some err, ad_lastErrorAt := Some now\<rparr>"

definition add_reconnect :: "Adapter \<Rightarrow> Adapter" where
  "add_reconnect a = a\<lparr>ad_reconnectAttempts := ad_reconnectAttempts a + 1\<rparr>"

text \<open>
  \<open>logOutput\<close>, over the results of its reads (the bytes read and the error): the entries
  logged, and whether it returned.
\<close>

datatype read_error = EOF | ReadError string

datatype log_entry = FrpcOutput string string | StreamClosed string string

fun logOutput :: "string \<Rightarrow> (string \<times> read_error option) list \<Rightarrow> log_entry list \<times> bool" where
  "logOutput name [] = ([], False)"
| "logOutput name ((data, err) # reads) =
     (let out = (if data \<noteq> [] then [FrpcOutput name data] else [])
      in case err of
           Some EOF \<Rightarrow> (out, True)
         | Some (ReadError e) \<Rightarrow> (out @ [StreamClosed name e], True)
         | None \<Rightarrow> (case logOutput name reads of (later, returned) \<Rightarrow> (out @ later, returned)))"

section \<open>The restart loop\<close>

definition stableRunThreshold :: duration where
  "stableRunThreshold = 30 * Second"

text \<open>
  One pass of the loop as the surroundings see it: the instant of the check at the loop's head,
  the reading of the start time, the command runner, how the wait for the process ended, the
  instant of the readings after it, the time of \<open>setLastError\<close>, whether signals can be
  delivered, and whether the timer (rather than the context) ended the wait before the restart.
\<close>

record iteration =
  it_top :: instant
  it_start :: instant
  it_spawn :: "CommandRunner \<Rightarrow> string \<Rightarrow> string list \<Rightarrow> spawn"
  it_wait :: wait_event
  it_exited :: instant
  it_error_at :: instant
  it_interrupt_ok :: bool
  it_timer :: bool
  it_wake :: instant

text \<open>A select takes the context's case only when the context is done by then.\<close>

definition legal :: "go_ctx \<Rightarrow> iteration \<Rightarrow> bool" where
  "legal ctx it \<longleftrightarrow>
     (\<forall>t. it_wait it = Interrupted t \<longrightarrow> t \<le> it_exited it \<and> ctx_Err ctx t \<noteq> None)
     \<and> (\<not> it_timer it \<longrightarrow> ctx_Err ctx (it_wake it) \<noteq> None)"

datatype loop_error = MaxRetriesStart int string | MaxRetriesExit int

fun loop_error_text :: "loop_error \<Rightarrow> string" where
  "loop_error_text (MaxRetriesStart n e) = ''frp: max retries ('' @ itoa n @ '') exceeded: '' @ e"
| "loop_error_text (MaxRetriesExit n) = ''frp: max retries ('' @ itoa n @ '') exceeded after process exit''"

text \<open>\<open>lp_waits\<close> lists the waits that ran to their end, \<open>lp_signals\<close> the signals sent.\<close>

record loop_state =
  lp_adapter :: Adapter
  lp_delay :: duration
  lp_failures :: int
  lp_waits :: "duration list"
  lp_signals :: "signal list"

abbreviation lp_config :: "loop_state \<Rightarrow> Config" where
  "lp_config st \<equiv> ad_config (lp_adapter st)"

definition backoff :: "Config \<Rightarrow> duration \<Rightarrow> duration" where
  "backoff c delay =
     (let d = wrap64 (delay * 2) in if d > cf_MaxRestartDelay c then cf_MaxRestartDelay c else d)"

definition exhausted :: "Config \<Rightarrow> int \<Rightarrow> bool" where
  "exhausted c failures \<longleftrightarrow> cf_MaxRetries c > 0 \<and> failures \<ge> cf_MaxRetries c"

datatype pass_result = Return "loop_error option" | Continue

text \<open>The branch of a failed start, with the error \<open>err\<close> and the adapter \<open>a\<close> afterwards.\<close>

definition start_failed :: "iteration \<Rightarrow> string \<Rightarrow> Adapter \<Rightarrow> loop_state \<Rightarrow> pass_result \<times> loop_state" where
  "start_failed it err a st =
     (let st1 = st\<lparr>lp_adapter := setLastError err (it_error_at it) a,
                   lp_failures := wrap64 (lp_failures st + 1)\<rparr>;
          c = lp_config st1
      in if exhausted c (lp_failures st1) then (Return (Some (MaxRetriesStart (cf_MaxRetries c) err)), st1)
         else if \<not> it_timer it then (Return None, st1)
         else (Continue, st1\<lparr>lp_waits := lp_waits st1 @ [lp_delay st1],
                             lp_delay := backoff c (lp_delay st1),
                             lp_adapter := add_reconnect (lp_adapter st1)\<rparr>))"

text \<open>
  The branch of a process that ran and ended with the result \<open>err\<close> while the context was
  not done: the accounting of the exit, then the retry check and the wait before the restart.
\<close>

definition count_exit :: "iteration \<Rightarrow> string option \<Rightarrow> loop_state \<Rightarrow> loop_state" where
  "count_exit it err st =
     (let wasStableRun = (time_Sub (it_exited it) (it_start it) \<ge> stableRunThreshold)
      in case err of
           Some e \<Rightarrow>
             let st0 = st\<lparr>lp_adapter := setLastError e (it_error_at it) (lp_adapter st)\<rparr>
             in if \<not> wasStableRun then st0\<lparr>lp_failures := wrap64 (lp_failures st + 1)\<rparr>
                else st0\<lparr>lp_failures := 0, lp_delay := cf_RestartDelay (lp_config st)\<rparr>
         | None \<Rightarrow> st\<lparr>lp_failures := 0, lp_delay := cf_RestartDelay (lp_config st)\<rparr>)"

definition restart_wait :: "iteration \<Rightarrow> loop_state \<Rightarrow> pass_result \<times> loop_state" where
  "restart_wait it st =
     (let c = lp_config st
      in if exhausted c (lp_failures st) then (Return (Some (MaxRetriesExit (cf_MaxRetries c))), st)
         else if \<not> it_timer it then (Return None, st)
         else (Continue, st\<lparr>lp_waits := lp_waits st @ [lp_delay st],
                            lp_delay := (if lp_failures st > 0 then backoff c (lp_delay st) else lp_delay st),
                            lp_adapter := add_reconnect (lp_adapter st)\<rparr>))"

definition loop_pass :: "go_ctx \<Rightarrow> iteration \<Rightarrow> loop_state \<Rightarrow> pass_result \<times> loop_state" where
  "loop_pass ctx it st =
     (if ctx_Err ctx (it_top it) \<noteq> None then
        let (sigs, a) = stopProcess (it_interrupt_ok it) (lp_adapter st)
        in (Return None, st\<lparr>lp_adapter := a, lp_signals := lp_signals st @ sigs\<rparr>)
      else
        (case startProcess (it_spawn it) (lp_adapter st) of
           (Some err, a) \<Rightarrow> start_failed it err a st
         | (None, a) \<Rightarrow>
             let (err, sigs, a') = waitProcess ctx (it_wait it) (it_interrupt_ok it) a;
                 st1 = st\<lparr>lp_adapter := a', lp_signals := lp_signals st @ sigs\<rparr>
             in if ctx_Err ctx (it_exited it) \<noteq> None then (Return None, st1)
                else restart_wait it (count_exit it err st1)))"

datatype loop_result = Returned "loop_error option" | Running

fun loop_from :: "go_ctx \<Rightarrow> iteration list \<Rightarrow> loop_state \<Rightarrow> loop_result \<times> loop_state" where
  "loop_from ctx [] st = (Running, st)"
| "loop_from ctx (it # its) st =
     (case loop_pass ctx it st of
        (Return res, st') \<Rightarrow> (Returned res, st')
      | (Continue, st') \<Rightarrow> loop_from ctx its st')"

definition loop_init :: "Adapter \<Rightarrow> loop_state" where
  "loop_init a = \<lparr>lp_adapter = a, lp_delay = cf_RestartDelay (ad_config a), lp_failures = 0,
     lp_waits = [], lp_signals = []\<rparr>"

definition runLoop :: "go_ctx \<Rightarrow> iteration list \<Rightarrow> Adapter \<Rightarrow> loop_result \<times> loop_state" where
  "runLoop ctx its a = loop_from ctx its (loop_init a)"

section \<open>Process output\<close>

fun entry_bytes :: "log_entry \<Rightarrow> string" where
  "entry_bytes (FrpcOutput name data) = data"
| "entry_bytes (StreamClosed name e) = []"

text \<open>Whatever the process wrote is logged in order and without loss, and the goroutine ends at the first error.\<close>

lemma logOutput_lossless:
  assumes "\<forall>r\<in>set reads. snd r = None"
  shows "logOutput name (reads @ (data, Some err) # rest) = (entries, returned) \<Longrightarrow>
    returned \<and> concat (map entry_bytes entries) = concat (map fst reads) @ data"
  using assms
proof (induction reads arbitrary: entries returned)
  case Nil
  then show ?case by (cases err) (auto split: if_splits)
next
  case (Cons r reads)
  obtain d where r: "r = (d, None)" using Cons.prems(2) by (cases r) simp
  obtain later fin where later: "logOutput name (reads @ (data, Some err) # rest) = (later, fin)" by fastforce
  from Cons.IH [OF later] Cons.prems show ?case by (auto simp: r later split: if_splits)
qed

section \<open>Configuration facts\<close>

text \<open>A configuration that \<open>Validate\<close> accepts, as \<open>New\<close> completes it.\<close>

definition config_ready :: "Config \<Rightarrow> bool" where
  "config_ready c \<longleftrightarrow> cf_FrpcPath c \<noteq> [] \<and> cf_ConfigPath c \<noteq> [] \<and>
     0 < cf_RestartDelay c \<and> 0 < cf_MaxRestartDelay c \<and> 0 < cf_MaxRetries c"

lemma New_config_ready: "Config_Validate (New_config cfg) = None \<longleftrightarrow> config_ready (New_config cfg)"
  by (auto simp: Config_Validate_def New_config_def config_ready_def Let_def Second_def Minute_def
      Millisecond_def split: if_splits)

lemma New_config_Validate: "Config_Validate (New_config cfg) = Config_Validate cfg"
  by (auto simp: Config_Validate_def New_config_def Let_def Second_def Minute_def Millisecond_def)

text \<open>
  C34. \<open>New\<close> keeps the verdict of \<open>Validate\<close> and completes every valid configuration to
  one with positive delays and a positive retry limit; so the unlimited retries that
  \<open>MaxRetries = 0\<close> is documented to select cannot be configured.
\<close>

theorem New_completes_config:
  assumes "int64 (cf_MaxRetries cfg)"
  shows "Config_Validate (ad_config (New cfg)) = Config_Validate cfg
    \<and> (Config_Validate cfg = None \<longrightarrow> config_ready (ad_config (New cfg)))
    \<and> int64 (cf_MaxRetries (ad_config (New cfg)))"
  using assms New_config_ready [of cfg]
  by (auto simp: New_def New_config_Validate)
    (auto simp: New_config_def Let_def int64_def min_int64_def max_int64_def)

definition frpc_config :: Config where
  "frpc_config = DefaultConfig\<lparr>cf_FrpcPath := ''frpc'', cf_ConfigPath := ''frpc.toml'', cf_MaxRetries := 0\<rparr>"

theorem New_completes_config_witness:
  "config_ready (ad_config (New frpc_config)) \<and> cf_MaxRetries frpc_config = 0"
proof -
  have "int64 (cf_MaxRetries frpc_config)" and "Config_Validate frpc_config = None"
    by (simp_all add: frpc_config_def DefaultConfig_def int64_def min_int64_def max_int64_def
        Config_Validate_def Second_def Minute_def Millisecond_def)
  with New_completes_config [of frpc_config] show ?thesis by (simp add: frpc_config_def)
qed

section \<open>The lifecycle contract\<close>

interpretation frp: adapter_lifecycle "Start_gate now" Stop_gate "\<lambda>h. OnConnection (Some h)"
  "\<lambda>a. ad_handler a \<noteq> None" ad_started ad_stopped "\<lambda>a. Config_Validate (ad_config a) = None"
  "SAdapter ErrHandlerNotSet" "SAdapter ErrAlreadyStarted" "SAdapter ErrNotStarted"
  by unfold_locales
    (auto simp: Start_gate_def Stop_gate_def OnConnection_def split: option.splits if_splits)

text \<open>
  C32. The lifecycle of an adapter with a valid configuration: after \<open>OnConnection\<close>,
  \<open>Start\<close> enters; a second \<open>Start\<close> fails with \<open>ErrAlreadyStarted\<close>; \<open>Stop\<close> then
  enters once and fails with \<open>ErrNotStarted\<close> when repeated; and after \<open>Stop\<close> the adapter
  cannot be started again.
\<close>

theorem adapter_lifecycle_order:
  assumes "Config_Validate cfg = None"
  shows "Start_gate t (New cfg) = Inl (SAdapter ErrHandlerNotSet)
    \<and> Stop_gate (New cfg) = Inl (SAdapter ErrNotStarted)
    \<and> (\<exists>a1 a2. Start_gate t (OnConnection (Some h) (New cfg)) = Inr a1
         \<and> Start_gate u a1 = Inl (SAdapter ErrAlreadyStarted)
         \<and> Stop_gate a1 = Inr a2
         \<and> Stop_gate a2 = Inl (SAdapter ErrNotStarted)
         \<and> Start_gate u a2 = Inl (SAdapter ErrAlreadyStarted))"
proof -
  have ok: "Config_Validate (ad_config (New cfg)) = None" "\<not> ad_started (New cfg)"
      "\<not> ad_stopped (New cfg)" "ad_handler (New cfg) = None"
    using assms by (simp_all add: New_def New_config_Validate)
  obtain a1 where a1: "Start_gate t (OnConnection (Some h) (New cfg)) = Inr a1"
    using frp.register_then_start ok by blast
  obtain a2 where a2: "Stop_gate a1 = Inr a2"
    using frp.stop_after_start [OF a1] ok by (auto simp: frp.handler_frame)
  have restart: "Start_gate u a = Inl (SAdapter ErrAlreadyStarted)"
    if "ad_started a" "ad_handler a \<noteq> None" "Config_Validate (ad_config a) = None" for a
    using frp.start_twice [of a u] that by simp
  from frp.start_enters [OF a1] frp.stop_enters [OF a2] restart [of a1] restart [of a2]
  show ?thesis
    using a1 a2 frp.stop_after_stop [OF a2] frp.start_no_handler [of "New cfg" t]
      frp.stop_unstarted [of "New cfg"] ok by auto
qed

lemma frpc_config_valid: "Config_Validate frpc_config = None"
  by (simp add: frpc_config_def DefaultConfig_def Config_Validate_def Second_def Minute_def Millisecond_def)

theorem adapter_lifecycle_order_witness:
  "\<exists>a1 a2. Start_gate 1 (OnConnection (Some allow_all) (New frpc_config)) = Inr a1
     \<and> Start_gate 2 a1 = Inl (SAdapter ErrAlreadyStarted) \<and> Stop_gate a1 = Inr a2
     \<and> Stop_gate a2 = Inl (SAdapter ErrNotStarted) \<and> Start_gate 2 a2 = Inl (SAdapter ErrAlreadyStarted)"
  using adapter_lifecycle_order [OF frpc_config_valid, of 1 allow_all 2] by blast

section \<open>The loop invariant\<close>

lemma config_frames [simp]:
  "ad_config (setLastError e t a) = ad_config a" "ad_config (add_reconnect a) = ad_config a"
  "ad_runner (setLastError e t a) = ad_runner a" "ad_runner (add_reconnect a) = ad_runner a"
  by (simp_all add: setLastError_def add_reconnect_def)

lemma startProcess_frame:
  "startProcess run a = (r, a') \<Longrightarrow> ad_runner a' = ad_runner a \<and> ad_config a' = ad_config a \<and> ad_reconnectAttempts a' = ad_reconnectAttempts a"
  by (auto simp: startProcess_def split: spawn.splits)

lemma waitProcess_frame: "waitProcess ctx w b a = (r, sigs, a') \<Longrightarrow>
    ad_runner a' = ad_runner a \<and> ad_config a' = ad_config a \<and> ad_reconnectAttempts a' = ad_reconnectAttempts a"
  by (auto simp: waitProcess_def stopProcess_def split: option.splits wait_event.splits)

text \<open>The wait before the restart that follows \<open>k\<close> failures in a row.\<close>

definition schedule :: "Config \<Rightarrow> nat \<Rightarrow> duration" where
  "schedule c k = (if k = 0 then cf_RestartDelay c else min (cf_RestartDelay c * 2 ^ k) (cf_MaxRestartDelay c))"

text \<open>Doubling stays below the sign bit.\<close>

definition delays_small :: "Config \<Rightarrow> bool" where
  "delays_small c \<longleftrightarrow> cf_RestartDelay c < 2 ^ 62 \<and> cf_MaxRestartDelay c < 2 ^ 62 \<and> cf_MaxRetries c \<le> max_int64"

lemma schedule_bounds:
  assumes "config_ready c"
  shows "0 < schedule c k" and "schedule c k \<le> max (cf_RestartDelay c) (cf_MaxRestartDelay c)"
  using assms by (auto simp: schedule_def config_ready_def min_le_iff_disj le_max_iff_disj)

lemma wrap64_double: "0 \<le> d \<Longrightarrow> d < 2 ^ 62 \<Longrightarrow> wrap64 (d * 2) = d * 2"
  by (rule wrap64_id) (simp add: int64_def min_int64_def max_int64_def)

lemma backoff_schedule:
  assumes "config_ready c" and "delays_small c"
  shows "backoff c (schedule c k) = schedule c (Suc k)"
proof -
  have "schedule c k < 2 ^ 62" "0 < schedule c k"
    using schedule_bounds [OF assms(1), of k] assms(2) by (auto simp: delays_small_def)
  then have "wrap64 (schedule c k * 2) = schedule c k * 2" by (simp add: wrap64_double)
  then show ?thesis
    using assms(1) by (auto simp: backoff_def schedule_def config_ready_def min_def)
qed

definition loop_inv :: "CommandRunner \<Rightarrow> Config \<Rightarrow> loop_state \<Rightarrow> bool" where
  "loop_inv rn c st \<longleftrightarrow> ad_runner (lp_adapter st) = rn \<and> lp_config st = c \<and> 0 \<le> lp_failures st \<and> lp_failures st < cf_MaxRetries c
     \<and> lp_delay st = schedule c (nat (lp_failures st))"

lemma loop_inv_init: "config_ready (ad_config a) \<Longrightarrow> loop_inv (ad_runner a) (ad_config a) (loop_init a)"
  by (simp add: loop_inv_def loop_init_def schedule_def config_ready_def)

lemma next_failure:
  assumes "loop_inv rn c st" and "delays_small c"
  shows "wrap64 (lp_failures st + 1) = lp_failures st + 1"
  using assms by (intro wrap64_id) (auto simp: loop_inv_def delays_small_def int64_def min_int64_def)

text \<open>A pass counts as a failure if the process did not start or ended in error too soon.\<close>

definition failing :: "go_ctx \<Rightarrow> CommandRunner \<Rightarrow> Config \<Rightarrow> iteration \<Rightarrow> bool" where
  "failing ctx rn c it \<longleftrightarrow>
     ctx_Err ctx (it_top it) = None \<and>
     (case it_spawn it rn (cf_FrpcPath c) [''-c'', cf_ConfigPath c] of
        Spawned _ \<Rightarrow>
          (case it_wait it of ProcExited (Some _) \<Rightarrow> True | _ \<Rightarrow> False)
          \<and> ctx_Err ctx (it_exited it) = None
          \<and> time_Sub (it_exited it) (it_start it) < stableRunThreshold
      | _ \<Rightarrow> True)"

text \<open>What a pass does, given the number of failures in a row before it.\<close>

definition pass_spec :: "CommandRunner \<Rightarrow> Config \<Rightarrow> bool \<Rightarrow> bool \<Rightarrow> loop_state \<Rightarrow> pass_result \<Rightarrow> loop_state \<Rightarrow> bool" where
  "pass_spec rn c fails timer st r st' \<longleftrightarrow>
     (let f = (if fails then lp_failures st + 1 else 0)
      in lp_config st' = c \<and> lp_failures st' = f \<and>
         (if f = cf_MaxRetries c then (\<exists>e. r = Return (Some e)) \<and> lp_waits st' = lp_waits st
            \<and> ad_reconnectAttempts (lp_adapter st') = ad_reconnectAttempts (lp_adapter st)
          else if \<not> timer then r = Return None
          else r = Continue \<and> loop_inv rn c st'
            \<and> lp_waits st' = lp_waits st @ [schedule c (if fails then nat (lp_failures st) else 0)]
            \<and> ad_reconnectAttempts (lp_adapter st') = ad_reconnectAttempts (lp_adapter st) + 1))"

lemma start_failed_spec:
  assumes inv: "loop_inv rn c st" and ok: "config_ready c" "delays_small c"
    and "start_failed it err (lp_adapter st) st = (r, st')"
  shows "pass_spec rn c True (it_timer it) st r st'"
  using assms(4) next_failure [OF inv ok(2)] backoff_schedule [OF ok, of "nat (lp_failures st)"] inv ok(1)
  by (auto simp: pass_spec_def start_failed_def loop_inv_def exhausted_def Let_def nat_add_distrib
      config_ready_def setLastError_def add_reconnect_def split: if_splits)

lemma count_exit_failure:
  assumes "loop_inv rn c st" "delays_small c" and "time_Sub (it_exited it) (it_start it) < stableRunThreshold"
  shows "count_exit it (Some e) st =
    st\<lparr>lp_adapter := setLastError e (it_error_at it) (lp_adapter st), lp_failures := lp_failures st + 1\<rparr>"
  using assms by (simp add: count_exit_def next_failure)

lemma count_exit_reset:
  assumes "err = None \<or> \<not> time_Sub (it_exited it) (it_start it) < stableRunThreshold"
    and "count_exit it err st = st1"
  shows "ad_runner (lp_adapter st1) = ad_runner (lp_adapter st) \<and> lp_config st1 = lp_config st \<and> lp_failures st1 = 0 \<and> lp_delay st1 = cf_RestartDelay (lp_config st)
    \<and> lp_waits st1 = lp_waits st \<and> ad_reconnectAttempts (lp_adapter st1) = ad_reconnectAttempts (lp_adapter st)"
  using assms by (auto simp: count_exit_def Let_def setLastError_def split: option.splits)

lemma restart_after_failure:
  assumes inv: "loop_inv rn c st" and ok: "config_ready c" "delays_small c"
    and "restart_wait it (st\<lparr>lp_adapter := setLastError e t (lp_adapter st), lp_failures := lp_failures st + 1\<rparr>) = (r, st')"
  shows "pass_spec rn c True (it_timer it) st r st'"
  using assms(4) backoff_schedule [OF ok, of "nat (lp_failures st)"] inv ok(1)
  by (auto simp: pass_spec_def restart_wait_def loop_inv_def exhausted_def Let_def nat_add_distrib
      config_ready_def setLastError_def add_reconnect_def split: if_splits)

lemma restart_after_reset:
  assumes "ad_runner (lp_adapter st1) = rn" "lp_config st1 = c" "lp_failures st1 = 0" "lp_delay st1 = cf_RestartDelay c" "lp_waits st1 = lp_waits st"
    and "ad_reconnectAttempts (lp_adapter st1) = ad_reconnectAttempts (lp_adapter st)"
    and "config_ready c" and "restart_wait it st1 = (r, st')"
  shows "pass_spec rn c False (it_timer it) st r st'"
  using assms
  by (auto simp: pass_spec_def restart_wait_def loop_inv_def exhausted_def Let_def
      config_ready_def add_reconnect_def schedule_def split: if_splits)

lemma process_ended_spec:
  assumes inv: "loop_inv rn c st" and ok: "config_ready c" "delays_small c"
    and res: "restart_wait it (count_exit it err st) = (r, st')"
  shows "pass_spec rn c (err \<noteq> None \<and> time_Sub (it_exited it) (it_start it) < stableRunThreshold) (it_timer it) st r st'"
proof (cases "err \<noteq> None \<and> time_Sub (it_exited it) (it_start it) < stableRunThreshold")
  case True
  with res count_exit_failure [OF inv ok(2)] restart_after_failure [OF inv ok] show ?thesis by auto
next
  case False
  then have "err = None \<or> \<not> time_Sub (it_exited it) (it_start it) < stableRunThreshold" by blast
  from count_exit_reset [OF this refl, of st] inv have
    "pass_spec rn c False (it_timer it) st r st'"
    by (intro restart_after_reset [OF _ _ _ _ _ _ ok(1) res]) (simp_all add: loop_inv_def)
  with False show ?thesis by auto
qed

lemma pass_spec_cong:
  assumes "lp_failures st = lp_failures st1" "lp_waits st = lp_waits st1"
    and "ad_reconnectAttempts (lp_adapter st) = ad_reconnectAttempts (lp_adapter st1)"
  shows "pass_spec rn c b t st r st' = pass_spec rn c b t st1 r st'"
  using assms by (simp add: pass_spec_def)

lemma startProcess_Some: "startProcess run a = (Some e, a') \<Longrightarrow> a' = a"
  by (auto simp: startProcess_def split: spawn.splits)

text \<open>A pass in which the context stays open behaves as specified; otherwise the loop returns nil.\<close>

lemma loop_pass_spec:
  assumes inv: "loop_inv rn c st" and ok: "config_ready c" "delays_small c" and leg: "legal ctx it"
    and res: "loop_pass ctx it st = (r, st')"
  shows "(r = Return None \<and> \<not> failing ctx rn c it \<and> (ctx_Err ctx (it_top it) \<noteq> None \<or> ctx_Err ctx (it_exited it) \<noteq> None))
    \<or> pass_spec rn c (failing ctx rn c it) (it_timer it) st r st'"
proof (cases "ctx_Err ctx (it_top it) = None")
  case False
  with res show ?thesis by (auto simp: loop_pass_def failing_def split: prod.splits)
next
  case top: True
  have c: "ad_config (lp_adapter st) = c" "ad_runner (lp_adapter st) = rn" using inv by (simp_all add: loop_inv_def)
  obtain e a where sp: "startProcess (it_spawn it) (lp_adapter st) = (e, a)" by fastforce
  show ?thesis
  proof (cases e)
    case (Some err)
    with sp top c have "failing ctx rn c it"
      by (auto simp: failing_def startProcess_def split: spawn.splits)
    moreover have "start_failed it err (lp_adapter st) st = (r, st')"
      using res sp top Some startProcess_Some [of "it_spawn it" "lp_adapter st" err a] by (simp add: loop_pass_def)
    ultimately show ?thesis using start_failed_spec [OF inv ok] by simp
  next
    case None
    obtain pid where pid: "it_spawn it rn (cf_FrpcPath c) [''-c'', cf_ConfigPath c] = Spawned pid" "ad_cmd a = Some pid"
      using sp None c by (auto simp: startProcess_def split: spawn.splits)
    obtain err sigs a' where w: "waitProcess ctx (it_wait it) (it_interrupt_ok it) a = (err, sigs, a')"
      by (cases "waitProcess ctx (it_wait it) (it_interrupt_ok it) a") auto
    define st1 where "st1 = st\<lparr>lp_adapter := a', lp_signals := lp_signals st @ sigs\<rparr>"
    show ?thesis
    proof (cases "ctx_Err ctx (it_exited it) = None")
      case False
      with res sp None top w pid show ?thesis by (auto simp: loop_pass_def failing_def)
    next
      case open_ctx: True
      have "it_wait it = ProcExited err"
      proof (cases "it_wait it")
        case (Interrupted t)
        then have "t \<le> it_exited it" "ctx_Err ctx t \<noteq> None" using leg by (simp_all add: legal_def)
        then show ?thesis using open_ctx ctx_Err_mono [of ctx t _ "it_exited it"] by auto
      qed (use w pid(2) in \<open>simp add: waitProcess_def\<close>)
      then have f: "failing ctx rn c it = (err \<noteq> None \<and> time_Sub (it_exited it) (it_start it) < stableRunThreshold)"
        using top open_ctx pid by (auto simp: failing_def split: option.splits)
      have "loop_inv rn c st1"
        using inv startProcess_frame [OF sp] waitProcess_frame [OF w] by (simp add: loop_inv_def st1_def)
      moreover have "restart_wait it (count_exit it err st1) = (r, st')"
        using res sp None top w open_ctx by (simp add: loop_pass_def st1_def)
      ultimately have "pass_spec rn c (failing ctx rn c it) (it_timer it) st1 r st'"
        using process_ended_spec [OF _ ok] f by simp
      then have "pass_spec rn c (failing ctx rn c it) (it_timer it) st r st'"
        using pass_spec_cong [of st st1] startProcess_frame [OF sp] waitProcess_frame [OF w] by (simp add: st1_def)
      then show ?thesis by blast
    qed
  qed
qed

section \<open>Runs of the loop\<close>

lemma failing_pass:
  assumes "loop_inv rn c st" "config_ready c" "delays_small c" "legal ctx it" "failing ctx rn c it" "it_timer it"
    and "loop_pass ctx it st = (r, st')"
  shows "if lp_failures st + 1 = cf_MaxRetries c
     then (\<exists>e. r = Return (Some e)) \<and> lp_waits st' = lp_waits st
       \<and> ad_reconnectAttempts (lp_adapter st') = ad_reconnectAttempts (lp_adapter st)
     else r = Continue \<and> loop_inv rn c st' \<and> lp_failures st' = lp_failures st + 1
       \<and> lp_waits st' = lp_waits st @ [schedule c (nat (lp_failures st))]
       \<and> ad_reconnectAttempts (lp_adapter st') = ad_reconnectAttempts (lp_adapter st) + 1"
  using loop_pass_spec [OF assms(1-4,7)] assms(5,6) by (simp add: pass_spec_def Let_def split: if_splits)

lemma loop_from_failing:
  assumes ok: "config_ready c" "delays_small c"
    and "loop_inv rn c st" and "\<forall>it\<in>set its. legal ctx it \<and> failing ctx rn c it \<and> it_timer it"
    and "length its = nat (cf_MaxRetries c - lp_failures st)"
  shows "\<exists>e st'. loop_from ctx its st = (Returned (Some e), st')
    \<and> lp_waits st' = lp_waits st @ map (schedule c) [nat (lp_failures st) ..< nat (cf_MaxRetries c) - 1]
    \<and> ad_reconnectAttempts (lp_adapter st') = ad_reconnectAttempts (lp_adapter st) + of_nat (length its - 1)"
  using assms(3-5)
proof (induction its arbitrary: st)
  case Nil
  then show ?case by (simp add: loop_inv_def)
next
  case (Cons it its)
  have f: "0 \<le> lp_failures st" "lp_failures st < cf_MaxRetries c"
    using Cons.prems(1) by (simp_all add: loop_inv_def)
  obtain r st1 where res: "loop_pass ctx it st = (r, st1)" by fastforce
  note pass = failing_pass [OF Cons.prems(1) ok _ _ _ res]
  show ?case
  proof (cases "lp_failures st + 1 = cf_MaxRetries c")
    case True
    then have "cf_MaxRetries c - lp_failures st = 1" by simp
    then have "nat (cf_MaxRetries c) - 1 = nat (lp_failures st)" "its = []"
      using f Cons.prems(3) by auto
    then show ?thesis using pass Cons.prems(2) res True by auto
  next
    case False
    then have st1: "r = Continue" "loop_inv rn c st1" "lp_failures st1 = lp_failures st + 1"
        "lp_waits st1 = lp_waits st @ [schedule c (nat (lp_failures st))]"
        "ad_reconnectAttempts (lp_adapter st1) = ad_reconnectAttempts (lp_adapter st) + 1"
      using pass Cons.prems(2) by auto
    have "length its = nat (cf_MaxRetries c - lp_failures st1)"
      using Cons.prems(3) st1(3) f by simp
    then obtain e st' where IH: "loop_from ctx its st1 = (Returned (Some e), st')"
        "lp_waits st' = lp_waits st1 @ map (schedule c) [nat (lp_failures st1) ..< nat (cf_MaxRetries c) - 1]"
        "ad_reconnectAttempts (lp_adapter st') = ad_reconnectAttempts (lp_adapter st1) + of_nat (length its - 1)"
      using Cons.IH [OF st1(2)] Cons.prems(2) by auto
    moreover have "[nat (lp_failures st) ..< nat (cf_MaxRetries c) - 1] =
        nat (lp_failures st) # [nat (lp_failures st1) ..< nat (cf_MaxRetries c) - 1]"
      using False f st1(3) by (subst upt_conv_Cons) (auto simp: nat_add_distrib)
    moreover have "1 + of_nat (length its - 1) = (of_nat (length its) :: 32 word)"
      using Cons.prems(3) False f by (cases its) auto
    ultimately show ?thesis using res st1 by (auto simp: add.assoc)
  qed
qed

text \<open>
  C3. With a completed configuration whose delays stay below \<open>2^62\<close> nanoseconds, the restart
  loop gives up on exactly the \<open>MaxRetries\<close>-th failure in a row, with an error; before it, it
  waited \<open>RestartDelay\<close> and then \<open>min(RestartDelay * 2^k, MaxRestartDelay)\<close> after the
  \<open>k\<close>-th wait, and counted \<open>MaxRetries - 1\<close> reconnects.
\<close>

theorem runLoop_gives_up_at_limit:
  assumes "config_ready (ad_config a)" and "delays_small (ad_config a)"
    and "length its = nat (cf_MaxRetries (ad_config a))"
    and "\<forall>it\<in>set its. legal ctx it \<and> failing ctx (ad_runner a) (ad_config a) it \<and> it_timer it"
  shows "\<exists>e st. runLoop ctx its a = (Returned (Some e), st)
    \<and> lp_waits st = map (schedule (ad_config a)) [0 ..< nat (cf_MaxRetries (ad_config a)) - 1]
    \<and> ad_reconnectAttempts (lp_adapter st) = ad_reconnectAttempts a + of_nat (nat (cf_MaxRetries (ad_config a)) - 1)"
  using loop_from_failing [OF assms(1,2) loop_inv_init [OF assms(1)] assms(4)] assms(3)
  by (simp add: runLoop_def loop_init_def)

definition crash :: iteration where
  "crash = \<lparr>it_top = 0, it_start = 0, it_spawn = (\<lambda>runner path args. Spawned 7), it_wait = ProcExited (Some ''exit status 1''),
     it_exited = 5 * Second, it_error_at = 0, it_interrupt_ok = True, it_timer = True, it_wake = 0\<rparr>"

lemma crash_fails: "legal ctx crash" "failing Background rn c crash" "it_timer crash"
  by (simp_all add: crash_def legal_def failing_def time_Sub_def min_int64_def max_int64_def
      stableRunThreshold_def Second_def Millisecond_def)

definition three_tries :: Adapter where
  "three_tries = New (frpc_config\<lparr>cf_MaxRetries := 3, cf_MaxRestartDelay := 3 * Second\<rparr>)"

lemma three_tries_config:
  "config_ready (ad_config three_tries)" "delays_small (ad_config three_tries)"
  "cf_MaxRetries (ad_config three_tries) = 3" "ad_reconnectAttempts three_tries = 0"
  "cf_RestartDelay (ad_config three_tries) = Second" "cf_MaxRestartDelay (ad_config three_tries) = 3 * Second"
  by (simp_all add: three_tries_def New_def New_config_def frpc_config_def DefaultConfig_def Let_def
      config_ready_def delays_small_def max_int64_def Second_def Millisecond_def)

theorem runLoop_gives_up_at_limit_witness:
  "\<exists>e st. runLoop Background [crash, crash, crash] three_tries = (Returned (Some e), st)
     \<and> lp_waits st = [Second, 2 * Second] \<and> ad_reconnectAttempts (lp_adapter st) = 2"
  using runLoop_gives_up_at_limit [of three_tries "[crash, crash, crash]" Background]
  by (simp add: three_tries_config crash_fails numeral_2_eq_2 schedule_def upt_rec Second_def Millisecond_def)

lemma pass_continues:
  assumes "loop_inv rn c st" "config_ready c" "delays_small c" "legal ctx it"
    and "loop_pass ctx it st = (Continue, st')"
  shows "loop_inv rn c st' \<and> lp_failures st' = (if failing ctx rn c it then lp_failures st + 1 else 0)
    \<and> lp_waits st' = lp_waits st @ [schedule c (if failing ctx rn c it then nat (lp_failures st) else 0)]
    \<and> ad_reconnectAttempts (lp_adapter st') = ad_reconnectAttempts (lp_adapter st) + 1"
  using loop_pass_spec [OF assms] by (auto simp: pass_spec_def Let_def split: if_splits)

lemma loop_from_gave_up:
  assumes ok: "config_ready c" "delays_small c"
    and "loop_inv rn c st" and "\<forall>it\<in>set its. legal ctx it"
    and "length fs = nat (lp_failures st)" and "\<forall>it\<in>set fs. failing ctx rn c it"
    and "loop_from ctx its st = (Returned (Some e), st')"
  shows "\<exists>pre gs rest. pre @ gs @ rest = fs @ its \<and> length gs = nat (cf_MaxRetries c) \<and> (\<forall>it\<in>set gs. failing ctx rn c it)"
  using assms(3-7)
proof (induction its arbitrary: st fs)
  case (Cons it its)
  have f: "0 \<le> lp_failures st" using Cons.prems(1) by (simp add: loop_inv_def)
  obtain r st1 where res: "loop_pass ctx it st = (r, st1)" by fastforce
  have leg: "legal ctx it" using Cons.prems(2) by simp
  show ?case
  proof (cases r)
    case (Return x)
    then have "r = Return (Some e)" using Cons.prems(5) res by simp
    then have "failing ctx rn c it \<and> lp_failures st + 1 = cf_MaxRetries c"
      using loop_pass_spec [OF Cons.prems(1) ok leg res] ok(1)
      by (auto simp: pass_spec_def Let_def config_ready_def split: if_splits)
    then show ?thesis
      using Cons.prems(3,4) f
      by (intro exI [of _ "[]"] exI [of _ "fs @ [it]"] exI [of _ its]) (auto simp: nat_add_distrib)
  next
    case Continue
    note st1 = pass_continues [OF Cons.prems(1) ok leg res [unfolded Continue]]
    have run: "loop_from ctx its st1 = (Returned (Some e), st')"
      using Cons.prems(5) res Continue by simp
    show ?thesis
    proof (cases "failing ctx rn c it")
      case True
      then show ?thesis
        using Cons.IH [of st1 "fs @ [it]"] st1 run Cons.prems(2-4) f by (auto simp: nat_add_distrib)
    next
      case False
      then obtain pre gs rest where "pre @ gs @ rest = its" "length gs = nat (cf_MaxRetries c)"
          "\<forall>it\<in>set gs. failing ctx rn c it"
        using Cons.IH [of st1 "[]"] st1 run Cons.prems(2) by auto
      then have "(fs @ it # pre) @ gs @ rest = fs @ it # its" by simp
      with \<open>length gs = _\<close> \<open>\<forall>it\<in>set gs. failing ctx rn c it\<close> show ?thesis by blast
    qed
  qed
qed simp

text \<open>
  C11. The loop gives up only when it must: an error return means that \<open>MaxRetries\<close> passes in
  a row failed, each by a process that did not start or that ended in error after less than the
  stable-run threshold of 30 seconds.
\<close>

theorem runLoop_gives_up_only_at_limit:
  assumes "config_ready (ad_config a)" and "delays_small (ad_config a)"
    and "\<forall>it\<in>set its. legal ctx it"
    and "runLoop ctx its a = (Returned (Some e), st)"
  shows "\<exists>pre gs rest. its = pre @ gs @ rest \<and> length gs = nat (cf_MaxRetries (ad_config a))
    \<and> (\<forall>it\<in>set gs. failing ctx (ad_runner a) (ad_config a) it)"
  using loop_from_gave_up [OF assms(1,2) loop_inv_init [OF assms(1)] assms(3), of "[]"] assms(4)
  by (fastforce simp: runLoop_def loop_init_def)

lemma three_crashes:
  "\<exists>e st. runLoop Background [crash, crash, crash] three_tries = (Returned (Some e), st)"
  using loop_from_failing [OF three_tries_config(1,2) loop_inv_init [OF three_tries_config(1)],
      of "[crash, crash, crash]" Background]
  by (auto simp: runLoop_def loop_init_def three_tries_config crash_fails)

theorem runLoop_gives_up_only_at_limit_witness:
  "\<exists>pre gs rest. [crash, crash, crash] = pre @ gs @ rest \<and> length gs = 3
     \<and> (\<forall>it\<in>set gs. failing Background (ad_runner three_tries) (ad_config three_tries) it)"
proof -
  obtain e st where "runLoop Background [crash, crash, crash] three_tries = (Returned (Some e), st)"
    using three_crashes by blast
  from runLoop_gives_up_only_at_limit [OF three_tries_config(1,2) _ this] show ?thesis
    by (simp add: crash_fails three_tries_config)
qed

lemma loop_from_nil:
  assumes "config_ready c" "delays_small c" and "loop_inv rn c st" and "\<forall>it\<in>set its. legal ctx it"
    and "loop_from ctx its st = (Returned None, st')"
  shows "\<exists>it\<in>set its. \<exists>t\<in>{it_top it, it_exited it, it_wake it}. ctx_Err ctx t \<noteq> None"
  using assms(3-5)
proof (induction its arbitrary: st)
  case (Cons it its)
  obtain r st1 where res: "loop_pass ctx it st = (r, st1)" by fastforce
  have leg: "legal ctx it" using Cons.prems(2) by simp
  show ?case
  proof (cases r)
    case (Return x)
    then have "r = Return None" using Cons.prems(3) res by simp
    with loop_pass_spec [OF Cons.prems(1) assms(1,2) leg res] leg show ?thesis
      by (auto simp: pass_spec_def Let_def legal_def split: if_splits)
  next
    case Continue
    with pass_continues [OF Cons.prems(1) assms(1,2) leg] res Cons show ?thesis by auto
  qed
qed simp

text \<open>
  The loop returns without an error only after its context is done; while the context
  stays open it runs on or gives up.
\<close>

theorem runLoop_nil_only_if_cancelled:
  assumes "config_ready (ad_config a)" and "delays_small (ad_config a)"
    and "\<forall>it\<in>set its. legal ctx it"
    and "runLoop ctx its a = (Returned None, st)"
  shows "\<exists>t. ctx_Err ctx t \<noteq> None"
  using loop_from_nil [OF assms(1,2) loop_inv_init [OF assms(1)] assms(3)] assms(4)
  by (auto simp: runLoop_def)

theorem runLoop_nil_only_if_cancelled_witness:
  "\<exists>t. ctx_Err (Some (0, Canceled)) t \<noteq> None"
proof -
  have "runLoop (Some (0, Canceled)) [crash] three_tries = (Returned None, loop_init three_tries)"
    by (simp add: runLoop_def loop_pass_def crash_def ctx_Err_def stopProcess_def loop_init_def
        three_tries_def New_def)
  from runLoop_nil_only_if_cancelled [OF three_tries_config(1,2) _ this] show ?thesis
    by (simp add: crash_fails)
qed

lemma loop_from_running:
  assumes "config_ready c" "delays_small c" and "loop_inv rn c st" and "\<forall>it\<in>set its. legal ctx it"
    and "loop_from ctx its st = (Running, st')"
  shows "loop_inv rn c st' \<and> length (lp_waits st') = length (lp_waits st) + length its
    \<and> ad_reconnectAttempts (lp_adapter st') = ad_reconnectAttempts (lp_adapter st) + of_nat (length its)
    \<and> set (lp_waits st') \<subseteq> set (lp_waits st) \<union> schedule c ` {k. int k < cf_MaxRetries c}"
  using assms(3-5)
proof (induction its arbitrary: st)
  case (Cons it its)
  obtain r st1 where res: "loop_pass ctx it st = (r, st1)" by fastforce
  have cont: "r = Continue" using Cons.prems(3) res by (cases r) auto
  have "loop_pass ctx it st = (Continue, st1)" using res cont by simp
  note st1 = pass_continues [OF Cons.prems(1) assms(1,2) _ this]
  have "schedule c (if failing ctx rn c it then nat (lp_failures st) else 0) \<in> schedule c ` {k. int k < cf_MaxRetries c}"
    using Cons.prems(1) assms(1) by (auto simp: loop_inv_def config_ready_def)
  moreover have "loop_from ctx its st1 = (Running, st')"
    using Cons.prems(3) res cont by simp
  ultimately show ?case
    using Cons.IH [of st1] st1 Cons.prems(2) by auto
qed simp

text \<open>
  C12. While the loop runs, it has seen fewer than \<open>MaxRetries\<close> failures in a row, its
  current delay is the scheduled one for that number, every wait so far was a positive delay of
  the schedule, hence at most the larger of \<open>RestartDelay\<close> and \<open>MaxRestartDelay\<close>, and it
  waited and counted one reconnect (in a 32-bit counter) per pass.
\<close>

theorem runLoop_invariant:
  assumes "config_ready (ad_config a)" and "delays_small (ad_config a)"
    and "\<forall>it\<in>set its. legal ctx it"
    and "runLoop ctx its a = (Running, st)"
  shows "0 \<le> lp_failures st \<and> lp_failures st < cf_MaxRetries (ad_config a)
    \<and> lp_delay st = schedule (ad_config a) (nat (lp_failures st))
    \<and> length (lp_waits st) = length its
    \<and> ad_reconnectAttempts (lp_adapter st) = ad_reconnectAttempts a + of_nat (length its)
    \<and> (\<forall>w\<in>set (lp_waits st). 0 < w \<and> w \<le> max (cf_RestartDelay (ad_config a)) (cf_MaxRestartDelay (ad_config a)))"
proof -
  have "loop_from ctx its (loop_init a) = (Running, st)" using assms(4) by (simp add: runLoop_def)
  from loop_from_running [OF assms(1,2) loop_inv_init [OF assms(1)] assms(3) this]
  show ?thesis using schedule_bounds [OF assms(1)] by (auto simp: loop_inv_def loop_init_def)
qed

theorem runLoop_invariant_witness:
  "\<exists>st. runLoop Background [crash, crash] three_tries = (Running, st)
     \<and> lp_failures st < 3 \<and> length (lp_waits st) = 2 \<and> ad_reconnectAttempts (lp_adapter st) = 2"
proof -
  obtain res st where run: "runLoop Background [crash, crash] three_tries = (res, st)" by fastforce
  have "res \<noteq> Returned None"
  proof
    assume "res = Returned None"
    with run have "loop_from Background [crash, crash] (loop_init three_tries) = (Returned None, st)"
      by (simp add: runLoop_def)
    from loop_from_nil [OF three_tries_config(1,2) loop_inv_init [OF three_tries_config(1)] _ this] show False
      by (simp add: crash_fails)
  qed
  moreover have "res \<noteq> Returned (Some e)" for e
  proof
    assume "res = Returned (Some e)"
    with run have "loop_from Background [crash, crash] (loop_init three_tries) = (Returned (Some e), st)"
      by (simp add: runLoop_def)
    from loop_from_gave_up [OF three_tries_config(1,2) loop_inv_init [OF three_tries_config(1)] _ _ _ this, of "[]"]
    obtain pre gs rest where "pre @ gs @ rest = [crash, crash]" "length gs = 3"
      by (auto simp: crash_fails loop_init_def three_tries_config)
    then have "length (pre @ gs @ rest) = 2" by simp
    with \<open>length gs = 3\<close> show False by simp
  qed
  ultimately have "res = Running" by (metis loop_result.exhaust option.exhaust)
  with run runLoop_invariant [OF three_tries_config(1,2), of "[crash, crash]" Background st] show ?thesis
    by (simp add: crash_fails three_tries_config)
qed

text \<open>
  C38. Without the bound on the delays the doubling overflows: a delay of \<open>2^62\<close> nanoseconds
  or more (and below \<open>2^63\<close>) is followed by a negative one, which the cap lets pass and for
  which the timer fires at once.
\<close>

theorem backoff_overflows:
  assumes "2 ^ 62 \<le> d" and "d \<le> max_int64" and "0 < cf_MaxRestartDelay c"
  shows "backoff c d < 0"
proof -
  let ?x = "d * 2 + 2 ^ 63"
  have "?x mod 2 ^ 64 = (?x - 2 ^ 64) mod 2 ^ 64" by (rule minus_mod_self2 [symmetric])
  also have "\<dots> = ?x - 2 ^ 64"
    using assms(1,2) by (intro mod_pos_pos_trivial) (simp_all add: max_int64_def)
  finally have "wrap64 (d * 2) = d * 2 - 2 ^ 64" by (simp add: wrap64_def)
  then have "wrap64 (d * 2) < 0" using assms(2) by (simp add: max_int64_def)
  then show ?thesis using assms(3) by (simp add: backoff_def Let_def)
qed

theorem backoff_overflows_witness: "backoff (ad_config three_tries) (2 ^ 62) < 0"
  using backoff_overflows [of "2 ^ 62" "ad_config three_tries"]
  by (simp add: three_tries_config max_int64_def Second_def Millisecond_def)

end
