(* ===== verification/Adapter_Processes.thy ===== *)
theory Adapter_Processes
  imports Frp_Adapter
begin

text \<open>
  The frpc processes of a run of the restart loop (\<open>runLoop\<close>, \<open>startProcess\<close>,
  \<open>waitProcess\<close> and \<open>stopProcess\<close> in \<open>pkg/adapter/frp/adapter.go\<close>): a new process is
  started only after the one before has exited, and a process the loop stops waiting for has been
  sent an interrupt.
\<close>

section \<open>The processes of a run\<close>

text \<open>The process a pass starts, if it does, with the way the wait for it ends.\<close>

definition pass_process :: "go_ctx \<Rightarrow> iteration \<Rightarrow> Adapter \<Rightarrow> (nat \<times> wait_event) list" where
  "pass_process ctx it a =
     (if ctx_Err ctx (it_top it) \<noteq> None then []
      else (case it_spawn it (ad_runner a) (cf_FrpcPath (ad_config a)) [''-c'', cf_ConfigPath (ad_config a)] of
              Spawned pid \<Rightarrow> [(pid, it_wait it)]
            | _ \<Rightarrow> []))"

fun processes :: "go_ctx \<Rightarrow> iteration list \<Rightarrow> loop_state \<Rightarrow> (nat \<times> wait_event) list" where
  "processes ctx [] st = []"
| "processes ctx (it # its) st =
     pass_process ctx it (lp_adapter st) @
     (case loop_pass ctx it st of
        (Return res, st') \<Rightarrow> []
      | (Continue, st') \<Rightarrow> processes ctx its st')"

definition exited :: "nat \<times> wait_event \<Rightarrow> bool" where
  "exited p \<longleftrightarrow> (\<exists>err. snd p = ProcExited err)"

section \<open>One pass\<close>

lemma restart_wait_signals: "restart_wait it st = (r, st') \<Longrightarrow> lp_signals st' = lp_signals st"
  by (auto simp: restart_wait_def Let_def split: if_splits)

lemma count_exit_signals [simp]: "lp_signals (count_exit it err st) = lp_signals st"
  by (simp add: count_exit_def Let_def split: option.split)

lemma start_failed_signals: "start_failed it err a st = (r, st') \<Longrightarrow> lp_signals st' = lp_signals st"
  by (auto simp: start_failed_def Let_def split: if_splits)

lemma pass_signals_grow:
  assumes "loop_pass ctx it st = (r, st')"
  shows "set (lp_signals st) \<subseteq> set (lp_signals st')"
  using assms
  by (auto simp: loop_pass_def Let_def split: prod.splits option.splits if_splits
      dest!: restart_wait_signals start_failed_signals)

lemma pass_process_cases:
  assumes "(pid, w) \<in> set (pass_process ctx it a)"
  shows "pass_process ctx it a = [(pid, w)]" and "w = it_wait it" and "ctx_Err ctx (it_top it) = None"
    and "startProcess (it_spawn it) a = (None, a\<lparr>ad_cmd := Some pid\<rparr>)"
  using assms by (auto simp: pass_process_def startProcess_def split: if_splits spawn.splits)

lemma interrupted_pass:
  assumes "(pid, Interrupted t) \<in> set (pass_process ctx it (lp_adapter st))" and "legal ctx it"
    and "loop_pass ctx it st = (r, st')"
  shows "ctx_Err ctx t \<noteq> None \<and> r = Return None \<and> Interrupt pid \<in> set (lp_signals st')"
proof -
  note p = pass_process_cases [OF assms(1)]
  have w: "it_wait it = Interrupted t" using p(2) by simp
  have t: "t \<le> it_exited it" "ctx_Err ctx t \<noteq> None" using assms(2) w by (simp_all add: legal_def)
  then have "ctx_Err ctx (it_exited it) \<noteq> None" using ctx_Err_mono by blast
  with assms(3) p(3,4) w t(2) show ?thesis
    by (auto simp: loop_pass_def waitProcess_def stopProcess_def Let_def split: if_splits)
qed

section \<open>Runs\<close>

lemma signals_grow: "loop_from ctx its st = (res, st') \<Longrightarrow> set (lp_signals st) \<subseteq> set (lp_signals st')"
proof (induction its arbitrary: st)
  case (Cons it its)
  obtain r st1 where res: "loop_pass ctx it st = (r, st1)" by fastforce
  with pass_signals_grow [OF res] Cons show ?case by (cases r) auto
qed simp

lemma processes_safe:
  assumes "loop_from ctx its st = (res, st')" and "\<forall>it\<in>set its. legal ctx it"
  shows "(\<forall>p\<in>set (butlast (processes ctx its st)). exited p)
    \<and> (\<forall>pid t. (pid, Interrupted t) \<in> set (processes ctx its st) \<longrightarrow>
         ctx_Err ctx t \<noteq> None \<and> Interrupt pid \<in> set (lp_signals st'))"
  using assms
proof (induction its arbitrary: st)
  case (Cons it its)
  obtain r st1 where pass: "loop_pass ctx it st = (r, st1)" by fastforce
  let ?ps = "pass_process ctx it (lp_adapter st)"
  have one: "?ps = [] \<or> (\<exists>p. ?ps = [p])" by (auto simp: pass_process_def split: spawn.split)
  have legal: "legal ctx it" using Cons.prems(2) by simp
  show ?case
  proof (cases r)
    case (Return x)
    then have "st' = st1" using Cons.prems(1) pass by simp
    with Return pass one interrupted_pass [OF _ legal pass] show ?thesis by auto
  next
    case Continue
    then have rest: "loop_from ctx its st1 = (res, st')" using Cons.prems(1) pass by simp
    have ps: "exited p" if "p \<in> set ?ps" for p
    proof (cases "snd p")
      case (Interrupted t)
      then have "(fst p, Interrupted t) \<in> set ?ps" using that by (metis prod.collapse)
      from interrupted_pass [OF this legal pass] Continue show ?thesis by simp
    qed (simp add: exited_def)
    then have "(pid, Interrupted t) \<notin> set ?ps" for pid t by (force simp: exited_def)
    moreover have "set (butlast (?ps @ qs)) \<subseteq> set ?ps \<union> set (butlast qs)" for qs
      by (auto simp: butlast_append dest: in_set_butlastD)
    ultimately show ?thesis
      using Cons.IH [OF rest] Cons.prems(2) pass Continue ps by simp blast
  qed
qed simp

text \<open>
  C13. At most one frpc process at a time and none forgotten: whatever the processes and the
  context do, the loop starts a process only after the one before it has exited, and a process it
  stopped waiting for (which it does only when its context is done) has been sent an interrupt.
\<close>

theorem runLoop_forgets_no_process:
  assumes "runLoop ctx its a = (res, st)" and "\<forall>it\<in>set its. legal ctx it"
  shows "(\<forall>p\<in>set (butlast (processes ctx its (loop_init a))). exited p)
    \<and> (\<forall>pid t. (pid, Interrupted t) \<in> set (processes ctx its (loop_init a)) \<longrightarrow>
         ctx_Err ctx t \<noteq> None \<and> Interrupt pid \<in> set (lp_signals st))"
  using processes_safe [OF assms(1) [unfolded runLoop_def] assms(2)] .

text \<open>A crash, then a cancellation while the second process runs.\<close>

definition cancelled_run :: "iteration list" where
  "cancelled_run = [crash, crash\<lparr>it_spawn := \<lambda>runner path args. Spawned 8, it_wait := Interrupted (10 * Second),
     it_exited := 10 * Second\<rparr>]"

theorem runLoop_forgets_no_process_witness:
  "\<exists>st. runLoop (Some (10 * Second, Canceled)) cancelled_run three_tries = (Returned None, st)
     \<and> processes (Some (10 * Second, Canceled)) cancelled_run (loop_init three_tries)
       = [(7, ProcExited (Some ''exit status 1'')), (8, Interrupted (10 * Second))]
     \<and> Interrupt 8 \<in> set (lp_signals st)"
proof -
  let ?ctx = "Some (10 * Second, Canceled)"
  have "\<exists>st. runLoop ?ctx cancelled_run three_tries = (Returned None, st)
      \<and> processes ?ctx cancelled_run (loop_init three_tries)
        = [(7, ProcExited (Some ''exit status 1'')), (8, Interrupted (10 * Second))]"
    by (simp add: runLoop_def cancelled_run_def loop_pass_def crash_def ctx_Err_def startProcess_def waitProcess_def
        stopProcess_def loop_init_def restart_wait_def count_exit_def time_Sub_def min_int64_def max_int64_def
        stableRunThreshold_def Second_def Millisecond_def wrap64_def exhausted_def three_tries_config pass_process_def
        Let_def split: prod.split)
  then obtain st where st: "runLoop ?ctx cancelled_run three_tries = (Returned None, st)"
      "processes ?ctx cancelled_run (loop_init three_tries)
        = [(7, ProcExited (Some ''exit status 1'')), (8, Interrupted (10 * Second))]" by blast
  have "\<forall>it\<in>set cancelled_run. legal ?ctx it"
    by (simp add: cancelled_run_def crash_def legal_def ctx_Err_def)
  from runLoop_forgets_no_process [OF st(1) this] st show ?thesis by auto
qed

end
