(* ===== verification/Adapter_Uptime.thy ===== *)
theory Adapter_Uptime
  imports Frp_Adapter
begin

text \<open>
  The uptime in \<open>Adapter.Status\<close> (\<open>pkg/adapter/frp/adapter.go\<close>). The code takes the whole
  seconds of a duration through \<open>float64\<close> (\<open>int64(time.Since(t).Seconds())\<close>); the two
  roundings on the way do not show during the first \<open>2^24\<close> seconds.
\<close>

section \<open>Rounding\<close>

lemma round_half_even_bounds: "\<lfloor>y\<rfloor> \<le> round_half_even y" "of_int (round_half_even y) \<le> y + 1 / 2"
proof -
  show "\<lfloor>y\<rfloor> \<le> round_half_even y" by (simp add: round_half_even_def Let_def)
  have "(of_int \<lfloor>y\<rfloor> :: rat) \<le> y + 1 / 2" using of_int_floor_le [of y] by linarith
  then show "of_int (round_half_even y) \<le> y + 1 / 2"
    by (auto simp: round_half_even_def Let_def)
qed

text \<open>The exponent of a number below \<open>2 ^ Suc k\<close> is at most \<open>k\<close>; below one it is negative.\<close>

lemma float_exp_le:
  assumes "1 \<le> x" and "x < 2 ^ Suc k"
  shows "float_exp x \<le> int k"
proof -
  have "nat \<lfloor>x\<rfloor> < 2 ^ Suc k"
    using assms by (simp add: nat_less_iff floor_less_iff)
  then have "floorlog 2 (nat \<lfloor>x\<rfloor>) \<le> Suc k" by (intro floorlog_leI) auto
  with assms(1) show ?thesis by (simp add: float_exp_def)
qed

lemma float_exp_neg:
  assumes "0 < x" and "x < 1"
  shows "float_exp x \<le> - 1"
proof -
  have "1 < 1 / x" using assms by simp
  then have "2 \<le> \<lceil>1 / x\<rceil>" by linarith
  then have "0 < nat (\<lceil>1 / x\<rceil> - 1)" by simp
  then have "0 < floorlog 2 (nat (\<lceil>1 / x\<rceil> - 1))" by (simp add: floorlog_def)
  with assms show ?thesis by (simp add: float_exp_def)
qed

text \<open>
  With an exponent of at most \<open>k\<close> rounding adds at most \<open>2 ^ (k - 53)\<close> and never falls below
  a whole number.
\<close>

lemma float64_bounds:
  assumes "0 < x" and "float_exp x \<le> k" and "k \<le> 52" and "of_nat n \<le> x"
  shows "of_nat n \<le> float64 x" and "float64 x \<le> x + power_int 2 (k - 53)"
proof -
  define e where "e = float_exp x - 52"
  define u :: rat where "u = power_int 2 e"
  have e: "e \<le> 0" "e \<le> k - 52" using assms(2,3) by (simp_all add: e_def)
  have u: "0 < u" by (simp add: u_def)
  have f: "float64 x = of_int (round_half_even (x / u)) * u"
    using assms(1) by (simp add: float64_def Let_def u_def e_def)
  have inv: "1 / u = 2 ^ nat (- e)"
    using e(1) by (simp add: u_def power_int_def field_simps split: if_splits)
  have "of_nat n / u \<le> x / u" using assms(4) u by (simp add: divide_right_mono)
  moreover have "of_nat n / u = of_nat n * (1 / u)" by simp
  ultimately have "of_nat (n * 2 ^ nat (- e)) \<le> x / u" unfolding inv by simp
  then have "int (n * 2 ^ nat (- e)) \<le> \<lfloor>x / u\<rfloor>" by (simp add: le_floor_iff)
  then have "int (n * 2 ^ nat (- e)) \<le> round_half_even (x / u)"
    using round_half_even_bounds(1) [of "x / u"] by linarith
  then have "(of_int (int (n * 2 ^ nat (- e))) :: rat) \<le> of_int (round_half_even (x / u))"
    by (rule of_int_le_iff [THEN iffD2])
  then have "of_nat n * (1 / u) * u \<le> of_int (round_half_even (x / u)) * u"
    unfolding inv using u by (intro mult_right_mono) simp_all
  then show "of_nat n \<le> float64 x" using u by (simp add: f)
  have "of_int (round_half_even (x / u)) * u \<le> (x / u + 1 / 2) * u"
    using round_half_even_bounds(2) u by (intro mult_right_mono) simp_all
  then have "float64 x \<le> x + u / 2" using u by (simp add: f distrib_right)
  moreover have "u / 2 = power_int 2 (e - 1)" by (simp add: u_def power_int_diff)
  moreover have "power_int (2 :: rat) (e - 1) \<le> power_int 2 (k - 53)"
    using e(2) by (intro power_int_increasing) simp_all
  ultimately show "float64 x \<le> x + power_int 2 (k - 53)" by linarith
qed

section \<open>Whole seconds\<close>

lemma float64_fraction:
  assumes "0 \<le> x" and "x < 1"
  shows "0 \<le> float64 x" and "float64 x \<le> x + 1 / 2 ^ 54"
proof -
  have "0 \<le> float64 x \<and> float64 x \<le> x + 1 / 2 ^ 54"
  proof (cases "x = 0")
    case False
    with float64_bounds [of x "-1" 0] float_exp_neg [of x] assms show ?thesis
      by (simp add: power_int_def power_divide)
  qed (simp add: float64_def Let_def)
  then show "0 \<le> float64 x" "float64 x \<le> x + 1 / 2 ^ 54" by blast+
qed

lemma float64_sum:
  assumes "of_nat s \<le> y" and "y < 2 ^ 24"
  shows "of_nat s \<le> float64 y" and "float64 y \<le> y + 1 / 2 ^ 30"
proof -
  have "0 \<le> y" using assms(1) by (meson of_nat_0_le_iff order_trans)
  have "of_nat s \<le> float64 y \<and> float64 y \<le> y + 1 / 2 ^ 30"
  proof (cases "y = 0")
    case False
    with \<open>0 \<le> y\<close> have pos: "0 < y" by simp
    have "float_exp y \<le> 23"
    proof (cases "1 \<le> y")
      case True
      with float_exp_le [of y 23] assms(2) show ?thesis by simp
    qed (use float_exp_neg [of y] pos in simp)
    with float64_bounds [of y 23 s] assms(1) pos show ?thesis by (simp add: power_int_def power_divide)
  qed (use assms in \<open>simp add: float64_def Let_def\<close>)
  then show "of_nat s \<le> float64 y" "float64 y \<le> y + 1 / 2 ^ 30" by blast+
qed

lemma seconds_exact:
  assumes "0 \<le> d" and "d < 2 ^ 24 * Second"
  shows "trunc_int (Duration_Seconds d) = d div Second"
proof -
  define s r where "s = nat (d div Second)" and "r = d mod Second"
  have S: "Second = 1000000000" by (simp add: Second_def Millisecond_def)
  have r: "0 \<le> r" "r \<le> 999999999" using pos_mod_bound [of Second d] by (simp_all add: r_def S)
  have s: "int s = d div Second" using assms(1) by (simp add: s_def S pos_imp_zdiv_nonneg_iff)
  have "int s < 2 ^ 24" unfolding s using assms(2) by (simp add: S)
  then have "s \<le> 2 ^ 24 - 1" by simp
  then have s24: "(of_nat s :: rat) \<le> of_nat (2 ^ 24 - 1)" by (rule of_nat_mono)
  have parts: "go_quot d Second = int s" "go_rem d Second = r"
    using assms(1) s by (simp_all add: go_quot_def go_rem_def r_def S sgn_if minus_mult_div_eq_mod)
  define x where "x = (of_int r :: rat) / 1000000000"
  have x: "0 \<le> x" "x \<le> 999999999 / 1000000000" using r by (simp_all add: x_def)
  then have fx: "0 \<le> float64 x" "float64 x \<le> x + 1 / 2 ^ 54" using float64_fraction [of x] by simp_all
  define y where "y = of_nat s + float64 x"
  have y: "of_nat s \<le> y" "y \<le> of_nat s + 999999999 / 1000000000 + 1 / 2 ^ 54"
    using fx x(2) by (simp_all add: y_def)
  with s24 have "y < 2 ^ 24" by simp
  note fy = float64_sum [OF y(1) this]
  with y(2) have "float64 y < of_nat s + 1" by simp
  with fy(1) have "\<lfloor>float64 y\<rfloor> = int s" by (simp add: floor_eq_iff)
  moreover have "Duration_Seconds d = float64 y" by (simp add: Duration_Seconds_def parts y_def x_def)
  moreover have "0 \<le> float64 y" using fy(1) by (meson of_nat_0_le_iff order_trans)
  ultimately show ?thesis using s by (simp add: trunc_int_def)
qed

text \<open>
  C40. \<open>Status\<close> reports the uptime exactly, in whole seconds, for the first \<open>2^24\<close> seconds
  (194 days) after the start, in spite of the two floating-point roundings of
  \<open>Duration.Seconds\<close>; and zero before the start.
\<close>

theorem Status_uptime_exact:
  assumes "ad_startedAt a \<noteq> zero_time \<longrightarrow> ad_startedAt a \<le> now \<and> now - ad_startedAt a < 2 ^ 24 * Second"
  shows "st_UptimeSeconds (Adapter_Status now alive a) =
    (if ad_startedAt a = zero_time then 0 else (now - ad_startedAt a) div Second)"
proof (cases "ad_startedAt a = zero_time")
  case False
  with assms have d: "0 \<le> now - ad_startedAt a" "now - ad_startedAt a < 2 ^ 24 * Second" by simp_all
  then have "time_Sub now (ad_startedAt a) = now - ad_startedAt a"
    by (simp add: time_Sub_def min_int64_def max_int64_def Second_def Millisecond_def)
  with False seconds_exact [OF d] show ?thesis by (simp add: Adapter_Status_def)
qed (simp add: Adapter_Status_def)

theorem Status_uptime_exact_witness:
  "st_UptimeSeconds (Adapter_Status (time_Unix 1700000000 + 16777216 * Second - 1) (\<lambda>pid. True)
     (three_tries\<lparr>ad_startedAt := time_Unix 1700000000\<rparr>)) = 16777215"
proof -
  have "time_Unix 1700000000 \<noteq> zero_time" by (simp add: time_Unix_def wrap64_def Second_def Millisecond_def)
  with Status_uptime_exact [of "three_tries\<lparr>ad_startedAt := time_Unix 1700000000\<rparr>" "time_Unix 1700000000 + 16777216 * Second - 1" "\<lambda>pid. True"]
  show ?thesis by (simp add: Second_def Millisecond_def)
qed

end
