(* ===== verification/Adapter_Start.thy ===== *)
theory Adapter_Start
  imports Frp_Adapter
begin

text \<open>
  \<open>Adapter.Start\<close> and \<open>Adapter.Stop\<close> after their entry checks
  (\<open>pkg/adapter/frp/adapter.go\<close>), as the goroutines they are: the restart loop followed by
  the wait for the webhook server's report, the webhook goroutine, and the canceller (the caller's
  context or \<open>Stop\<close>). Shown: what must have happened when \<open>Start\<close> returns, that a
  cancelled run always can return, that a run whose restart loop gave up does not return
  while nobody cancels, and that a webhook server that fails to start goes unnoticed.
\<close>

section \<open>The goroutines\<close>

text \<open>Where \<open>Start\<close> is: in the restart loop, at \<open><-webhookErrChan\<close>, or returned.\<close>

datatype start_phase = InLoop | AwaitWebhook "loop_error option" | StartReturned "loop_error option"

text \<open>The webhook goroutine: not yet started, blocked on its context, or its result reported.\<close>

datatype hook_phase = HookNew | HookServing | HookReported "webhook_error option"

record start_run =
  sr_adapter :: Adapter
  sr_cancelled :: bool
  sr_main :: start_phase
  sr_hook :: hook_phase

definition start_begin :: "Adapter \<Rightarrow> start_run" where
  "start_begin a = \<lparr>sr_adapter = a, sr_cancelled = False, sr_main = InLoop, sr_hook = HookNew\<rparr>"

text \<open>
  What the restart loop can return with: it sees only contexts that are done at most if the run
  was cancelled.
\<close>

definition loop_returns :: "bool \<Rightarrow> Adapter \<Rightarrow> loop_error option \<Rightarrow> Adapter \<Rightarrow> bool" where
  "loop_returns cancelled a res a' \<longleftrightarrow>
     (\<exists>ctx its st. (\<forall>it\<in>set its. legal ctx it) \<and> ((\<exists>t. ctx_Err ctx t \<noteq> None) \<longrightarrow> cancelled)
        \<and> runLoop ctx its a = (Returned res, st) \<and> lp_adapter st = a')"

inductive start_step :: "(string \<Rightarrow> string + string) \<Rightarrow> start_run \<Rightarrow> start_run \<Rightarrow> bool"
  for listen :: "string \<Rightarrow> string + string" where
  cancel: "start_step listen r (r\<lparr>sr_cancelled := True\<rparr>)"
| hook_fails: "sr_hook r = HookNew \<Longrightarrow> ad_webhook (sr_adapter r) = Some w \<Longrightarrow>
     Webhook_Start_begin listen w = (Some e, w') \<Longrightarrow>
     start_step listen r (r\<lparr>sr_hook := HookReported (Some e), sr_adapter := (sr_adapter r)\<lparr>ad_webhook := Some w'\<rparr>\<rparr>)"
| hook_serves: "sr_hook r = HookNew \<Longrightarrow> ad_webhook (sr_adapter r) = Some w \<Longrightarrow>
     Webhook_Start_begin listen w = (None, w') \<Longrightarrow>
     start_step listen r (r\<lparr>sr_hook := HookServing, sr_adapter := (sr_adapter r)\<lparr>ad_webhook := Some w'\<rparr>\<rparr>)"
| hook_ends: "sr_hook r = HookServing \<Longrightarrow> sr_cancelled r \<Longrightarrow> ad_webhook (sr_adapter r) = Some w \<Longrightarrow>
     Webhook_shutdown err w = (res, w') \<Longrightarrow>
     start_step listen r (r\<lparr>sr_hook := HookReported res, sr_adapter := (sr_adapter r)\<lparr>ad_webhook := Some w'\<rparr>\<rparr>)"
| loop_ends: "sr_main r = InLoop \<Longrightarrow> loop_returns (sr_cancelled r) (sr_adapter r) res a' \<Longrightarrow>
     start_step listen r (r\<lparr>sr_main := AwaitWebhook res, sr_adapter := a'\<rparr>)"
| returns: "sr_main r = AwaitWebhook res \<Longrightarrow> sr_hook r = HookReported e \<Longrightarrow>
     start_step listen r (r\<lparr>sr_main := StartReturned res, sr_adapter := (sr_adapter r)\<lparr>ad_done := True\<rparr>\<rparr>)"

inductive_cases start_step_elim: "start_step listen r r'"

text \<open>\<open>Stop\<close>'s select: \<open>nil\<close> once \<open>doneChan\<close> is closed, the context's error once it is done.\<close>

definition Stop_wait :: "go_ctx \<Rightarrow> instant \<Rightarrow> bool \<Rightarrow> Adapter \<Rightarrow> ctx_error option option" where
  "Stop_wait ctx t prefer_done a =
     (case ctx_Err ctx t of
        None \<Rightarrow> if ad_done a then Some None else None
      | Some e \<Rightarrow> if ad_done a \<and> prefer_done then Some None else Some (Some e))"

section \<open>What a return means\<close>

definition run_inv :: "Config \<Rightarrow> start_run \<Rightarrow> bool" where
  "run_inv c r \<longleftrightarrow> ad_config (sr_adapter r) = c \<and> ad_webhook (sr_adapter r) \<noteq> None
     \<and> (ad_done (sr_adapter r) \<longleftrightarrow> (\<exists>res. sr_main r = StartReturned res))
     \<and> (\<forall>res. sr_main r = StartReturned res \<longrightarrow> (\<exists>e. sr_hook r = HookReported e))
     \<and> (\<forall>res. sr_main r \<in> {AwaitWebhook res, StartReturned res} \<longrightarrow> res = None \<longrightarrow> sr_cancelled r)
     \<and> (sr_hook r = HookReported None \<longrightarrow> sr_cancelled r)"

text \<open>The restart loop leaves alone what the other goroutines own.\<close>

lemma pass_frame:
  assumes "loop_pass ctx it st = (r, st')"
  shows "ad_webhook (lp_adapter st') = ad_webhook (lp_adapter st) \<and> ad_done (lp_adapter st') = ad_done (lp_adapter st)
    \<and> ad_config (lp_adapter st') = ad_config (lp_adapter st)"
  using assms
  by (auto simp: loop_pass_def start_failed_def count_exit_def restart_wait_def startProcess_def waitProcess_def
      stopProcess_def setLastError_def add_reconnect_def Let_def
      split: if_splits option.splits spawn.splits wait_event.splits)

lemma loop_frame:
  "loop_from ctx its st = (res, st') \<Longrightarrow>
     ad_webhook (lp_adapter st') = ad_webhook (lp_adapter st) \<and> ad_done (lp_adapter st') = ad_done (lp_adapter st)
     \<and> ad_config (lp_adapter st') = ad_config (lp_adapter st)"
proof (induction its arbitrary: st)
  case (Cons it its)
  obtain r st1 where "loop_pass ctx it st = (r, st1)" by fastforce
  with pass_frame [OF this] Cons show ?case by (cases r) auto
qed simp

lemma loop_returns_frame:
  assumes "loop_returns cancelled a res a'"
  shows "ad_webhook a' = ad_webhook a \<and> ad_done a' = ad_done a \<and> ad_config a' = ad_config a"
  using assms loop_frame [of _ _ "loop_init a"] by (fastforce simp: loop_returns_def runLoop_def loop_init_def)

lemma loop_returns_nil:
  assumes "loop_returns cancelled a None a'" and "config_ready (ad_config a)" and "delays_small (ad_config a)"
  shows cancelled
proof -
  obtain ctx its st where "\<forall>it\<in>set its. legal ctx it" and c: "(\<exists>t. ctx_Err ctx t \<noteq> None) \<longrightarrow> cancelled"
      and "loop_from ctx its (loop_init a) = (Returned None, st)"
    using assms(1) by (auto simp: loop_returns_def runLoop_def)
  from loop_from_nil [OF assms(2,3) loop_inv_init [OF assms(2)] this(1,3)] c show ?thesis by blast
qed

lemma run_inv_step:
  assumes "start_step listen r r'" and "run_inv c r" and "config_ready c" and "delays_small c"
  shows "run_inv c r'"
  using assms(1)
proof (cases rule: start_step.cases)
  case cancel
  then show ?thesis using assms(2) by (auto simp: run_inv_def)
next
  case (hook_fails w e w')
  then show ?thesis using assms(2) by (auto simp: run_inv_def)
next
  case (hook_serves w w')
  then show ?thesis using assms(2) by (auto simp: run_inv_def)
next
  case (hook_ends w err res w')
  then show ?thesis using assms(2) by (auto simp: run_inv_def)
next
  case (loop_ends res a')
  have "res = None \<Longrightarrow> sr_cancelled r"
    using loop_returns_nil [of "sr_cancelled r" "sr_adapter r" a'] loop_ends assms(2-4) by (simp add: run_inv_def)
  with loop_ends loop_returns_frame [OF loop_ends(3)] assms(2) show ?thesis
    by (auto simp: run_inv_def)
next
  case (returns res e)
  then show ?thesis using assms(2) by (auto simp: run_inv_def)
qed

lemma run_inv_reach:
  assumes "(start_step listen)\<^sup>*\<^sup>* (start_begin a) r"
    and "config_ready (ad_config a)" and "delays_small (ad_config a)" and "ad_webhook a \<noteq> None" and "\<not> ad_done a"
  shows "run_inv (ad_config a) r"
  using assms(1)
proof (induction rule: rtranclp_induct)
  case base
  then show ?case using assms(4,5) by (simp add: run_inv_def start_begin_def)
next
  case (step y z)
  then show ?case using run_inv_step assms(2,3) by blast
qed

text \<open>
  The adapter as it enters the run: created by \<open>New\<close>, given a handler and let in by
  \<open>Start\<close>'s checks.
\<close>

definition entered :: "Config \<Rightarrow> Adapter \<Rightarrow> bool" where
  "entered cfg a \<longleftrightarrow> (\<exists>h t. Start_gate t (OnConnection (Some h) (New cfg)) = Inr a)"

lemma entered_facts:
  assumes "entered cfg a"
  shows "ad_config a = New_config cfg" and "config_ready (ad_config a)" and "ad_webhook a \<noteq> None" and "\<not> ad_done a"
proof -
  obtain h t where gate: "Start_gate t (OnConnection (Some h) (New cfg)) = Inr a"
    using assms by (auto simp: entered_def)
  then show "ad_config a = New_config cfg" "ad_webhook a \<noteq> None" "\<not> ad_done a"
    by (auto simp: Start_gate_def OnConnection_def New_def split: option.splits if_splits)
  have "Config_Validate (New_config cfg) = None"
    using gate by (auto simp: Start_gate_def OnConnection_def New_def split: option.splits)
  then show "config_ready (ad_config a)"
    using \<open>ad_config a = New_config cfg\<close> by (simp add: New_config_ready)
qed

lemma run_inv_entered:
  assumes "entered cfg a" and "delays_small (New_config cfg)" and "(start_step listen)\<^sup>*\<^sup>* (start_begin a) r"
  shows "run_inv (New_config cfg) r"
  using run_inv_reach [OF assms(3)] entered_facts [OF assms(1)] assms(2) by simp

text \<open>
  C10. When \<open>Start\<close> has returned, the webhook server has reported its end and \<open>doneChan\<close>
  is closed, so a waiting \<open>Stop\<close> returns \<open>nil\<close>; and \<open>Start\<close> returned \<open>nil\<close> only if
  its context was cancelled.
\<close>

theorem Start_return_means:
  assumes "entered cfg a" and "delays_small (New_config cfg)"
    and "(start_step listen)\<^sup>*\<^sup>* (start_begin a) r" and "sr_main r = StartReturned res"
  shows "(\<exists>e. sr_hook r = HookReported e) \<and> (res = None \<longrightarrow> sr_cancelled r)
    \<and> Stop_wait Background t b (sr_adapter r) = Some None"
  using run_inv_entered [OF assms(1-3)] assms(4) by (auto simp: run_inv_def Stop_wait_def)

section \<open>Cancelled runs end\<close>

definition stopping :: iteration where
  "stopping = \<lparr>it_top = 0, it_start = 0, it_spawn = (\<lambda>runner path args. StartErr []), it_wait = ProcExited None,
     it_exited = 0, it_error_at = 0, it_interrupt_ok = True, it_timer = True, it_wake = 0\<rparr>"

lemma loop_can_return: "loop_returns True a None (snd (stopProcess True a))"
proof -
  have "runLoop (Some (0, Canceled)) [stopping] a =
      (Returned None, (loop_init a)\<lparr>lp_adapter := snd (stopProcess True a), lp_signals := fst (stopProcess True a)\<rparr>)"
    by (simp add: runLoop_def loop_pass_def stopping_def ctx_Err_def loop_init_def split: prod.split)
  moreover have "\<forall>it\<in>set [stopping]. legal (Some (0, Canceled)) it"
    by (simp add: legal_def stopping_def)
  ultimately show ?thesis unfolding loop_returns_def
    by (intro exI [of _ "Some (0, Canceled)"] exI [of _ "[stopping]"]) auto
qed

definition can_report :: "(string \<Rightarrow> string + string) \<Rightarrow> start_run \<Rightarrow> bool" where
  "can_report listen r \<longleftrightarrow>
     (\<exists>r' e. (start_step listen)\<^sup>*\<^sup>* r r' \<and> sr_hook r' = HookReported e \<and> sr_main r' = sr_main r)"

lemma can_report_step:
  "start_step listen r r1 \<Longrightarrow> sr_main r1 = sr_main r \<Longrightarrow> can_report listen r1 \<Longrightarrow> can_report listen r"
  unfolding can_report_def by (metis converse_rtranclp_into_rtranclp)

lemma can_report_now: "sr_hook r = HookReported e \<Longrightarrow> can_report listen r"
  by (auto simp: can_report_def)

lemma serving_can_report:
  assumes "sr_hook r = HookServing" "sr_cancelled r" "ad_webhook (sr_adapter r) = Some w"
  shows "can_report listen r"
proof -
  obtain res w' where "Webhook_shutdown None w = (res, w')" by fastforce
  from start_step.hook_ends [OF assms this, of listen] show ?thesis
    by (rule can_report_step) (simp_all add: can_report_now)
qed

lemma hook_can_report:
  assumes "sr_cancelled r" and "ad_webhook (sr_adapter r) = Some w"
  shows "can_report listen r"
proof (cases "sr_hook r")
  case HookNew
  obtain e w' where res: "Webhook_Start_begin listen w = (e, w')" by fastforce
  show ?thesis
  proof (cases e)
    case None
    from start_step.hook_serves [OF HookNew assms(2) res [unfolded None]] show ?thesis
      by (rule can_report_step) (simp_all add: serving_can_report assms(1))
  next
    case (Some x)
    from start_step.hook_fails [OF HookNew assms(2) res [unfolded Some]] show ?thesis
      by (rule can_report_step) (simp_all add: can_report_now)
  qed
next
  case HookServing
  then show ?thesis using assms by (rule serving_can_report)
qed (rule can_report_now)

lemma await_can_return:
  assumes "sr_main r = AwaitWebhook res" "sr_cancelled r" "ad_webhook (sr_adapter r) = Some w"
  shows "\<exists>r'. (start_step listen)\<^sup>*\<^sup>* r r' \<and> sr_main r' = StartReturned res"
proof -
  obtain r1 e where r1: "(start_step listen)\<^sup>*\<^sup>* r r1" "sr_hook r1 = HookReported e" "sr_main r1 = AwaitWebhook res"
    using hook_can_report [OF assms(2,3), of listen] assms(1) by (auto simp: can_report_def)
  from rtranclp.rtrancl_into_rtrancl [OF r1(1) start_step.returns [OF r1(3,2)]] show ?thesis by auto
qed


section \<open>A run nobody cancels\<close>

lemma uncancelled_hook:
  assumes "(start_step listen)\<^sup>*\<^sup>* (start_begin a) r"
    and "ad_webhook a = Some w" and "Webhook_Start_begin listen w = (None, w')"
  shows "sr_cancelled r \<or>
    ((sr_hook r = HookNew \<and> ad_webhook (sr_adapter r) = Some w) \<or> sr_hook r = HookServing) \<and>
    (\<forall>res. sr_main r \<noteq> StartReturned res)"
  using assms(1)
proof (induction rule: rtranclp_induct)
  case base
  then show ?case using assms(2) by (simp add: start_begin_def)
next
  case (step r1 r2)
  from step.hyps(2) show ?case
  proof (cases rule: start_step.cases)
    case (loop_ends res a')
    then show ?thesis using step.IH loop_returns_frame [OF loop_ends(3)] by auto
  qed (use step.IH assms(3) in auto)
qed

text \<open>
  C23. When the webhook server could be started, \<open>Start\<close> does not return before somebody
  cancels it, not even after its restart loop gave up with an error: it waits for the webhook
  server, which waits for a context that nobody is going to cancel.
\<close>

theorem Start_waits_for_cancellation:
  assumes "(start_step listen)\<^sup>*\<^sup>* (start_begin a) r" and "\<not> sr_cancelled r"
    and "ad_webhook a = Some w" and "Webhook_Start_begin listen w = (None, w')"
  shows "sr_main r \<noteq> StartReturned res"
  using uncancelled_hook [OF assms(1,3,4)] assms(2) by blast

definition listen_ok :: "string \<Rightarrow> string + string" where
  "listen_ok addr = Inr addr"

text \<open>An adapter with three tries that was let in.\<close>

definition three_config :: Config where
  "three_config = frpc_config\<lparr>cf_MaxRetries := 3, cf_MaxRestartDelay := 3 * Second\<rparr>"

definition three_adapter :: Adapter where
  "three_adapter = (OnConnection (Some allow_all) (New three_config))\<lparr>ad_started := True, ad_cancel := True, ad_startedAt := 1\<rparr>"

lemma three_entered: "entered three_config three_adapter" "delays_small (New_config three_config)"
proof -
  have conf: "New_config three_config = ad_config three_tries"
    by (simp add: three_tries_def three_config_def New_def)
  then show "delays_small (New_config three_config)" using three_tries_config(2) by simp
  have "Config_Validate (New_config three_config) = None"
    using three_tries_config(1) New_config_ready [of three_config] conf by simp
  then have "Start_gate 1 (OnConnection (Some allow_all) (New three_config)) = Inr three_adapter"
    by (simp add: Start_gate_def OnConnection_def New_def three_adapter_def)
  then show "entered three_config three_adapter" by (auto simp: entered_def)
qed

lemma three_adapter_crashes:
  "\<exists>e st. runLoop Background [crash, crash, crash] three_adapter = (Returned (Some e), st)"
proof -
  have conf: "ad_config three_adapter = ad_config three_tries" "ad_runner three_adapter = ad_runner three_tries"
    by (simp_all add: three_adapter_def three_tries_def three_config_def New_def OnConnection_def)
  show ?thesis
    using loop_from_failing [OF _ _ loop_inv_init [of three_adapter], of "[crash, crash, crash]" Background]
    by (auto simp: runLoop_def loop_init_def three_tries_config crash_fails conf)
qed

lemma three_webhook:
  "\<exists>w. ad_webhook three_adapter = Some w \<and> WebhookConfig_Validate (ws_config w) = None \<and> \<not> ws_started w"
  by (simp add: three_adapter_def OnConnection_def SetHandler_def New_def New_config_def three_config_def frpc_config_def
      DefaultConfig_def Let_def NewWebhookServer_def DefaultWebhookConfig_def WebhookConfig_Validate_def HasPrefix_def
      Second_def Millisecond_def)

lemma entered_hook:
  "\<exists>w w'. ad_webhook three_adapter = Some w \<and> Webhook_Start_begin listen_ok w = (None, w')"
  using three_webhook by (auto simp: Webhook_Start_begin_def listen_ok_def)

lemma entered_gives_up:
  "\<exists>e a'. start_step listen_ok (start_begin three_adapter)
     ((start_begin three_adapter)\<lparr>sr_main := AwaitWebhook (Some e), sr_adapter := a'\<rparr>)"
proof -
  obtain e st where run: "runLoop Background [crash, crash, crash] three_adapter = (Returned (Some e), st)"
    using three_adapter_crashes by blast
  have "loop_returns False three_adapter (Some e) (lp_adapter st)"
    unfolding loop_returns_def using run crash_fails(1)
    by (intro exI [of _ Background] exI [of _ "[crash, crash, crash]"] exI [of _ st]) simp
  then have "start_step listen_ok (start_begin three_adapter)
      ((start_begin three_adapter)\<lparr>sr_main := AwaitWebhook (Some e), sr_adapter := lp_adapter st\<rparr>)"
    by (intro start_step.loop_ends) (simp_all add: start_begin_def)
  then show ?thesis by blast
qed

theorem Start_waits_for_cancellation_witness:
  "\<exists>r e. (start_step listen_ok)\<^sup>*\<^sup>* (start_begin three_adapter) r \<and> sr_main r = AwaitWebhook (Some e)
     \<and> (\<forall>r'. (start_step listen_ok)\<^sup>*\<^sup>* r r' \<longrightarrow> \<not> sr_cancelled r' \<longrightarrow> sr_main r' \<noteq> StartReturned (Some e))"
proof -
  obtain e a' where step: "start_step listen_ok (start_begin three_adapter)
      ((start_begin three_adapter)\<lparr>sr_main := AwaitWebhook (Some e), sr_adapter := a'\<rparr>)" (is "start_step _ _ ?r")
    using entered_gives_up by blast
  obtain w w' where "ad_webhook three_adapter = Some w" "Webhook_Start_begin listen_ok w = (None, w')"
    using entered_hook by blast
  note never = Start_waits_for_cancellation [OF _ _ this]
  have "sr_main r' \<noteq> StartReturned (Some e)" if "(start_step listen_ok)\<^sup>*\<^sup>* ?r r'" "\<not> sr_cancelled r'" for r'
    by (rule never [OF _ that(2)]) (rule converse_rtranclp_into_rtranclp [of "start_step listen_ok", OF step that(1)])
  moreover have "(start_step listen_ok)\<^sup>*\<^sup>* (start_begin three_adapter) ?r"
    by (rule r_into_rtranclp [of "start_step listen_ok"]) (rule step)
  ultimately show ?thesis by (intro exI [of _ ?r] exI [of _ e]) simp
qed

lemma entered_cancelled:
  "(start_step listen_ok)\<^sup>*\<^sup>* (start_begin three_adapter) ((start_begin three_adapter)\<lparr>sr_cancelled := True\<rparr>)"
  by (rule r_into_rtranclp [of "start_step listen_ok"]) (rule start_step.cancel)


lemma entered_returns:
  "\<exists>r res. (start_step listen_ok)\<^sup>*\<^sup>* (start_begin three_adapter) r \<and> sr_main r = StartReturned res"
proof -
  let ?r0 = "(start_begin three_adapter)\<lparr>sr_cancelled := True\<rparr>"
  let ?r1 = "?r0\<lparr>sr_main := AwaitWebhook None, sr_adapter := snd (stopProcess True three_adapter)\<rparr>"
  have lr: "loop_returns True three_adapter None (snd (stopProcess True three_adapter))" by (rule loop_can_return)
  then have l: "start_step listen_ok ?r0 ?r1"
    by (intro start_step.loop_ends) (simp_all add: start_begin_def)
  obtain w where "ad_webhook (snd (stopProcess True three_adapter)) = Some w"
    using loop_returns_frame [OF lr] entered_facts(3) [OF three_entered(1)] by auto
  then obtain r where "(start_step listen_ok)\<^sup>*\<^sup>* ?r1 r" "sr_main r = StartReturned None"
    using await_can_return [of ?r1 None w listen_ok] by auto
  moreover have "(start_step listen_ok)\<^sup>*\<^sup>* (start_begin three_adapter) ?r1"
    using entered_cancelled l by (rule rtranclp.rtrancl_into_rtrancl)
  ultimately show ?thesis by (meson rtranclp_trans)
qed

theorem Start_return_means_witness:
  "\<exists>(r :: start_run) res e. sr_main r = StartReturned res \<and> sr_hook r = HookReported e
     \<and> Stop_wait Background 0 True (sr_adapter r) = Some None"
proof -
  obtain r res where r: "(start_step listen_ok)\<^sup>*\<^sup>* (start_begin three_adapter) r" "sr_main r = StartReturned res"
    using entered_returns by blast
  from Start_return_means [OF three_entered r, of 0 True] r(2) show ?thesis by blast
qed

section \<open>A webhook server that cannot start\<close>

lemma failed_hook_frame:
  "Webhook_Start_begin listen w = (Some e, w') \<Longrightarrow> ActiveConnections w' = ActiveConnections w"
  by (auto simp: Webhook_Start_begin_def ActiveConnections_def Let_def split: option.splits sum.splits if_splits)

lemma reported_stays:
  assumes "(start_step listen)\<^sup>*\<^sup>* r r'" and "sr_hook r = HookReported x"
  shows "sr_hook r' = HookReported x"
  using assms(1)
proof (induction rule: rtranclp_induct)
  case (step y z)
  from step.hyps(2) step.IH show ?case by (cases rule: start_step.cases) auto
qed (rule assms(2))

text \<open>
  C24. A webhook server that cannot be started (its address is taken, say) goes unnoticed: the
  failure is reported to a channel nobody reads before the end, the restart loop keeps running
  frpc without it, the webhook server is never tried again, \<open>Status\<close> reports what it reported
  before, and \<open>Start\<close> returns whatever the loop returns, without the webhook server's error.
\<close>

theorem webhook_failure_unnoticed:
  assumes "ad_webhook a = Some w" and "Webhook_Start_begin listen w = (Some e, w')"
  shows "\<exists>r. start_step listen (start_begin a) r \<and> sr_main r = InLoop \<and> \<not> sr_cancelled r
    \<and> Adapter_Status now alive (sr_adapter r) = Adapter_Status now alive a
    \<and> (\<forall>r'. (start_step listen)\<^sup>*\<^sup>* r r' \<longrightarrow> sr_hook r' = HookReported (Some e))
    \<and> (\<forall>res a'. loop_returns False (sr_adapter r) res a' \<longrightarrow>
         (\<exists>r'. (start_step listen)\<^sup>*\<^sup>* r r' \<and> sr_main r' = StartReturned res))"
proof -
  let ?r = "(start_begin a)\<lparr>sr_hook := HookReported (Some e), sr_adapter := a\<lparr>ad_webhook := Some w'\<rparr>\<rparr>"
  have step: "start_step listen (start_begin a) ?r"
    using start_step.hook_fails [of "start_begin a" w listen e w'] assms by (simp add: start_begin_def)
  have status: "Adapter_Status now alive (sr_adapter ?r) = Adapter_Status now alive a"
    using assms(1) failed_hook_frame [OF assms(2)] by (simp add: Adapter_Status_def isProcessRunning_def)
  have ret: "\<exists>r'. (start_step listen)\<^sup>*\<^sup>* ?r r' \<and> sr_main r' = StartReturned res"
    if "loop_returns False (sr_adapter ?r) res a'" for res a'
  proof -
    let ?r1 = "?r\<lparr>sr_main := AwaitWebhook res, sr_adapter := a'\<rparr>"
    have "start_step listen ?r ?r1"
      using that by (intro start_step.loop_ends) (simp_all add: start_begin_def)
    moreover have "start_step listen ?r1 (?r1\<lparr>sr_main := StartReturned res, sr_adapter := a'\<lparr>ad_done := True\<rparr>\<rparr>)"
      using start_step.returns [of ?r1 res "Some e" listen] by simp
    ultimately have "(start_step listen)\<^sup>*\<^sup>* ?r (?r1\<lparr>sr_main := StartReturned res, sr_adapter := a'\<lparr>ad_done := True\<rparr>\<rparr>)"
      by (meson converse_rtranclp_into_rtranclp r_into_rtranclp)
    then show ?thesis
      by (intro exI [of _ "?r1\<lparr>sr_main := StartReturned res, sr_adapter := a'\<lparr>ad_done := True\<rparr>\<rparr>"]) simp
  qed
  show ?thesis
    using step status ret reported_stays [of listen ?r] by (intro exI [of _ ?r]) (simp add: start_begin_def)
qed

definition listen_busy :: "string \<Rightarrow> string + string" where
  "listen_busy addr = Inl ''address already in use''"

theorem webhook_failure_unnoticed_witness:
  "\<exists>r e. start_step listen_busy (start_begin three_adapter) r \<and> sr_main r = InLoop
     \<and> (\<forall>r'. (start_step listen_busy)\<^sup>*\<^sup>* r r' \<longrightarrow> sr_hook r' = HookReported (Some e))"
proof -
  obtain w w' e where "ad_webhook three_adapter = Some w" "Webhook_Start_begin listen_busy w = (Some e, w')"
    using three_webhook by (auto simp: Webhook_Start_begin_def listen_busy_def Let_def)
  from webhook_failure_unnoticed [OF this] show ?thesis by blast
qed

end
