(* ===== verification/Tunnel.thy ===== *)
theory Tunnel
  imports Go_Url
begin

text \<open>
  The tunnel manager and its dialers (\<open>pkg/tunnel/manager.go\<close>, \<open>pkg/tunnel/dialer.go\<close>).
  An operation takes the instants of its clock readings as an argument and returns its error and
  the manager afterwards. The interface the daemon relies on is the locale
  \<open>tunnel_controller\<close>; the manager interprets it. Shown: the maps stay keyed by target
  name under every interleaving of critical sections, opening and closing are inverse on the set
  of open tunnels, listings are exact and sorted, a registered target does not survive a refresh,
  and how addresses resolve.
\<close>

section \<open>Targets, sources and dialers\<close>

record Target =
  t_Name :: string
  t_Address :: string
  t_Protocol :: string
  t_Labels :: "string list"
  t_Description :: string

record activeTunnel =
  at_target :: Target
  at_openedAt :: instant

text \<open>
  Errors by their origin; \<open>ExternalError\<close> is one of the network or of a custom source or
  dialer, by its text. \<open>NilDialer\<close> is not an error value: the call panics.
\<close>

datatype tunnel_error =
    CtxError ctx_error
  | SourceNotConfigured
  | NotRegistered string
  | NoActiveTunnel string
  | MissingAddress string
  | MissingPortIn string string
  | BadUrl string url_error
  | ExternalError string
  | NilDialer

fun tunnel_error_text :: "(string \<Rightarrow> url_error \<Rightarrow> string) \<Rightarrow> tunnel_error \<Rightarrow> string" where
  "tunnel_error_text url_text (CtxError e) = ctx_error_text e"
| "tunnel_error_text url_text SourceNotConfigured = ''tunnel manager source not configured''"
| "tunnel_error_text url_text (NotRegistered n) = ''target '' @ n @ '' is not registered''"
| "tunnel_error_text url_text (NoActiveTunnel n) = ''no active tunnel for '' @ n"
| "tunnel_error_text url_text (MissingAddress n) = ''target '' @ n @ '' is missing address''"
| "tunnel_error_text url_text (MissingPortIn n a) = ''target '' @ n @ '' missing port in address '' @ a"
| "tunnel_error_text url_text (BadUrl a e) = url_text a e"
| "tunnel_error_text url_text (ExternalError s) = s"
| "tunnel_error_text url_text NilDialer = []"

type_synonym Source = "go_ctx \<Rightarrow> instant \<Rightarrow> tunnel_error + Target list"
type_synonym Dialer = "go_ctx \<Rightarrow> instant \<Rightarrow> Target \<Rightarrow> tunnel_error option"

definition StaticSource_Targets :: "Target list \<Rightarrow> Source" where
  "StaticSource_Targets ts ctx t = (case ctx_Err ctx t of Some e \<Rightarrow> Inl (CtxError e) | None \<Rightarrow> Inr ts)"

definition DialerFunc_Connect :: "Dialer \<Rightarrow> Dialer" where
  "DialerFunc_Connect f ctx t target = f ctx t target"

text \<open>
  The select of \<open>SimulatedDialer\<close> is taken at the first instant at which one of its cases is
  ready; \<open>prefer_timer\<close> is the choice when both become ready at once.
\<close>

definition SimulatedDialer_Connect :: "bool \<Rightarrow> Dialer" where
  "SimulatedDialer_Connect prefer_timer ctx t target =
     (let timer = t + 20 * Millisecond
      in case ctx of
           None \<Rightarrow> None
         | Some (d, e) \<Rightarrow> if d < timer \<or> (d = timer \<and> \<not> prefer_timer) then Some (CtxError e) else None)"

section \<open>Network addresses\<close>

definition ResolveNetworkAddr :: "Target \<Rightarrow> tunnel_error + (string \<times> string)" where
  "ResolveNetworkAddr t =
     (if t_Address t = [] then Inl (MissingAddress (t_Name t))
      else
        let addr = (if \<not> Contains (t_Address t) ''://'' then ''tcp://'' @ t_Address t else t_Address t)
        in (case url_Parse addr of
              Inl e \<Rightarrow> Inl (BadUrl addr e)
            | Inr (scheme, host) \<Rightarrow>
                if \<not> Contains host '':'' \<and> url_Port host = [] then Inl (MissingPortIn (t_Name t) (t_Address t))
                else
                  let n1 = (if scheme = [] then ''tcp'' else scheme);
                      n2 = (if n1 = ''grpcs'' \<or> n1 = ''https'' then ''tcp'' else n1);
                      n3 = (if n2 = ''grpc'' \<or> n2 = ''http'' then ''tcp'' else n2)
                  in Inr (n3, host)))"

text \<open>
  \<open>dial\<close> stands for \<open>net.Dialer.DialContext\<close> (timeout 0 is none): an error text, or a
  connection with the result of closing it.
\<close>

definition TCPDialer_Connect ::
  "(go_ctx \<Rightarrow> instant \<Rightarrow> duration \<Rightarrow> string \<Rightarrow> string \<Rightarrow> string + string option) \<Rightarrow> duration \<Rightarrow> Dialer" where
  "TCPDialer_Connect dial timeout ctx t target =
     (case ResolveNetworkAddr target of
        Inl e \<Rightarrow> Some e
      | Inr (network, addr) \<Rightarrow>
          let nd_Timeout = (if timeout > 0 then timeout else 0)
          in (case dial ctx t nd_Timeout network addr of
                Inl err \<Rightarrow> Some (ExternalError err)
              | Inr close_err \<Rightarrow> map_option ExternalError close_err))"

section \<open>The manager\<close>

record Manager =
  mg_targets :: "(string, Target) gomap"
  mg_active :: "(string, activeTunnel) gomap"
  mg_source :: "Source option"
  mg_dialer :: "Dialer option"
  mg_refreshInterval :: duration
  mg_lastRefresh :: instant

type_synonym manager_option = "Manager \<Rightarrow> Manager"

definition WithSource :: "Source option \<Rightarrow> manager_option" where
  "WithSource s m = m\<lparr>mg_source := s\<rparr>"

definition WithDialer :: "Dialer option \<Rightarrow> manager_option" where
  "WithDialer d m = m\<lparr>mg_dialer := d\<rparr>"

definition WithRefreshInterval :: "duration \<Rightarrow> manager_option" where
  "WithRefreshInterval i m = (if i > 0 then m\<lparr>mg_refreshInterval := i\<rparr> else m)"

definition NewManager :: "Target list \<Rightarrow> manager_option list \<Rightarrow> Manager" where
  "NewManager seed opts =
     (let m0 = \<lparr>mg_targets = [], mg_active = [], mg_source = Some (StaticSource_Targets seed),
                mg_dialer = Some (SimulatedDialer_Connect True), mg_refreshInterval = 30 * Second,
                mg_lastRefresh = zero_time\<rparr>;
          m1 = fold (\<lambda>opt m. opt m) opts m0
      in m1\<lparr>mg_targets := store_all t_Name seed (mg_targets m1)\<rparr>)"

definition demo_targets :: "Target list" where
  "demo_targets =
     [\<lparr>t_Name = ''demo-service'', t_Address = ''tcp://127.0.0.1:9000'', t_Protocol = ''grpc'', t_Labels = [],
       t_Description = ''Sample echo service''\<rparr>,
      \<lparr>t_Name = ''logs-gateway'', t_Address = ''tcp://127.0.0.1:9001'', t_Protocol = ''https'', t_Labels = [],
       t_Description = ''Structured log shipper''\<rparr>,
      \<lparr>t_Name = ''metrics-api'', t_Address = ''tcp://127.0.0.1:9002'', t_Protocol = ''grpc'', t_Labels = [],
       t_Description = ''Prometheus-compatible adapter''\<rparr>]"

definition NewDefaultManager :: Manager where
  "NewDefaultManager = NewManager demo_targets []"

definition RegisterTarget :: "Target \<Rightarrow> Manager \<Rightarrow> Manager" where
  "RegisterTarget t m = m\<lparr>mg_targets := AList.update (t_Name t) t (mg_targets m)\<rparr>"

text \<open>The clock readings of an operation, in the order the code takes them.\<close>

record op_clock =
  ck_check :: instant
  ck_since :: instant
  ck_source :: instant
  ck_refreshed :: instant
  ck_dial :: instant
  ck_opened :: instant

definition ensureTargets :: "op_clock \<Rightarrow> go_ctx \<Rightarrow> Manager \<Rightarrow> tunnel_error option \<times> Manager" where
  "ensureTargets ck ctx m =
     (case ctx_Err ctx (ck_check ck) of
        Some e \<Rightarrow> (Some (CtxError e), m)
      | None \<Rightarrow>
          (case mg_source m of
             None \<Rightarrow> (Some SourceNotConfigured, m)
           | Some source \<Rightarrow>
               if time_Sub (ck_since ck) (mg_lastRefresh m) < mg_refreshInterval m then (None, m)
               else (case source ctx (ck_source ck) of
                       Inl e \<Rightarrow> (Some e, m)
                     | Inr ts \<Rightarrow>
                         (None, m\<lparr>mg_targets := store_all t_Name ts [], mg_lastRefresh := ck_refreshed ck\<rparr>))))"

text \<open>The second critical section of \<open>Open\<close>, and \<open>Open\<close>.\<close>

definition open_locked :: "op_clock \<Rightarrow> go_ctx \<Rightarrow> string \<Rightarrow> Manager \<Rightarrow> tunnel_error option \<times> Manager" where
  "open_locked ck ctx target m =
     (case map_of (mg_targets m) target of
        None \<Rightarrow> (Some (NotRegistered target), m)
      | Some info \<Rightarrow>
          (case mg_dialer m of
             None \<Rightarrow> (Some NilDialer, m)
           | Some dialer \<Rightarrow>
               (case dialer ctx (ck_dial ck) info of
                  Some e \<Rightarrow> (Some e, m)
                | None \<Rightarrow>
                    (None, m\<lparr>mg_active := AList.update target \<lparr>at_target = info, at_openedAt = ck_opened ck\<rparr> (mg_active m)\<rparr>))))"

definition Manager_Open :: "op_clock \<Rightarrow> go_ctx \<Rightarrow> string \<Rightarrow> Manager \<Rightarrow> tunnel_error option \<times> Manager" where
  "Manager_Open ck ctx target m =
     (case ensureTargets ck ctx m of
        (Some e, m') \<Rightarrow> (Some e, m')
      | (None, m') \<Rightarrow> open_locked ck ctx target m')"

definition Manager_Close :: "op_clock \<Rightarrow> go_ctx \<Rightarrow> string \<Rightarrow> Manager \<Rightarrow> tunnel_error option \<times> Manager" where
  "Manager_Close ck ctx target m =
     (case ctx_Err ctx (ck_check ck) of
        Some e \<Rightarrow> (Some (CtxError e), m)
      | None \<Rightarrow>
          if map_of (mg_active m) target = None then (Some (NoActiveTunnel target), m)
          else (None, m\<lparr>mg_active := AList.delete target (mg_active m)\<rparr>))"

definition list_locked :: "Manager \<Rightarrow> string list" where
  "list_locked m = sort (map_keys (mg_targets m))"

definition Manager_ListTargets :: "op_clock \<Rightarrow> go_ctx \<Rightarrow> Manager \<Rightarrow> (tunnel_error + string list) \<times> Manager" where
  "Manager_ListTargets ck ctx m =
     (case ensureTargets ck ctx m of
        (Some e, m') \<Rightarrow> (Inl e, m')
      | (None, m') \<Rightarrow> (Inr (list_locked m'), m'))"

section \<open>The interface of a tunnel controller\<close>

text \<open>
  What the daemon's servers use (\<open>tunnelController\<close> in \<open>cmd/cloudtapd/main.go\<close>):
  \<open>is_open\<close> is the set of open tunnels, \<open>alive\<close> says that the context is not done at the
  readings of the call.
\<close>

locale tunnel_controller =
  fixes open_op :: "'c \<Rightarrow> go_ctx \<Rightarrow> string \<Rightarrow> 'm \<Rightarrow> tunnel_error option \<times> 'm"
    and close_op :: "'c \<Rightarrow> go_ctx \<Rightarrow> string \<Rightarrow> 'm \<Rightarrow> tunnel_error option \<times> 'm"
    and list_op :: "'c \<Rightarrow> go_ctx \<Rightarrow> 'm \<Rightarrow> (tunnel_error + string list) \<times> 'm"
    and is_open :: "'m \<Rightarrow> string \<Rightarrow> bool"
    and alive :: "'c \<Rightarrow> go_ctx \<Rightarrow> bool"
    and ok :: "'m \<Rightarrow> bool"
  assumes open_opens: "ok m \<Longrightarrow> open_op c ctx n m = (None, m') \<Longrightarrow> is_open m' k \<longleftrightarrow> k = n \<or> is_open m k"
    and open_fails: "ok m \<Longrightarrow> open_op c ctx n m = (Some e, m') \<Longrightarrow> is_open m' k \<longleftrightarrow> is_open m k"
    and close_closes: "close_op c ctx n m = (None, m') \<Longrightarrow>
      is_open m n \<and> (is_open m' k \<longleftrightarrow> k \<noteq> n \<and> is_open m k)"
    and close_fails: "close_op c ctx n m = (Some e, m') \<Longrightarrow> m' = m"
    and close_possible: "alive c ctx \<Longrightarrow> is_open m n \<Longrightarrow> \<exists>m'. close_op c ctx n m = (None, m')"
    and close_refused: "alive c ctx \<Longrightarrow> \<not> is_open m n \<Longrightarrow> close_op c ctx n m = (Some (NoActiveTunnel n), m)"
    and list_frame: "ok m \<Longrightarrow> list_op c ctx m = (rl, m') \<Longrightarrow> is_open m' k \<longleftrightarrow> is_open m k"
    and list_sorted: "ok m \<Longrightarrow> list_op c ctx m = (Inr ns, m') \<Longrightarrow> sorted ns \<and> distinct ns"
    and ok_open: "ok m \<Longrightarrow> open_op c ctx n m = (r, m') \<Longrightarrow> ok m'"
    and ok_close: "ok m \<Longrightarrow> close_op c ctx n m = (r, m') \<Longrightarrow> ok m'"
    and ok_list: "ok m \<Longrightarrow> list_op c ctx m = (rl, m') \<Longrightarrow> ok m'"
begin

lemma close_after_open:
  assumes "ok m" and "open_op c ctx n m = (None, m1)" and "alive c2 ctx2"
  obtains m2 where "close_op c2 ctx2 n m1 = (None, m2)" and "\<And>k. is_open m2 k \<longleftrightarrow> k \<noteq> n \<and> is_open m k"
  using close_possible [OF assms(3), of m1 n] open_opens [OF assms(1,2)] close_closes by metis

lemma close_twice:
  assumes "close_op c ctx n m = (None, m1)" and "alive c2 ctx2"
  shows "close_op c2 ctx2 n m1 = (Some (NoActiveTunnel n), m1)"
  using close_refused [OF assms(2), of m1 n] close_closes [OF assms(1), of n] by blast

end

section \<open>The manager's invariant\<close>

text \<open>Both maps are proper and every entry is filed under its target's name.\<close>

definition manager_inv :: "Manager \<Rightarrow> bool" where
  "manager_inv m \<longleftrightarrow>
     map_ok (mg_targets m) \<and> map_ok (mg_active m)
     \<and> (\<forall>n t. map_of (mg_targets m) n = Some t \<longrightarrow> t_Name t = n)
     \<and> (\<forall>n a. map_of (mg_active m) n = Some a \<longrightarrow> t_Name (at_target a) = n)"

lemma store_all_keyed:
  assumes "map_of (store_all key xs []) n = Some x"
  shows "key x = n" and "x \<in> set xs"
  using assms by (auto simp: store_all_get find_Some_iff split: option.splits) (metis nth_mem set_rev length_rev)

lemma store_all_keyed_onto:
  assumes "\<forall>n x. map_of m n = Some x \<longrightarrow> key x = n"
  shows "map_of (store_all key xs m) n = Some x \<Longrightarrow> key x = n"
  using assms by (induction xs arbitrary: m) (auto simp: go_map_simps split: if_splits)

lemma manager_inv_register: "manager_inv m \<Longrightarrow> manager_inv (RegisterTarget t m)"
  by (simp add: manager_inv_def RegisterTarget_def gm.ok_put map_of_update_eq)

lemma manager_inv_ensure: "manager_inv m \<Longrightarrow> ensureTargets ck ctx m = (r, m') \<Longrightarrow> manager_inv m'"
  by (auto simp: ensureTargets_def manager_inv_def store_all_ok gm.ok_empty dest: store_all_keyed(1)
      split: option.splits if_splits sum.splits)

lemma manager_inv_open: "manager_inv m \<Longrightarrow> open_locked ck ctx n m = (r, m') \<Longrightarrow> manager_inv m'"
  by (auto simp: open_locked_def manager_inv_def gm.ok_put map_of_update_eq split: option.splits if_splits)

lemma manager_inv_close: "manager_inv m \<Longrightarrow> Manager_Close ck ctx n m = (r, m') \<Longrightarrow> manager_inv m'"
  by (auto simp: Manager_Close_def manager_inv_def gm.ok_del map_of_delete_eq split: option.splits if_splits)

lemma Manager_Open_cases:
  assumes "Manager_Open ck ctx n m = (r, m')"
  obtains e where "ensureTargets ck ctx m = (Some e, m')" "r = Some e"
  | m1 where "ensureTargets ck ctx m = (None, m1)" "open_locked ck ctx n m1 = (r, m')"
  using assms by (auto simp: Manager_Open_def split: prod.splits option.splits)

lemma Manager_ListTargets_cases:
  assumes "Manager_ListTargets ck ctx m = (r, m')"
  obtains e where "ensureTargets ck ctx m = (Some e, m')" "r = Inl e"
  | "ensureTargets ck ctx m = (None, m')" "r = Inr (list_locked m')"
  using assms by (auto simp: Manager_ListTargets_def split: prod.splits option.splits)

lemma ensureTargets_active: "ensureTargets ck ctx m = (r, m') \<Longrightarrow> mg_active m' = mg_active m"
  by (auto simp: ensureTargets_def split: option.splits if_splits sum.splits)

definition tunnel_open :: "Manager \<Rightarrow> string \<Rightarrow> bool" where
  "tunnel_open m n \<longleftrightarrow> map_of (mg_active m) n \<noteq> None"

lemma ensureTargets_tunnel_open: "ensureTargets ck ctx m = (r, m') \<Longrightarrow> tunnel_open m' = tunnel_open m"
  by (simp add: tunnel_open_def fun_eq_iff ensureTargets_active)

lemma open_locked_tunnel_open:
  "open_locked ck ctx n m = (None, m') \<Longrightarrow> tunnel_open m' k = (k = n \<or> tunnel_open m k)"
  "open_locked ck ctx n m = (Some e, m') \<Longrightarrow> m' = m"
  by (auto simp: open_locked_def tunnel_open_def map_of_update_eq split: option.splits if_splits)

lemma Manager_Close_spec:
  "Manager_Close ck ctx n m = (None, m') \<Longrightarrow> tunnel_open m n \<and> tunnel_open m' k = (k \<noteq> n \<and> tunnel_open m k)"
  "Manager_Close ck ctx n m = (Some e, m') \<Longrightarrow> m' = m"
  "ctx_Err ctx (ck_check ck) = None \<Longrightarrow> tunnel_open m n \<Longrightarrow> \<exists>m'. Manager_Close ck ctx n m = (None, m')"
  "ctx_Err ctx (ck_check ck) = None \<Longrightarrow> \<not> tunnel_open m n \<Longrightarrow> Manager_Close ck ctx n m = (Some (NoActiveTunnel n), m)"
  by (auto simp: Manager_Close_def tunnel_open_def map_of_delete_eq split: option.splits if_splits)

interpretation mgr: tunnel_controller Manager_Open Manager_Close Manager_ListTargets
  tunnel_open "\<lambda>ck ctx. ctx_Err ctx (ck_check ck) = None" manager_inv
proof unfold_locales
  fix m m' :: Manager and c ctx n k
  show "Manager_Open c ctx n m = (None, m') \<Longrightarrow> tunnel_open m' k = (k = n \<or> tunnel_open m k)"
    by (erule Manager_Open_cases) (simp_all add: open_locked_tunnel_open(1) ensureTargets_tunnel_open)
next
  fix m m' :: Manager and c ctx n k e
  show "Manager_Open c ctx n m = (Some e, m') \<Longrightarrow> tunnel_open m' k = tunnel_open m k"
    by (erule Manager_Open_cases) (auto simp: ensureTargets_tunnel_open dest: open_locked_tunnel_open(2))
next
  fix m m' :: Manager and c ctx n r
  show "manager_inv m \<Longrightarrow> Manager_Open c ctx n m = (r, m') \<Longrightarrow> manager_inv m'"
    by (erule Manager_Open_cases) (auto intro: manager_inv_ensure manager_inv_open)
next
  fix m m' :: Manager and c ctx r k
  show "Manager_ListTargets c ctx m = (r, m') \<Longrightarrow> tunnel_open m' k = tunnel_open m k"
    by (erule Manager_ListTargets_cases) (simp_all add: ensureTargets_tunnel_open)
next
  fix m m' :: Manager and c ctx rl
  show "manager_inv m \<Longrightarrow> Manager_ListTargets c ctx m = (rl, m') \<Longrightarrow> manager_inv m'"
    by (erule Manager_ListTargets_cases) (auto intro: manager_inv_ensure)
next
  fix m m' :: Manager and c ctx ns
  assume inv: "manager_inv m" and "Manager_ListTargets c ctx m = (Inr ns, m')"
  then have "ns = list_locked m'" "manager_inv m'"
    by (auto elim!: Manager_ListTargets_cases intro: manager_inv_ensure)
  then show "sorted ns \<and> distinct ns"
    by (simp add: list_locked_def manager_inv_def gm.keys_distinct)
qed (fact Manager_Close_spec manager_inv_close)+

section \<open>Properties\<close>

lemma manager_inv_seed:
  assumes "manager_inv m"
  shows "manager_inv (m\<lparr>mg_targets := store_all t_Name seed (mg_targets m)\<rparr>)"
proof -
  have "\<forall>n t. map_of (mg_targets m) n = Some t \<longrightarrow> t_Name t = n"
    using assms unfolding manager_inv_def by blast
  note keyed = store_all_keyed_onto [OF this, of seed]
  let ?m = "m\<lparr>mg_targets := store_all t_Name seed (mg_targets m)\<rparr>"
  have "mg_targets ?m = store_all t_Name seed (mg_targets m)" "mg_active ?m = mg_active m" by simp_all
  with keyed assms store_all_ok show ?thesis unfolding manager_inv_def by metis
qed

lemma manager_inv_options:
  "manager_inv m \<Longrightarrow> manager_inv (WithSource src m)" "manager_inv m \<Longrightarrow> manager_inv (WithDialer dl m)"
  "manager_inv m \<Longrightarrow> manager_inv (WithRefreshInterval i m)"
  by (simp_all add: WithSource_def WithDialer_def WithRefreshInterval_def manager_inv_def)

lemma NewManager_inv: "manager_inv (NewManager seed [WithSource src, WithDialer dl, WithRefreshInterval i])"
  unfolding NewManager_def Let_def fold_simps o_def id_apply
  by (intro manager_inv_seed manager_inv_options) (simp add: manager_inv_def gm.ok_empty)

text \<open>The critical sections that change the manager; operations of several callers interleave at these.\<close>

datatype manager_action =
    EnsureAction op_clock go_ctx
  | OpenAction op_clock go_ctx string
  | CloseAction op_clock go_ctx string
  | RegisterAction Target

fun apply_action :: "manager_action \<Rightarrow> Manager \<Rightarrow> Manager" where
  "apply_action (EnsureAction ck ctx) m = snd (ensureTargets ck ctx m)"
| "apply_action (OpenAction ck ctx n) m = snd (open_locked ck ctx n m)"
| "apply_action (CloseAction ck ctx n) m = snd (Manager_Close ck ctx n m)"
| "apply_action (RegisterAction t) m = RegisterTarget t m"

lemma apply_action_inv: "manager_inv m \<Longrightarrow> manager_inv (apply_action act m)"
  using manager_inv_ensure [OF _ surjective_pairing] manager_inv_open [OF _ surjective_pairing]
    manager_inv_close [OF _ surjective_pairing]
  by (cases act) (simp_all add: manager_inv_register)

text \<open>
  C14. However the critical sections of concurrent \<open>Open\<close>, \<open>Close\<close>, \<open>ListTargets\<close> and
  \<open>RegisterTarget\<close> calls interleave, and whatever source and dialer do, the manager keeps its
  invariant: every known target and every active tunnel is filed once, under its own name.
\<close>

theorem manager_inv_interleaved:
  "manager_inv (fold apply_action acts (NewManager seed [WithSource src, WithDialer dl, WithRefreshInterval i]))"
proof -
  have "manager_inv m \<Longrightarrow> manager_inv (fold apply_action acts m)" for m
    by (induction acts arbitrary: m) (simp_all add: apply_action_inv)
  then show ?thesis using NewManager_inv by blast
qed

text \<open>
  C9. Opening and closing: after a successful \<open>Open\<close> the tunnel and only it is newly open, a
  \<open>Close\<close> under a live context succeeds and restores the set of open tunnels (minus this
  one), and closing again fails with \<open>no active tunnel\<close> and changes nothing.
\<close>

theorem open_close_cycle:
  assumes "manager_inv m" and "Manager_Open ck ctx n m = (None, m1)"
    and "ctx_Err ctx2 (ck_check ck2) = None" and "ctx_Err ctx3 (ck_check ck3) = None"
  shows "(\<forall>k. tunnel_open m1 k \<longleftrightarrow> k = n \<or> tunnel_open m k)
    \<and> (\<exists>m2. Manager_Close ck2 ctx2 n m1 = (None, m2) \<and> (\<forall>k. tunnel_open m2 k \<longleftrightarrow> k \<noteq> n \<and> tunnel_open m k)
         \<and> Manager_Close ck3 ctx3 n m2 = (Some (NoActiveTunnel n), m2))"
  using mgr.open_opens [OF assms(1,2)] mgr.close_after_open [OF assms(1-3)] mgr.close_twice [OF _ assms(4)]
  by metis

text \<open>A clock in the present century, and a live run of \<open>Open\<close>.\<close>

definition now_clock :: op_clock where
  "now_clock = (let t = time_Unix 1700000000 in
     \<lparr>ck_check = t, ck_since = t, ck_source = t, ck_refreshed = t, ck_dial = t, ck_opened = t\<rparr>)"

lemma default_manager_open:
  "\<exists>m1. Manager_Open now_clock Background ''demo-service'' NewDefaultManager = (None, m1)"
  by (simp add: Manager_Open_def ensureTargets_def open_locked_def NewDefaultManager_def NewManager_def Let_def
      demo_targets_def StaticSource_Targets_def SimulatedDialer_Connect_def map_of_update_eq split: option.split)

lemma default_manager_inv: "manager_inv NewDefaultManager"
  unfolding NewDefaultManager_def NewManager_def Let_def fold_simps
  by (rule manager_inv_seed) (simp add: manager_inv_def gm.ok_empty)

theorem open_close_cycle_witness:
  "\<exists>m1 m2. Manager_Open now_clock Background ''demo-service'' NewDefaultManager = (None, m1)
     \<and> Manager_Close now_clock Background ''demo-service'' m1 = (None, m2)
     \<and> Manager_Close now_clock Background ''demo-service'' m2 = (Some (NoActiveTunnel ''demo-service''), m2)"
proof -
  obtain m1 where "Manager_Open now_clock Background ''demo-service'' NewDefaultManager = (None, m1)"
    using default_manager_open by blast
  with open_close_cycle [OF default_manager_inv this, of Background now_clock Background now_clock] show ?thesis
    by auto
qed

lemma refresh_due:
  assumes "ctx_Err ctx (ck_check ck) = None" and "mg_source m = Some src"
    and "mg_refreshInterval m \<le> time_Sub (ck_since ck) (mg_lastRefresh m)" and "src ctx (ck_source ck) = Inr ts"
  shows "ensureTargets ck ctx m = (None, m\<lparr>mg_targets := store_all t_Name ts [], mg_lastRefresh := ck_refreshed ck\<rparr>)"
  using assms by (simp add: ensureTargets_def)

text \<open>
  C28. \<open>ListTargets\<close> answers with the names of the targets in strictly ascending order: when a
  refresh is due, exactly the names the source returns (each once, even if the source repeats
  one); otherwise the cached ones, without asking the source.
\<close>

theorem ListTargets_exact:
  assumes "manager_inv m" and "ctx_Err ctx (ck_check ck) = None" and "mg_source m = Some src"
  shows "if time_Sub (ck_since ck) (mg_lastRefresh m) < mg_refreshInterval m
     then \<exists>ns. Manager_ListTargets ck ctx m = (Inr ns, m) \<and> sorted_wrt (<) ns \<and> set ns = set (map_keys (mg_targets m))
     else (case src ctx (ck_source ck) of
             Inl e \<Rightarrow> Manager_ListTargets ck ctx m = (Inl e, m)
           | Inr ts \<Rightarrow> \<exists>ns m'. Manager_ListTargets ck ctx m = (Inr ns, m') \<and> sorted_wrt (<) ns \<and> set ns = t_Name ` set ts)"
proof (cases "time_Sub (ck_since ck) (mg_lastRefresh m) < mg_refreshInterval m")
  case True
  then show ?thesis
    using assms by (simp add: Manager_ListTargets_def ensureTargets_def list_locked_def strict_sorted_iff
        manager_inv_def gm.keys_distinct)
next
  case False
  then show ?thesis
    using assms refresh_due [of ctx ck m src]
    by (auto simp: Manager_ListTargets_def list_locked_def strict_sorted_iff gm.keys_distinct store_all_ok
        gm.ok_empty store_all_keys gm.set_keys_empty ensureTargets_def split: sum.split)
qed

theorem ListTargets_exact_witness:
  "\<exists>ns m'. Manager_ListTargets now_clock Background NewDefaultManager = (Inr ns, m') \<and> sorted_wrt (<) ns
     \<and> set ns = {''demo-service'', ''logs-gateway'', ''metrics-api''}"
proof -
  have src: "mg_source NewDefaultManager = Some (StaticSource_Targets demo_targets)"
      "mg_lastRefresh NewDefaultManager = 0" "mg_refreshInterval NewDefaultManager = 30 * Second"
    by (simp_all add: NewDefaultManager_def NewManager_def Let_def)
  have "\<not> time_Sub (ck_since now_clock) 0 < 30 * Second"
    by (simp add: now_clock_def time_Sub_def time_Unix_def wrap64_def Let_def Second_def Millisecond_def
        min_int64_def max_int64_def)
  with ListTargets_exact [OF default_manager_inv _ src(1), of Background now_clock] show ?thesis
    by (simp add: src StaticSource_Targets_def demo_targets_def)
qed

text \<open>
  C29. A target added with \<open>RegisterTarget\<close> is forgotten by the next refresh: with the
  default options the first \<open>Open\<close> on a manager (which always refreshes, since no refresh
  took place before) fails with \<open>not registered\<close> for a registered target that is not among
  the seeds.
\<close>

theorem registered_target_forgotten:
  assumes "t_Name t \<notin> t_Name ` set seed" and "ctx_Err ctx (ck_check ck) = None"
    and "ctx_Err ctx (ck_source ck) = None" and "30 * Second \<le> ck_since ck"
  shows "map_of (mg_targets (RegisterTarget t (NewManager seed []))) (t_Name t) = Some t
    \<and> fst (Manager_Open ck ctx (t_Name t) (RegisterTarget t (NewManager seed []))) = Some (NotRegistered (t_Name t))"
proof -
  let ?m = "RegisterTarget t (NewManager seed [])"
  have "30 * Second \<le> time_Sub (ck_since ck) 0"
    using assms(4) by (simp add: time_Sub_def Second_def Millisecond_def min_int64_def max_int64_def)
  then have "ensureTargets ck ctx ?m = (None, ?m\<lparr>mg_targets := store_all t_Name seed [], mg_lastRefresh := ck_refreshed ck\<rparr>)"
    using assms(2,3)
    by (intro refresh_due [of _ _ _ "StaticSource_Targets seed"])
      (simp_all add: RegisterTarget_def NewManager_def Let_def StaticSource_Targets_def)
  moreover have "map_of (store_all t_Name seed []) (t_Name t) = None"
  proof (rule ccontr)
    assume "map_of (store_all t_Name seed []) (t_Name t) \<noteq> None"
    then obtain x where "map_of (store_all t_Name seed []) (t_Name t) = Some x" by blast
    from store_all_keyed [OF this] assms(1) show False by (metis imageI)
  qed
  ultimately show ?thesis
    by (simp add: Manager_Open_def open_locked_def) (simp add: RegisterTarget_def map_of_update_eq)
qed

theorem registered_target_forgotten_witness:
  "fst (Manager_Open now_clock Background ''db''
     (RegisterTarget \<lparr>t_Name = ''db'', t_Address = ''10.0.0.5:5432'', t_Protocol = ''tcp'', t_Labels = [], t_Description = []\<rparr>
       (NewManager [] []))) = Some (NotRegistered ''db'')"
proof -
  have "30 * Second \<le> ck_since now_clock"
    by (simp add: now_clock_def time_Unix_def wrap64_def Let_def Second_def Millisecond_def)
  with registered_target_forgotten [of "\<lparr>t_Name = ''db'', t_Address = ''10.0.0.5:5432'', t_Protocol = ''tcp'',
      t_Labels = [], t_Description = []\<rparr>" "[]" Background now_clock] show ?thesis by simp
qed

section \<open>Resolving addresses\<close>

lemma index_string_here: "\<exists>i. index_string (p @ t) p = Some i"
proof (cases "p @ t")
  case (Cons d ds)
  have "HasPrefix (d # ds) p" unfolding Cons [symmetric] by (rule HasPrefix_append)
  with Cons show ?thesis by simp
qed simp

lemma Contains_append: "Contains (s @ p @ t) p"
  using index_string_here [of p t] by (induction s) (auto simp: Contains_def)

text \<open>
  An address without a scheme resolves as if \<open>tcp://\<close> stood before it.
\<close>

theorem ResolveNetworkAddr_default_scheme:
  assumes "\<not> Contains a ''://''" and "a \<noteq> []"
  shows "(\<forall>r. ResolveNetworkAddr (t\<lparr>t_Address := a\<rparr>) = Inr r \<longleftrightarrow> ResolveNetworkAddr (t\<lparr>t_Address := ''tcp://'' @ a\<rparr>) = Inr r)"
proof -
  have "Contains (''tcp://'' @ a) ''://''"
    using Contains_append [of "''tcp''" "''://''" a] by simp
  with assms show ?thesis
    by (auto simp: ResolveNetworkAddr_def Let_def split: sum.splits prod.splits)
qed

theorem ResolveNetworkAddr_default_scheme_witness:
  "ResolveNetworkAddr (hd demo_targets\<lparr>t_Address := ''h:1''\<rparr>) = Inr (''tcp'', ''h:1'')
   \<longleftrightarrow> ResolveNetworkAddr (hd demo_targets\<lparr>t_Address := ''tcp://'' @ ''h:1''\<rparr>) = Inr (''tcp'', ''h:1'')"
proof -
  have "\<not> Contains ''h:1'' ''://''" by code_simp
  from ResolveNetworkAddr_default_scheme [OF this, of "hd demo_targets"] show ?thesis by blast
qed

text \<open>
  C30. An address \<open>scheme://host:port\<close> with one of the schemes \<open>tcp\<close>, \<open>http\<close>,
  \<open>https\<close>, \<open>grpc\<close> and \<open>grpcs\<close>, a host of unreserved bytes and a decimal port resolves
  to the network \<open>tcp\<close> and \<open>host:port\<close>.
\<close>

theorem ResolveNetworkAddr_hostport:
  assumes "sch \<in> set schemes" and "plain_host h" and "list_all is_digit p"
    and "t_Address t = sch @ ''://'' @ h @ '':'' @ p"
  shows "ResolveNetworkAddr t = Inr (''tcp'', h @ '':'' @ p)"
proof -
  have "Contains (t_Address t) ''://''" using Contains_append assms(4) by metis
  moreover have "Contains (h @ '':'' @ p) '':''" by (rule Contains_append)
  moreover have "t_Address t \<noteq> []" using assms(4) by simp
  moreover have "url_Parse (t_Address t) = Inr (sch, h @ '':'' @ p)"
    using url_Parse_hostport [OF assms(1-3)] assms(4) by simp
  ultimately show ?thesis
    using assms(1) by (auto simp: ResolveNetworkAddr_def schemes_def)
qed

theorem ResolveNetworkAddr_hostport_witness:
  "ResolveNetworkAddr (hd demo_targets) = Inr (''tcp'', ''127.0.0.1:9000'')"
  using ResolveNetworkAddr_hostport [of "''tcp''" "''127.0.0.1''" "''9000''" "hd demo_targets"]
  by (simp add: schemes_def plain_host_def is_unreserved_def is_alnum_def is_digit_def demo_targets_def)

end
