(* ===== verification/Grpc_Service.thy ===== *)
theory Grpc_Service
  imports Cloudtap_Prelude
begin

text \<open>
  The generated gRPC code of \<open>TunnelService\<close> (\<open>proto/tunnel/v1/tunnel_grpc.pb.go\<close> and
  the messages and getters of \<open>tunnel.pb.go\<close>): the client's stubs over a connection's
  \<open>Invoke\<close>, the server's method handlers and the service description. A message pointer is
  an option, \<open>None\<close> for \<open>nil\<close>. Errors are texts. Shown: a call made by a stub arrives at
  the method of the same name of the registered server, with the message it was given.
\<close>

section \<open>Messages\<close>

record OpenRequest = orq_Target :: string
record OpenResponse = ors_Message :: string
record CloseRequest = crq_Target :: string
record CloseResponse = crs_Message :: string
record ListTargetsResponse = lrs_Targets :: "string list"

datatype ListTargetsRequest = ListTargetsRequest

definition OpenRequest_GetTarget :: "OpenRequest option \<Rightarrow> string" where
  "OpenRequest_GetTarget x = (case x of None \<Rightarrow> [] | Some m \<Rightarrow> orq_Target m)"

definition OpenResponse_GetMessage :: "OpenResponse option \<Rightarrow> string" where
  "OpenResponse_GetMessage x = (case x of None \<Rightarrow> [] | Some m \<Rightarrow> ors_Message m)"

definition CloseRequest_GetTarget :: "CloseRequest option \<Rightarrow> string" where
  "CloseRequest_GetTarget x = (case x of None \<Rightarrow> [] | Some m \<Rightarrow> crq_Target m)"

definition CloseResponse_GetMessage :: "CloseResponse option \<Rightarrow> string" where
  "CloseResponse_GetMessage x = (case x of None \<Rightarrow> [] | Some m \<Rightarrow> crs_Message m)"

definition ListTargetsResponse_GetTargets :: "ListTargetsResponse option \<Rightarrow> string list" where
  "ListTargetsResponse_GetTargets x = (case x of None \<Rightarrow> [] | Some m \<Rightarrow> lrs_Targets m)"

text \<open>What an \<open>interface{}\<close> holds on its way through the library.\<close>

datatype message =
    MOpenRequest OpenRequest
  | MOpenResponse OpenResponse
  | MCloseRequest CloseRequest
  | MCloseResponse CloseResponse
  | MListTargetsRequest ListTargetsRequest
  | MListTargetsResponse ListTargetsResponse

text \<open>
  Reading a message back at its static type. The other constructors cannot occur: \<open>Invoke\<close> and
  the decoder fill the message they are given.
\<close>

fun as_OpenRequest :: "message \<Rightarrow> OpenRequest" where
  "as_OpenRequest (MOpenRequest m) = m"
| "as_OpenRequest _ = \<lparr>orq_Target = []\<rparr>"

fun as_OpenResponse :: "message \<Rightarrow> OpenResponse" where
  "as_OpenResponse (MOpenResponse m) = m"
| "as_OpenResponse _ = \<lparr>ors_Message = []\<rparr>"

fun as_CloseRequest :: "message \<Rightarrow> CloseRequest" where
  "as_CloseRequest (MCloseRequest m) = m"
| "as_CloseRequest _ = \<lparr>crq_Target = []\<rparr>"

fun as_CloseResponse :: "message \<Rightarrow> CloseResponse" where
  "as_CloseResponse (MCloseResponse m) = m"
| "as_CloseResponse _ = \<lparr>crs_Message = []\<rparr>"

fun as_ListTargetsResponse :: "message \<Rightarrow> ListTargetsResponse" where
  "as_ListTargetsResponse (MListTargetsResponse m) = m"
| "as_ListTargetsResponse _ = \<lparr>lrs_Targets = []\<rparr>"

section \<open>Client stubs\<close>

definition TunnelService_Open_FullMethodName :: string where
  "TunnelService_Open_FullMethodName = ''/cloudtap.tunnel.v1.TunnelService/Open''"

definition TunnelService_Close_FullMethodName :: string where
  "TunnelService_Close_FullMethodName = ''/cloudtap.tunnel.v1.TunnelService/Close''"

definition TunnelService_ListTargets_FullMethodName :: string where
  "TunnelService_ListTargets_FullMethodName = ''/cloudtap.tunnel.v1.TunnelService/ListTargets''"

text \<open>
  \<open>ClientConnInterface.Invoke(ctx, method, in, out)\<close>: the error, and \<open>out\<close> as filled in.
  The outgoing metadata of the context is an argument of its own.
\<close>

type_synonym 's invoke_fn =
  "go_ctx \<Rightarrow> (string \<times> string) list \<Rightarrow> string \<Rightarrow> message \<Rightarrow> message \<Rightarrow> 's \<Rightarrow> (string option \<times> message) \<times> 's"

definition tunnelServiceClient_Open ::
  "'s invoke_fn \<Rightarrow> go_ctx \<Rightarrow> (string \<times> string) list \<Rightarrow> OpenRequest \<Rightarrow> 's \<Rightarrow> (string + OpenResponse) \<times> 's" where
  "tunnelServiceClient_Open invoke ctx md req s =
     (case invoke ctx md TunnelService_Open_FullMethodName (MOpenRequest req) (MOpenResponse \<lparr>ors_Message = []\<rparr>) s of
        ((Some err, _), s') \<Rightarrow> (Inl err, s')
      | ((None, out), s') \<Rightarrow> (Inr (as_OpenResponse out), s'))"

definition tunnelServiceClient_Close ::
  "'s invoke_fn \<Rightarrow> go_ctx \<Rightarrow> (string \<times> string) list \<Rightarrow> CloseRequest \<Rightarrow> 's \<Rightarrow> (string + CloseResponse) \<times> 's" where
  "tunnelServiceClient_Close invoke ctx md req s =
     (case invoke ctx md TunnelService_Close_FullMethodName (MCloseRequest req) (MCloseResponse \<lparr>crs_Message = []\<rparr>) s of
        ((Some err, _), s') \<Rightarrow> (Inl err, s')
      | ((None, out), s') \<Rightarrow> (Inr (as_CloseResponse out), s'))"

definition tunnelServiceClient_ListTargets ::
  "'s invoke_fn \<Rightarrow> go_ctx \<Rightarrow> (string \<times> string) list \<Rightarrow> ListTargetsRequest \<Rightarrow> 's \<Rightarrow> (string + ListTargetsResponse) \<times> 's" where
  "tunnelServiceClient_ListTargets invoke ctx md req s =
     (case invoke ctx md TunnelService_ListTargets_FullMethodName (MListTargetsRequest req)
             (MListTargetsResponse \<lparr>lrs_Targets = []\<rparr>) s of
        ((Some err, _), s') \<Rightarrow> (Inl err, s')
      | ((None, out), s') \<Rightarrow> (Inr (as_ListTargetsResponse out), s'))"

section \<open>The server\<close>

text \<open>The interface \<open>TunnelServiceServer\<close> over a server state, and the unimplemented server.\<close>

record 's TunnelServiceServer =
  srv_Open :: "go_ctx \<Rightarrow> OpenRequest option \<Rightarrow> 's \<Rightarrow> (string + OpenResponse) \<times> 's"
  srv_Close :: "go_ctx \<Rightarrow> CloseRequest option \<Rightarrow> 's \<Rightarrow> (string + CloseResponse) \<times> 's"
  srv_ListTargets :: "go_ctx \<Rightarrow> ListTargetsRequest option \<Rightarrow> 's \<Rightarrow> (string + ListTargetsResponse) \<times> 's"

text \<open>The text of a \<open>status.Error\<close> of code \<open>Unimplemented\<close>.\<close>

definition unimplemented :: "string \<Rightarrow> string" where
  "unimplemented m = ''rpc error: code = Unimplemented desc = method '' @ m @ '' not implemented''"

definition UnimplementedTunnelServiceServer :: "'s TunnelServiceServer" where
  "UnimplementedTunnelServiceServer =
     \<lparr>srv_Open = \<lambda>ctx req s. (Inl (unimplemented ''Open''), s),
      srv_Close = \<lambda>ctx req s. (Inl (unimplemented ''Close''), s),
      srv_ListTargets = \<lambda>ctx req s. (Inl (unimplemented ''ListTargets''), s)\<rparr>"

text \<open>
  A method handler gets the server, the context, the decoder (which fills the message it is given
  or fails) and the interceptor, if the server has one.
\<close>

type_synonym 's unary = "go_ctx \<Rightarrow> message \<Rightarrow> 's \<Rightarrow> (string + message) \<times> 's"
type_synonym 's interceptor = "go_ctx \<Rightarrow> message \<Rightarrow> string \<Rightarrow> 's unary \<Rightarrow> 's \<Rightarrow> (string + message) \<times> 's"
type_synonym decoder_fn = "message \<Rightarrow> string + message"
type_synonym 's method_handler =
  "'s TunnelServiceServer \<Rightarrow> go_ctx \<Rightarrow> decoder_fn \<Rightarrow> 's interceptor option \<Rightarrow> 's \<Rightarrow> (string + message) \<times> 's"

definition TunnelService_Open_Handler :: "'s method_handler" where
  "TunnelService_Open_Handler srv ctx dec interceptor s =
     (case dec (MOpenRequest \<lparr>orq_Target = []\<rparr>) of
        Inl err \<Rightarrow> (Inl err, s)
      | Inr req \<Rightarrow>
          let handler = (\<lambda>ctx req s. map_prod (map_sum id MOpenResponse) id (srv_Open srv ctx (Some (as_OpenRequest req)) s))
          in (case interceptor of
                None \<Rightarrow> handler ctx req s
              | Some f \<Rightarrow> f ctx req TunnelService_Open_FullMethodName handler s))"

definition TunnelService_Close_Handler :: "'s method_handler" where
  "TunnelService_Close_Handler srv ctx dec interceptor s =
     (case dec (MCloseRequest \<lparr>crq_Target = []\<rparr>) of
        Inl err \<Rightarrow> (Inl err, s)
      | Inr req \<Rightarrow>
          let handler = (\<lambda>ctx req s. map_prod (map_sum id MCloseResponse) id (srv_Close srv ctx (Some (as_CloseRequest req)) s))
          in (case interceptor of
                None \<Rightarrow> handler ctx req s
              | Some f \<Rightarrow> f ctx req TunnelService_Close_FullMethodName handler s))"

definition TunnelService_ListTargets_Handler :: "'s method_handler" where
  "TunnelService_ListTargets_Handler srv ctx dec interceptor s =
     (case dec (MListTargetsRequest ListTargetsRequest) of
        Inl err \<Rightarrow> (Inl err, s)
      | Inr req \<Rightarrow>
          let handler = (\<lambda>ctx req s. map_prod (map_sum id MListTargetsResponse) id (srv_ListTargets srv ctx (Some ListTargetsRequest) s))
          in (case interceptor of
                None \<Rightarrow> handler ctx req s
              | Some f \<Rightarrow> f ctx req TunnelService_ListTargets_FullMethodName handler s))"

record 's ServiceDesc =
  sd_ServiceName :: string
  sd_Methods :: "(string \<times> 's method_handler) list"

definition TunnelService_ServiceDesc :: "'s ServiceDesc" where
  "TunnelService_ServiceDesc =
     \<lparr>sd_ServiceName = ''cloudtap.tunnel.v1.TunnelService'',
      sd_Methods = [(''Open'', TunnelService_Open_Handler), (''Close'', TunnelService_Close_Handler),
                    (''ListTargets'', TunnelService_ListTargets_Handler)]\<rparr>"

text \<open>The handler a full method name stands for, and the names of the description.\<close>

definition full_method :: "'s ServiceDesc \<Rightarrow> string \<Rightarrow> string" where
  "full_method sd name = ''/'' @ sd_ServiceName sd @ ''/'' @ name"

definition find_method :: "'s ServiceDesc \<Rightarrow> string \<Rightarrow> 's method_handler option" where
  "find_method sd method = map_of (map (\<lambda>(name, h). (full_method sd name, h)) (sd_Methods sd)) method"

lemma find_method_stubs:
  "find_method TunnelService_ServiceDesc TunnelService_Open_FullMethodName = Some TunnelService_Open_Handler"
  "find_method TunnelService_ServiceDesc TunnelService_Close_FullMethodName = Some TunnelService_Close_Handler"
  "find_method TunnelService_ServiceDesc TunnelService_ListTargets_FullMethodName = Some TunnelService_ListTargets_Handler"
  by (simp_all add: find_method_def full_method_def TunnelService_ServiceDesc_def TunnelService_Open_FullMethodName_def
      TunnelService_Close_FullMethodName_def TunnelService_ListTargets_FullMethodName_def)

section \<open>A connection to a server\<close>

text \<open>
  What the stubs rely on of the gRPC library (\<open>Invoke\<close> and the server's dispatch): a request
  that can be encoded is handed to the handler of its method, without interceptor, under the
  context \<open>server_ctx ctx\<close>; an encodable reply comes back as it is, an error as some error.
\<close>

locale grpc_link =
  fixes invoke :: "'s invoke_fn"
    and srv :: "'s TunnelServiceServer"
    and server_ctx :: "go_ctx \<Rightarrow> go_ctx"
    and encodable :: "message \<Rightarrow> bool"
  assumes delivers: "find_method TunnelService_ServiceDesc method = Some h \<Longrightarrow> encodable req \<Longrightarrow>
      h srv (server_ctx ctx) (\<lambda>_. Inr req) None s = (Inr reply, s') \<Longrightarrow> encodable reply \<Longrightarrow>
      invoke ctx md method req out s = ((None, reply), s')"
    and fails: "find_method TunnelService_ServiceDesc method = Some h \<Longrightarrow> encodable req \<Longrightarrow>
      h srv (server_ctx ctx) (\<lambda>_. Inr req) None s = (Inl err, s') \<Longrightarrow>
      \<exists>e out'. invoke ctx md method req out s = ((Some e, out'), s')"
begin

lemma open_reply:
  assumes "encodable (MOpenRequest req)" and "srv_Open srv (server_ctx ctx) (Some req) s = (Inr resp, s')"
    and "encodable (MOpenResponse resp)"
  shows "tunnelServiceClient_Open invoke ctx md req s = (Inr resp, s')"
  using delivers [OF find_method_stubs(1) assms(1), of ctx s "MOpenResponse resp" s' md] assms(2,3)
  by (simp add: tunnelServiceClient_Open_def TunnelService_Open_Handler_def)

lemma open_error:
  assumes "encodable (MOpenRequest req)" and "srv_Open srv (server_ctx ctx) (Some req) s = (Inl err, s')"
  shows "\<exists>e. tunnelServiceClient_Open invoke ctx md req s = (Inl e, s')"
  using fails [OF find_method_stubs(1) assms(1), of ctx s err s' md "MOpenResponse \<lparr>ors_Message = []\<rparr>"] assms(2)
  by (auto simp: tunnelServiceClient_Open_def TunnelService_Open_Handler_def)

lemma close_reply:
  assumes "encodable (MCloseRequest req)" and "srv_Close srv (server_ctx ctx) (Some req) s = (Inr resp, s')"
    and "encodable (MCloseResponse resp)"
  shows "tunnelServiceClient_Close invoke ctx md req s = (Inr resp, s')"
  using delivers [OF find_method_stubs(2) assms(1), of ctx s "MCloseResponse resp" s' md] assms(2,3)
  by (simp add: tunnelServiceClient_Close_def TunnelService_Close_Handler_def)

end

end
