(* ===== verification/Go_Flag.thy ===== *)
theory Go_Flag
  imports Go_Strings
begin

text \<open>
  What the command-line programs use of Go's \<open>flag\<close> package: \<open>FlagSet.parseOne\<close> and the
  loop around it, for string and boolean flags, and \<open>Arg\<close>/\<open>NArg\<close>.
\<close>

datatype flag_kind = StringFlag | BoolFlag

datatype flag_error = BadSyntax string | NotDefined string | InvalidBool string string | NeedsArgument string

text \<open>
  The outcome of \<open>flag.Parse\<close>: the flags' values and the remaining arguments, the help text
  (exit status 0), or an error (exit status 2).
\<close>

datatype flag_result = Parsed "(string, string) gomap" "string list" | HelpRequested | ParseFailed flag_error

text \<open>
  \<open>equals cannot be first\<close>: the name ends at the first equals sign after its first byte.
\<close>

definition split_flag :: "string \<Rightarrow> string \<times> string option" where
  "split_flag s =
     (case index_byte (drop 1 s) CHR ''='' of
        None \<Rightarrow> (s, None)
      | Some i \<Rightarrow> (take (i + 1) s, Some (drop (i + 2) s)))"

definition flag_name :: "string \<Rightarrow> string" where
  "flag_name s = (if HasPrefix s ''--'' then drop 2 s else drop 1 s)"

definition bool_value :: "bool \<Rightarrow> string" where
  "bool_value b = (if b then ''true'' else ''false'')"

text \<open>
  Values are kept as text; a boolean flag's text is \<open>true\<close> or \<open>false\<close>. \<open>formal\<close> lists
  the flags defined, \<open>vals\<close> their current values.
\<close>

fun parse_flags :: "(string \<times> flag_kind) list \<Rightarrow> (string, string) gomap \<Rightarrow> string list \<Rightarrow> flag_result" where
  "parse_flags formal vals [] = Parsed vals []"
| "parse_flags formal vals (s # rest) =
     (if length s < 2 \<or> s ! 0 \<noteq> CHR ''-'' then Parsed vals (s # rest)
      else if s = ''--'' then Parsed vals rest
      else if flag_name s = [] \<or> hd (flag_name s) = CHR ''-'' \<or> hd (flag_name s) = CHR ''='' then ParseFailed (BadSyntax s)
      else
        (case split_flag (flag_name s) of (name, given) \<Rightarrow>
          (case map_of formal name of
             None \<Rightarrow> if name = ''help'' \<or> name = ''h'' then HelpRequested else ParseFailed (NotDefined name)
           | Some BoolFlag \<Rightarrow>
               (case given of
                  None \<Rightarrow> parse_flags formal (AList.update name ''true'' vals) rest
                | Some v \<Rightarrow>
                    (case ParseBool v of
                       None \<Rightarrow> ParseFailed (InvalidBool v name)
                     | Some b \<Rightarrow> parse_flags formal (AList.update name (bool_value b) vals) rest))
           | Some StringFlag \<Rightarrow>
               (case given of
                  Some v \<Rightarrow> parse_flags formal (AList.update name v vals) rest
                | None \<Rightarrow>
                    (case rest of
                       [] \<Rightarrow> ParseFailed (NeedsArgument name)
                     | v # rest' \<Rightarrow> parse_flags formal (AList.update name v vals) rest')))))"

text \<open>The value of a flag after parsing, and \<open>flag.Arg(i)\<close> (empty when out of range).\<close>

definition flag_get :: "(string, string) gomap \<Rightarrow> string \<Rightarrow> string" where
  "flag_get vals name = (case map_of vals name of None \<Rightarrow> [] | Some v \<Rightarrow> v)"

definition flag_Arg :: "string list \<Rightarrow> nat \<Rightarrow> string" where
  "flag_Arg args i = (if i < length args then args ! i else [])"

lemma parse_flags_stops:
  assumes "args = [] \<or> hd args = [] \<or> hd (hd args) \<noteq> CHR ''-''"
  shows "parse_flags formal vals args = Parsed vals args"
  using assms by (cases args; cases "hd args") auto

end
