(* ===== verification/Daemon.thy ===== *)
theory Daemon
  imports Tunnel Go_Json Go_Flag Grpc_Service
begin

text \<open>
  The daemon (\<open>cmd/cloudtapd/main.go\<close>): configuration, the HTTP handlers, the gRPC service
  (over the generated messages of \<open>Grpc_Service\<close>) and the two server functions (\<open>main\<close> is in
  \<open>Daemon_Main\<close>). Handlers and service take the operations of the tunnel controller they are
  given as arguments (\<open>tunnelController\<close>); their properties are proved in the locale \<open>tunnel_controller\<close> and hold for the manager by its interpretation.
\<close>

section \<open>Configuration\<close>

record config =
  HTTPAddr :: string
  GRPCAddr :: string
  DevMode :: bool

text \<open>\<open>getenv\<close> is \<open>os.Getenv\<close>: the empty string for an unset variable.\<close>

definition envOrDefault :: "(string \<Rightarrow> string) \<Rightarrow> string \<Rightarrow> string \<Rightarrow> string" where
  "envOrDefault getenv key fallback = (if getenv key \<noteq> [] then getenv key else fallback)"

definition envOrBool :: "(string \<Rightarrow> string) \<Rightarrow> string \<Rightarrow> bool \<Rightarrow> bool" where
  "envOrBool getenv key fallback =
     (if getenv key \<noteq> [] then (case ParseBool (getenv key) of Some b \<Rightarrow> b | None \<Rightarrow> fallback) else fallback)"

definition daemon_flags :: "(string \<times> flag_kind) list" where
  "daemon_flags = [(''http-addr'', StringFlag), (''grpc-addr'', StringFlag), (''dev'', BoolFlag)]"

text \<open>\<open>parseConfig\<close>: the configuration, or the exit status with which \<open>flag.Parse\<close> ends the process.\<close>

definition parseConfig :: "(string \<Rightarrow> string) \<Rightarrow> string list \<Rightarrow> nat + config" where
  "parseConfig getenv args =
     (let defaults =
            [(''http-addr'', envOrDefault getenv ''CLOUDTAP_HTTP_ADDR'' '':8080''),
             (''grpc-addr'', envOrDefault getenv ''CLOUDTAP_GRPC_ADDR'' '':9090''),
             (''dev'', bool_value (envOrBool getenv ''CLOUDTAP_DEV_MODE'' False))]
      in case parse_flags daemon_flags defaults args of
           HelpRequested \<Rightarrow> Inl 0
         | ParseFailed _ \<Rightarrow> Inl 2
         | Parsed vals rest \<Rightarrow>
             Inr \<lparr>HTTPAddr = flag_get vals ''http-addr'', GRPCAddr = flag_get vals ''grpc-addr'',
                  DevMode = (flag_get vals ''dev'' = ''true'')\<rparr>)"

section \<open>HTTP handlers\<close>

type_synonym ('c, 'm) target_op = "'c \<Rightarrow> go_ctx \<Rightarrow> string \<Rightarrow> 'm \<Rightarrow> tunnel_error option \<times> 'm"
type_synonym ('c, 'm) list_op = "'c \<Rightarrow> go_ctx \<Rightarrow> 'm \<Rightarrow> (tunnel_error + string list) \<times> 'm"

text \<open>
  A handler gets the instant \<open>t\<close> at which it creates its timeout context and the clock readings
  \<open>ck\<close> of the controller's operation. Response headers are the ones the code sets;
  \<open>url_text\<close> words the errors of \<open>url.Parse\<close>.
\<close>

definition http_ok :: "string \<Rightarrow> http_response" where
  "http_ok body = \<lparr>rs_Status = 200, rs_Header = [], rs_Body = body\<rparr>"

definition handle_healthz :: "http_request \<Rightarrow> http_response" where
  "handle_healthz r = http_ok ''ok''"

definition handle_proxy ::
  "(string \<Rightarrow> url_error \<Rightarrow> string) \<Rightarrow> ('c, 'm) target_op \<Rightarrow> instant \<Rightarrow> 'c \<Rightarrow> http_request \<Rightarrow> 'm \<Rightarrow> http_response \<times> 'm" where
  "handle_proxy url_text Open t ck r m =
     (let target = query_Get (rq_RawQuery r) ''target''
      in if target = [] then (http_Error ''missing target parameter'' 400, m)
         else
           let proxyCtx = WithTimeout (rq_Ctx r) t (5 * Second)
           in (case Open ck proxyCtx target m of
                 (Some err, m') \<Rightarrow> (http_Error (tunnel_error_text url_text err) 502, m')
               | (None, m') \<Rightarrow> (http_ok (''proxy to '' @ target @ '' initiated''), m')))"

definition handle_close ::
  "(string \<Rightarrow> url_error \<Rightarrow> string) \<Rightarrow> ('c, 'm) target_op \<Rightarrow> instant \<Rightarrow> 'c \<Rightarrow> http_request \<Rightarrow> 'm \<Rightarrow> http_response \<times> 'm" where
  "handle_close url_text Close t ck r m =
     (let target = query_Get (rq_RawQuery r) ''target''
      in if target = [] then (http_Error ''missing target parameter'' 400, m)
         else
           let closeCtx = WithTimeout (rq_Ctx r) t (5 * Second)
           in (case Close ck closeCtx target m of
                 (Some err, m') \<Rightarrow> (http_Error (tunnel_error_text url_text err) 400, m')
               | (None, m') \<Rightarrow> (http_ok (''closed tunnel to '' @ target), m')))"

definition targets_json :: "string list \<Rightarrow> json" where
  "targets_json ts = JObj [(''targets'', JArr (map JStr ts))]"

definition handle_targets ::
  "(string \<Rightarrow> url_error \<Rightarrow> string) \<Rightarrow> ('c, 'm) list_op \<Rightarrow> instant \<Rightarrow> 'c \<Rightarrow> http_request \<Rightarrow> 'm \<Rightarrow> http_response \<times> 'm" where
  "handle_targets url_text ListTargets t ck r m =
     (let listCtx = WithTimeout (rq_Ctx r) t (3 * Second)
      in (case ListTargets ck listCtx m of
            (Inl err, m') \<Rightarrow> (http_Error (tunnel_error_text url_text err) 500, m')
          | (Inr targets, m') \<Rightarrow>
              (\<lparr>rs_Status = 200, rs_Header = [(''Content-Type'', ''application/json'')],
                rs_Body = json_Encode (targets_json targets)\<rparr>, m')))"

text \<open>
  The mux: the four patterns match their path exactly; a path that is not clean is answered with a
  redirect to the clean one.
\<close>

definition mux_clean :: "string \<Rightarrow> string" where
  "mux_clean p =
     (if p = [] then ''/''
      else let q = (if hd p \<noteq> CHR ''/'' then CHR ''/'' # p else p); np = filepath_Clean q
           in if last q = CHR ''/'' \<and> np \<noteq> ''/'' then np @ ''/'' else np)"

datatype mux_answer = Redirect string | Answered http_response

definition serve_http ::
  "(string \<Rightarrow> url_error \<Rightarrow> string) \<Rightarrow> ('c, 'm) target_op \<Rightarrow> ('c, 'm) target_op \<Rightarrow> ('c, 'm) list_op \<Rightarrow>
     instant \<Rightarrow> 'c \<Rightarrow> http_request \<Rightarrow> 'm \<Rightarrow> mux_answer \<times> 'm" where
  "serve_http url_text Open Close ListTargets t ck r m =
     (if mux_clean (rq_Path r) \<noteq> rq_Path r then (Redirect (mux_clean (rq_Path r)), m)
      else if rq_Path r = ''/healthz'' then (Answered (handle_healthz r), m)
      else if rq_Path r = ''/proxy'' then map_prod Answered id (handle_proxy url_text Open t ck r m)
      else if rq_Path r = ''/close'' then map_prod Answered id (handle_close url_text Close t ck r m)
      else if rq_Path r = ''/targets'' then map_prod Answered id (handle_targets url_text ListTargets t ck r m)
      else (Answered (http_Error ''404 page not found'' 404), m))"

section \<open>The gRPC service\<close>

text \<open>The methods of \<open>tunnelServer\<close>; errors are their texts.\<close>

definition tunnelServer_Open ::
  "(string \<Rightarrow> url_error \<Rightarrow> string) \<Rightarrow> ('c, 'm) target_op \<Rightarrow> 'c \<Rightarrow> go_ctx \<Rightarrow> OpenRequest option \<Rightarrow> 'm \<Rightarrow>
     (string + OpenResponse) \<times> 'm" where
  "tunnelServer_Open url_text Open ck ctx req m =
     (if req = None \<or> OpenRequest_GetTarget req = [] then (Inl ''target is required'', m)
      else (case Open ck ctx (OpenRequest_GetTarget req) m of
              (Some err, m') \<Rightarrow> (Inl (tunnel_error_text url_text err), m')
            | (None, m') \<Rightarrow> (Inr \<lparr>ors_Message = ''proxy to '' @ OpenRequest_GetTarget req @ '' initiated''\<rparr>, m')))"

definition tunnelServer_Close ::
  "(string \<Rightarrow> url_error \<Rightarrow> string) \<Rightarrow> ('c, 'm) target_op \<Rightarrow> 'c \<Rightarrow> go_ctx \<Rightarrow> CloseRequest option \<Rightarrow> 'm \<Rightarrow>
     (string + CloseResponse) \<times> 'm" where
  "tunnelServer_Close url_text Close ck ctx req m =
     (if req = None \<or> CloseRequest_GetTarget req = [] then (Inl ''target is required'', m)
      else (case Close ck ctx (CloseRequest_GetTarget req) m of
              (Some err, m') \<Rightarrow> (Inl (tunnel_error_text url_text err), m')
            | (None, m') \<Rightarrow> (Inr \<lparr>crs_Message = ''closed tunnel to '' @ CloseRequest_GetTarget req\<rparr>, m')))"

definition tunnelServer_ListTargets ::
  "(string \<Rightarrow> url_error \<Rightarrow> string) \<Rightarrow> ('c, 'm) list_op \<Rightarrow> 'c \<Rightarrow> go_ctx \<Rightarrow> ListTargetsRequest option \<Rightarrow> 'm \<Rightarrow>
     (string + ListTargetsResponse) \<times> 'm" where
  "tunnelServer_ListTargets url_text ListTargets ck ctx req m =
     (case ListTargets ck ctx m of
        (Inl err, m') \<Rightarrow> (Inl (tunnel_error_text url_text err), m')
      | (Inr targets, m') \<Rightarrow> (Inr \<lparr>lrs_Targets = targets\<rparr>, m'))"

text \<open>What \<open>runGRPCServer\<close> registers: the embedded unimplemented server with its methods overridden.\<close>

definition tunnelServer ::
  "(string \<Rightarrow> url_error \<Rightarrow> string) \<Rightarrow> ('c, 'm) target_op \<Rightarrow> ('c, 'm) target_op \<Rightarrow> ('c, 'm) list_op \<Rightarrow> 'c \<Rightarrow> 'm TunnelServiceServer" where
  "tunnelServer url_text Open Close ListTargets ck =
     UnimplementedTunnelServiceServer
       \<lparr>srv_Open := tunnelServer_Open url_text Open ck, srv_Close := tunnelServer_Close url_text Close ck,
        srv_ListTargets := tunnelServer_ListTargets url_text ListTargets ck\<rparr>"

section \<open>The server goroutines\<close>

datatype server_error = ErrServerClosed | ErrServerStopped | ServerError string

text \<open>
  How the select of \<open>runHTTPServer\<close> goes: the context is done, then the results of
  \<open>Shutdown\<close> and of the serving goroutine; or the serving goroutine ends first.
\<close>

datatype http_select =
    HttpCtxDone "server_error option" "server_error option"
  | HttpServeEnded "server_error option"

definition unless_closed :: "server_error option \<Rightarrow> server_error option" where
  "unless_closed e = (if e = None \<or> e = Some ErrServerClosed then None else e)"

fun runHTTPServer :: "http_select \<Rightarrow> server_error option" where
  "runHTTPServer (HttpCtxDone shutdown served) =
     (if unless_closed shutdown \<noteq> None then shutdown else unless_closed served)"
| "runHTTPServer (HttpServeEnded served) = unless_closed served"

text \<open>\<open>runGRPCServer\<close> from the results of \<open>net.Listen\<close> and \<open>server.Serve\<close>.\<close>

definition runGRPCServer :: "server_error option \<Rightarrow> server_error option \<Rightarrow> server_error option" where
  "runGRPCServer listen served =
     (case listen of
        Some e \<Rightarrow> Some e
      | None \<Rightarrow> if served = None \<or> served = Some ErrServerStopped then None else served)"

section \<open>The handlers against the controller's interface\<close>

context tunnel_controller
begin

lemma handle_proxy_effect:
  assumes "ok m" and "handle_proxy url_text open_op t ck r m = (resp, m')"
    and "query_Get (rq_RawQuery r) ''target'' = n"
  shows "ok m'
    \<and> (rs_Status resp = 200 \<longrightarrow> n \<noteq> [] \<and> rs_Body resp = ''proxy to '' @ n @ '' initiated''
         \<and> (\<forall>k. is_open m' k \<longleftrightarrow> k = n \<or> is_open m k))
    \<and> (rs_Status resp \<noteq> 200 \<longrightarrow> rs_Status resp = (if n = [] then 400 else 502) \<and> (\<forall>k. is_open m' k \<longleftrightarrow> is_open m k))"
proof (cases "n = []")
  case True
  with assms show ?thesis by (auto simp: handle_proxy_def http_Error_def)
next
  case False
  obtain e m1 where res: "open_op ck (WithTimeout (rq_Ctx r) t (5 * Second)) n m = (e, m1)" by fastforce
  have "m1 = m'" using assms(2,3) res False by (auto simp: handle_proxy_def Let_def split: option.splits)
  with res have "ok m'" using ok_open assms(1) by blast
  with assms False res \<open>m1 = m'\<close> show ?thesis
    using open_opens [OF assms(1), of ck _ n m1] open_fails [OF assms(1), of ck _ n _ m1]
    by (cases e) (auto simp: handle_proxy_def http_Error_def http_ok_def)
qed

lemma handle_close_effect:
  assumes "ok m" and "handle_close url_text close_op t ck r m = (resp, m')"
    and "query_Get (rq_RawQuery r) ''target'' = n"
  shows "ok m'
    \<and> (rs_Status resp = 200 \<longrightarrow> is_open m n \<and> rs_Body resp = ''closed tunnel to '' @ n
         \<and> (\<forall>k. is_open m' k \<longleftrightarrow> k \<noteq> n \<and> is_open m k))
    \<and> (rs_Status resp \<noteq> 200 \<longrightarrow> rs_Status resp = 400 \<and> m' = m)"
proof (cases "n = []")
  case True
  with assms show ?thesis by (auto simp: handle_close_def http_Error_def)
next
  case False
  obtain e m1 where res: "close_op ck (WithTimeout (rq_Ctx r) t (5 * Second)) n m = (e, m1)" by fastforce
  have "m1 = m'" using assms(2,3) res False by (auto simp: handle_close_def Let_def split: option.splits)
  with res have "ok m'" using ok_close assms(1) by blast
  with assms False res \<open>m1 = m'\<close> show ?thesis
    using close_closes [of ck _ n m m1] close_fails [of ck _ n m]
    by (cases e) (auto simp: handle_close_def http_Error_def http_ok_def)
qed

lemma grpc_http_open_agree:
  assumes "query_Get (rq_RawQuery r) ''target'' = n"
    and "tunnelServer_Open url_text open_op ck (WithTimeout (rq_Ctx r) t (5 * Second)) (Some \<lparr>orq_Target = n\<rparr>) m = (g, m1)"
    and "handle_proxy url_text open_op t ck r m = (resp, m2)"
  shows "m1 = m2 \<and> (case g of Inr reply \<Rightarrow> rs_Status resp = 200 \<and> rs_Body resp = ors_Message reply
                     | Inl e \<Rightarrow> rs_Status resp \<in> {400, 502} \<and> (n \<noteq> [] \<longrightarrow> rs_Body resp = e @ [CHR 0x0A]))"
  using assms
  by (auto simp: tunnelServer_Open_def handle_proxy_def OpenRequest_GetTarget_def http_Error_def http_ok_def Let_def
      split: option.splits if_splits prod.splits)

end

text \<open>
  \<open>/proxy\<close> answers 200 exactly when it opened the named tunnel (and nothing else
  changed), with the documented message; otherwise it answers 400 (no target) or 502 and the set
  of open tunnels is unchanged.
\<close>

theorem proxy_endpoint_effect:
  assumes "manager_inv m" and "handle_proxy url_text Manager_Open t ck r m = (resp, m')"
    and "query_Get (rq_RawQuery r) ''target'' = n"
  shows "manager_inv m'
    \<and> (rs_Status resp = 200 \<longrightarrow> n \<noteq> [] \<and> rs_Body resp = ''proxy to '' @ n @ '' initiated''
         \<and> (\<forall>k. tunnel_open m' k \<longleftrightarrow> k = n \<or> tunnel_open m k))
    \<and> (rs_Status resp \<noteq> 200 \<longrightarrow> rs_Status resp = (if n = [] then 400 else 502)
         \<and> (\<forall>k. tunnel_open m' k \<longleftrightarrow> tunnel_open m k))"
  by (rule mgr.handle_proxy_effect [OF assms])

text \<open>
  \<open>/close\<close> answers 200 exactly when it closed the named, open tunnel; otherwise it
  answers 400 and leaves the manager as it was.
\<close>

theorem close_endpoint_effect:
  assumes "manager_inv m" and "handle_close url_text Manager_Close t ck r m = (resp, m')"
    and "query_Get (rq_RawQuery r) ''target'' = n"
  shows "manager_inv m'
    \<and> (rs_Status resp = 200 \<longrightarrow> tunnel_open m n \<and> rs_Body resp = ''closed tunnel to '' @ n
         \<and> (\<forall>k. tunnel_open m' k \<longleftrightarrow> k \<noteq> n \<and> tunnel_open m k))
    \<and> (rs_Status resp \<noteq> 200 \<longrightarrow> rs_Status resp = 400 \<and> m' = m)"
  by (rule mgr.handle_close_effect [OF assms])

text \<open>
  The two faces of the daemon agree: under the same context and clock, the gRPC
  \<open>Open\<close> and the HTTP \<open>/proxy\<close> of one target leave the manager in the same state and
  succeed or fail together, with the same message or error text.
\<close>

theorem grpc_and_http_open_agree:
  assumes "query_Get (rq_RawQuery r) ''target'' = n"
    and "tunnelServer_Open url_text Manager_Open ck (WithTimeout (rq_Ctx r) t (5 * Second)) (Some \<lparr>orq_Target = n\<rparr>) m = (g, m1)"
    and "handle_proxy url_text Manager_Open t ck r m = (resp, m2)"
  shows "m1 = m2 \<and> (case g of Inr reply \<Rightarrow> rs_Status resp = 200 \<and> rs_Body resp = ors_Message reply
                     | Inl e \<Rightarrow> rs_Status resp \<in> {400, 502} \<and> (n \<noteq> [] \<longrightarrow> rs_Body resp = e @ [CHR 0x0A]))"
  by (rule mgr.grpc_http_open_agree [OF assms])

text \<open>Requests as a client writes them, and runs on the demo manager.\<close>

definition get_request :: "string \<Rightarrow> string \<Rightarrow> http_request" where
  "get_request path query = \<lparr>rq_Method = ''GET'', rq_Path = path, rq_RawQuery = query, rq_Header = [], rq_Body = [],
     rq_Ctx = Background\<rparr>"

definition plain_url_text :: "string \<Rightarrow> url_error \<Rightarrow> string" where
  "plain_url_text a e = ''parse '' @ a"

lemma demo_query: "query_Get (rq_RawQuery (get_request p ''target=demo-service'')) ''target'' = ''demo-service''"
  unfolding get_request_def http_request.simps by code_simp

theorem proxy_endpoint_effect_witness:
  "rs_Status (fst (handle_proxy plain_url_text Manager_Open 0 now_clock (get_request ''/proxy'' []) NewDefaultManager)) = 400"
proof -
  obtain resp m' where res: "handle_proxy plain_url_text Manager_Open 0 now_clock (get_request ''/proxy'' []) NewDefaultManager = (resp, m')"
    by fastforce
  have q: "query_Get (rq_RawQuery (get_request ''/proxy'' [])) ''target'' = []"
    unfolding get_request_def http_request.simps by code_simp
  from proxy_endpoint_effect [OF default_manager_inv res q] res show ?thesis by (cases "rs_Status resp = 200") auto
qed

lemma fresh_not_open: "\<not> tunnel_open NewDefaultManager n"
  by (simp add: tunnel_open_def NewDefaultManager_def NewManager_def Let_def)

theorem close_endpoint_effect_witness:
  "rs_Status (fst (handle_close plain_url_text Manager_Close 0 now_clock (get_request ''/close'' ''target=demo-service'') NewDefaultManager)) = 400"
proof -
  obtain resp m' where res: "handle_close plain_url_text Manager_Close 0 now_clock
      (get_request ''/close'' ''target=demo-service'') NewDefaultManager = (resp, m')" by fastforce
  from close_endpoint_effect [OF default_manager_inv res demo_query] fresh_not_open res show ?thesis
    by (cases "rs_Status resp = 200") auto
qed

theorem grpc_and_http_open_agree_witness:
  "snd (tunnelServer_Open plain_url_text Manager_Open now_clock (WithTimeout Background 0 (5 * Second)) (Some \<lparr>orq_Target = ''demo-service''\<rparr>) NewDefaultManager)
   = snd (handle_proxy plain_url_text Manager_Open 0 now_clock (get_request ''/proxy'' ''target=demo-service'') NewDefaultManager)"
proof -
  obtain g m1 where g: "tunnelServer_Open plain_url_text Manager_Open now_clock (WithTimeout (rq_Ctx (get_request ''/proxy'' ''target=demo-service''))
      0 (5 * Second)) (Some \<lparr>orq_Target = ''demo-service''\<rparr>) NewDefaultManager = (g, m1)" by fastforce
  obtain resp m2 where h: "handle_proxy plain_url_text Manager_Open 0 now_clock (get_request ''/proxy'' ''target=demo-service'') NewDefaultManager = (resp, m2)"
    by fastforce
  have "rq_Ctx (get_request ''/proxy'' ''target=demo-service'') = Background" by (simp add: get_request_def)
  with grpc_and_http_open_agree [OF demo_query g h] g h show ?thesis by simp
qed

lemma targets_json_first: "\<forall>n\<in>set ns. valid_utf8 n \<Longrightarrow> json_first (json_Encode (targets_json ns)) = Some (targets_json ns)"
proof (rule json_first_Encode)
  assume "\<forall>n\<in>set ns. valid_utf8 n"
  moreover have "valid_utf8 ''targets''" by (rule valid_utf8_ascii) simp
  ultimately show "wf_out 0 (targets_json ns)" by (auto simp: targets_json_def max_nesting_def)
qed

text \<open>
  The listing survives the wire: the body of a successful \<open>/targets\<close> answer reads back
  as exactly the names the controller returned, in their order (names in valid UTF-8).
\<close>

theorem targets_endpoint_roundtrip:
  assumes "handle_targets url_text ListTargets t ck r m = (resp, m')"
    and "ListTargets ck (WithTimeout (rq_Ctx r) t (3 * Second)) m = (Inr ns, m1)"
    and "\<forall>n\<in>set ns. valid_utf8 n"
  shows "rs_Status resp = 200 \<and> m' = m1 \<and> json_first (rs_Body resp) = Some (targets_json ns)"
  using assms by (auto simp: handle_targets_def targets_json_first)

theorem targets_endpoint_roundtrip_witness:
  "json_first (rs_Body (fst (handle_targets plain_url_text (\<lambda>ck ctx m. (Inr [''a'', ''b''], m)) 0 () (get_request ''/targets'' []) ())))
   = Some (JObj [(''targets'', JArr [JStr ''a'', JStr ''b''])])"
proof -
  have "\<forall>n\<in>set [''a'', ''b'']. valid_utf8 n" by (auto intro!: valid_utf8_ascii)
  from targets_endpoint_roundtrip [where ListTargets = "\<lambda>ck ctx m. (Inr [''a'', ''b''], m)" and url_text = plain_url_text
      and t = 0 and ck = "()" and r = "get_request ''/targets'' []" and m = "()", OF surjective_pairing _ this]
  show ?thesis by (simp add: targets_json_def)
qed

text \<open>
  Command-line flags override the environment and the environment overrides the built-in
  defaults: with no flags the configuration is the environment's, variable by variable, a
  malformed \<open>CLOUDTAP_DEV_MODE\<close> counts as unset, and \<open>-http-addr\<close> replaces only the HTTP
  address.
\<close>

theorem parseConfig_precedence:
  "parseConfig getenv [] = Inr \<lparr>HTTPAddr = envOrDefault getenv ''CLOUDTAP_HTTP_ADDR'' '':8080'',
       GRPCAddr = envOrDefault getenv ''CLOUDTAP_GRPC_ADDR'' '':9090'',
       DevMode = (ParseBool (getenv ''CLOUDTAP_DEV_MODE'') = Some True)\<rparr>
   \<and> parseConfig getenv [''-http-addr'', a] = Inr \<lparr>HTTPAddr = a,
       GRPCAddr = envOrDefault getenv ''CLOUDTAP_GRPC_ADDR'' '':9090'',
       DevMode = (ParseBool (getenv ''CLOUDTAP_DEV_MODE'') = Some True)\<rparr>"
proof -
  have dev: "bool_value (envOrBool getenv ''CLOUDTAP_DEV_MODE'' False) = ''true'' \<longleftrightarrow>
      ParseBool (getenv ''CLOUDTAP_DEV_MODE'') = Some True"
    by (auto simp: envOrBool_def bool_value_def ParseBool_def split: option.splits)
  have flag: "split_flag ''http-addr'' = (''http-addr'', None)" "flag_name ''-http-addr'' = ''http-addr''"
    by code_simp+
  show ?thesis
    by (simp add: parseConfig_def Let_def flag flag_get_def daemon_flags_def dev)
qed

end
