(* ===== verification/Daemon_Main.thy ===== *)
theory Daemon_Main
  imports Daemon
begin

text \<open>
  \<open>main\<close> of the daemon (\<open>cmd/cloudtapd/main.go\<close>): the two server goroutines, the one
  that closes the error channel, the signal context and the main goroutine's select and drain
  loop, as a step relation. Shown: the process exits with the first server error that was sent, it
  exits cleanly only if no server failed, and once a signal arrived or a server ended it cannot
  get stuck and exits after finitely many steps.
\<close>

section \<open>The goroutines\<close>

datatype server = HTTP | GRPC

text \<open>The main goroutine: at its select, in the range loop, or past it with \<open>fatalErr\<close>.\<close>

datatype main_phase = Selecting | Draining "string option" | Exited "string option"

text \<open>
  \<open>dm_ctx\<close> tells whether the signal context is done, \<open>dm_running\<close> whether a server
  goroutine still runs, \<open>dm_chan\<close> is the content of the buffered channel \<open>serverErrs\<close>;
  \<open>dm_sent\<close> lists what was ever sent.
\<close>

record daemon_run =
  dm_ctx :: bool
  dm_running :: "server \<Rightarrow> bool"
  dm_chan :: "string list"
  dm_closed :: bool
  dm_main :: main_phase
  dm_sent :: "string list"

definition daemon_start :: daemon_run where
  "daemon_start = \<lparr>dm_ctx = False, dm_running = (\<lambda>_. True), dm_chan = [], dm_closed = False,
     dm_main = Selecting, dm_sent = []\<rparr>"

definition server_label :: "server \<Rightarrow> string" where
  "server_label s = (case s of HTTP \<Rightarrow> ''http server: '' | GRPC \<Rightarrow> ''grpc server: '')"

fun server_error_text :: "server_error \<Rightarrow> string" where
  "server_error_text ErrServerClosed = ''http: Server closed''"
| "server_error_text ErrServerStopped = ''grpc: the server has been stopped''"
| "server_error_text (ServerError e) = e"

text \<open>The end of a server goroutine with the result of its run function.\<close>

definition server_ends :: "server \<Rightarrow> server_error option \<Rightarrow> daemon_run \<Rightarrow> daemon_run" where
  "server_ends s res d =
     (let d1 = d\<lparr>dm_running := (dm_running d)(s := False)\<rparr>
      in case res of
           None \<Rightarrow> d1
         | Some e \<Rightarrow>
             let err = server_label s @ server_error_text e
             in d1\<lparr>dm_chan := dm_chan d @ [err], dm_sent := dm_sent d @ [err]\<rparr>)"

text \<open>
  What the libraries document of the serving calls: \<open>ListenAndServe\<close> never returns
  \<open>nil\<close>, and \<open>ErrServerClosed\<close> only after \<open>Shutdown\<close>, which
  \<open>runHTTPServer\<close> calls once the context is done; \<open>Serve\<close> returns without an error of
  its own only after \<open>GracefulStop\<close>, which follows the context.
\<close>

definition http_possible :: "bool \<Rightarrow> http_select \<Rightarrow> bool" where
  "http_possible ctx_done sel \<longleftrightarrow>
     (case sel of
        HttpCtxDone shutdown served \<Rightarrow> ctx_done \<and> served \<noteq> None
      | HttpServeEnded served \<Rightarrow> served \<noteq> None \<and> served \<noteq> Some ErrServerClosed)"

definition grpc_possible :: "bool \<Rightarrow> server_error option \<Rightarrow> server_error option \<Rightarrow> bool" where
  "grpc_possible ctx_done listen served \<longleftrightarrow>
     listen \<noteq> None \<or> ctx_done \<or> (served \<noteq> None \<and> served \<noteq> Some ErrServerStopped)"

inductive daemon_step :: "daemon_run \<Rightarrow> daemon_run \<Rightarrow> bool" where
  http_ends: "dm_running d HTTP \<Longrightarrow> http_possible (dm_ctx d) sel \<Longrightarrow>
     daemon_step d (server_ends HTTP (runHTTPServer sel) d)"
| grpc_ends: "dm_running d GRPC \<Longrightarrow> grpc_possible (dm_ctx d) listen served \<Longrightarrow>
     daemon_step d (server_ends GRPC (runGRPCServer listen served) d)"
| close_chan: "\<not> dm_running d HTTP \<Longrightarrow> \<not> dm_running d GRPC \<Longrightarrow> \<not> dm_closed d \<Longrightarrow>
     daemon_step d (d\<lparr>dm_closed := True\<rparr>)"
| select_ctx: "dm_main d = Selecting \<Longrightarrow> dm_ctx d \<Longrightarrow> daemon_step d (d\<lparr>dm_main := Draining None\<rparr>)"
| select_err: "dm_main d = Selecting \<Longrightarrow> dm_chan d = e # es \<Longrightarrow>
     daemon_step d (d\<lparr>dm_main := Draining (Some e), dm_chan := es, dm_ctx := True\<rparr>)"
| select_closed: "dm_main d = Selecting \<Longrightarrow> dm_chan d = [] \<Longrightarrow> dm_closed d \<Longrightarrow>
     daemon_step d (d\<lparr>dm_main := Draining None, dm_ctx := True\<rparr>)"
| drain: "dm_main d = Draining f \<Longrightarrow> dm_chan d = e # es \<Longrightarrow>
     daemon_step d (d\<lparr>dm_main := Draining (if f = None then Some e else f), dm_chan := es\<rparr>)"
| finish: "dm_main d = Draining f \<Longrightarrow> dm_chan d = [] \<Longrightarrow> dm_closed d \<Longrightarrow>
     daemon_step d (d\<lparr>dm_main := Exited f\<rparr>)"

text \<open>With the signals of the surroundings.\<close>

inductive daemon_env_step :: "daemon_run \<Rightarrow> daemon_run \<Rightarrow> bool" where
  internal: "daemon_step d d' \<Longrightarrow> daemon_env_step d d'"
| signal: "daemon_env_step d (d\<lparr>dm_ctx := True\<rparr>)"

text \<open>\<open>fatalErr\<close> so far.\<close>

fun fatal :: "main_phase \<Rightarrow> string option" where
  "fatal Selecting = None"
| "fatal (Draining f) = f"
| "fatal (Exited f) = f"

definition first_of :: "'a list \<Rightarrow> 'a option" where
  "first_of xs = (case xs of [] \<Rightarrow> None | x # _ \<Rightarrow> Some x)"

section \<open>What the exit means\<close>

definition daemon_inv :: "daemon_run \<Rightarrow> bool" where
  "daemon_inv d \<longleftrightarrow>
     (fatal (dm_main d) = None \<longrightarrow> dm_chan d = dm_sent d)
     \<and> (fatal (dm_main d) \<noteq> None \<longrightarrow> fatal (dm_main d) = first_of (dm_sent d))
     \<and> (dm_closed d \<longrightarrow> (\<forall>s. \<not> dm_running d s))
     \<and> (\<forall>f. dm_main d = Exited f \<longrightarrow> dm_closed d \<and> dm_chan d = [])
     \<and> (dm_main d \<noteq> Selecting \<longrightarrow> dm_ctx d)
     \<and> (\<forall>s. \<not> dm_ctx d \<longrightarrow> \<not> dm_running d s \<longrightarrow> dm_chan d \<noteq> [])"

lemma daemon_inv_start: "daemon_inv daemon_start"
  by (simp add: daemon_inv_def daemon_start_def)

lemma server_all: "(\<forall>s. P s) \<longleftrightarrow> P HTTP \<and> P GRPC"
  by (metis server.exhaust)

lemma server_ends_frame [simp]:
  "dm_main (server_ends s r d) = dm_main d" "dm_closed (server_ends s r d) = dm_closed d"
  "dm_ctx (server_ends s r d) = dm_ctx d" "dm_running (server_ends s r d) = (dm_running d)(s := False)"
  by (simp_all add: server_ends_def Let_def split: option.split)

lemma server_ends_chan:
  "\<exists>es. dm_chan (server_ends s r d) = dm_chan d @ es \<and> dm_sent (server_ends s r d) = dm_sent d @ es"
  by (simp add: server_ends_def Let_def split: option.split)

lemma daemon_inv_ends:
  assumes "daemon_inv d" and "dm_running d s" and "r \<noteq> None \<or> dm_ctx d"
  shows "daemon_inv (server_ends s r d)"
proof -
  obtain es where es: "dm_chan (server_ends s r d) = dm_chan d @ es" "dm_sent (server_ends s r d) = dm_sent d @ es"
    using server_ends_chan by blast
  have open_chan: "\<not> dm_closed d" using assms by (auto simp: daemon_inv_def)
  have "fatal (dm_main d) \<noteq> None \<Longrightarrow> first_of (dm_sent d @ es) = fatal (dm_main d)"
    using assms(1) by (cases "dm_sent d") (auto simp: daemon_inv_def first_of_def)
  moreover have "\<not> dm_ctx d \<Longrightarrow> dm_chan (server_ends s r d) \<noteq> []"
    using assms(3) by (auto simp: server_ends_def Let_def)
  ultimately show ?thesis using assms(1) es open_chan by (auto simp: daemon_inv_def)
qed

text \<open>Without the context being done a server function returns an error; with it, it can return none.\<close>

lemma http_result: "http_possible ctx_done sel \<Longrightarrow> runHTTPServer sel \<noteq> None \<or> ctx_done"
  by (cases sel) (auto simp: http_possible_def unless_closed_def)

lemma grpc_result: "grpc_possible ctx_done listen served \<Longrightarrow> runGRPCServer listen served \<noteq> None \<or> ctx_done"
  by (auto simp: grpc_possible_def runGRPCServer_def split: option.splits)

lemma server_can_end: "dm_running d s \<Longrightarrow> dm_ctx d \<Longrightarrow> \<exists>d'. daemon_step d d'"
  using daemon_step.http_ends [of d "HttpCtxDone None (Some ErrServerClosed)"] daemon_step.grpc_ends [of d None None]
  by (cases s) (auto simp: http_possible_def grpc_possible_def)

lemma daemon_inv_step: "daemon_step d d' \<Longrightarrow> daemon_inv d \<Longrightarrow> daemon_inv d'"
proof (induction rule: daemon_step.induct)
  case (http_ends d sel)
  then show ?case using http_result by (blast intro: daemon_inv_ends)
next
  case (grpc_ends d listen served)
  then show ?case using grpc_result by (blast intro: daemon_inv_ends)
next
  case (close_chan d)
  then show ?case by (simp add: daemon_inv_def server_all)
next
  case (select_err d e es)
  then show ?case by (auto simp: daemon_inv_def first_of_def split: list.split)
next
  case (drain d f e es)
  then show ?case by (auto simp: daemon_inv_def first_of_def split: list.split)
qed (auto simp: daemon_inv_def)

lemma daemon_inv_reach: "daemon_env_step\<^sup>*\<^sup>* daemon_start d \<Longrightarrow> daemon_inv d"
proof (induction rule: rtranclp_induct)
  case base
  show ?case by (rule daemon_inv_start)
next
  case (step y z)
  from step.hyps(2) show ?case
  proof (cases rule: daemon_env_step.cases)
    case internal
    then show ?thesis using daemon_inv_step step.IH by blast
  next
    case signal
    then show ?thesis using step.IH by (simp add: daemon_inv_def)
  qed
qed

text \<open>
  C15. When the daemon exits, both servers have ended and every error they sent was received; it
  exits with the first error that was sent, and cleanly exactly when no server sent one.
\<close>

theorem daemon_exit_reports_first_error:
  assumes "daemon_env_step\<^sup>*\<^sup>* daemon_start d" and "dm_main d = Exited res"
  shows "res = first_of (dm_sent d) \<and> \<not> dm_running d HTTP \<and> \<not> dm_running d GRPC \<and> dm_chan d = []"
  using daemon_inv_reach [OF assms(1)] assms(2)
  by (cases res) (auto simp: daemon_inv_def first_of_def server_all)

section \<open>The daemon comes to its end\<close>

fun phase_work :: "main_phase \<Rightarrow> nat" where
  "phase_work Selecting = 2"
| "phase_work (Draining f) = 1"
| "phase_work (Exited f) = 0"

text \<open>Two steps per running server (its end, and the receipt of its error), and one for each of the rest.\<close>

definition daemon_work :: "daemon_run \<Rightarrow> nat" where
  "daemon_work d = (if dm_running d HTTP then 2 else 0) + (if dm_running d GRPC then 2 else 0)
     + (if dm_closed d then 0 else 1) + phase_work (dm_main d) + length (dm_chan d)"

lemma server_ends_work: "dm_running d s \<Longrightarrow> daemon_work (server_ends s r d) < daemon_work d"
  by (cases s; cases r) (auto simp: daemon_work_def server_ends_def Let_def)

lemma daemon_step_work: "daemon_step d d' \<Longrightarrow> daemon_work d' < daemon_work d"
  by (induction rule: daemon_step.induct) (auto simp: server_ends_work, auto simp: daemon_work_def)

definition ending :: "daemon_run \<Rightarrow> bool" where
  "ending d \<longleftrightarrow> dm_ctx d \<or> \<not> dm_running d HTTP \<or> \<not> dm_running d GRPC"

lemma ending_step: "daemon_step d d' \<Longrightarrow> ending d \<Longrightarrow> ending d'"
  by (induction rule: daemon_step.induct) (auto simp: ending_def)

lemma daemon_not_stuck:
  assumes inv: "daemon_inv d" and "ending d" and running: "\<And>f. dm_main d \<noteq> Exited f"
  shows "\<exists>d'. daemon_step d d'"
proof (cases "dm_main d")
  case Selecting
  show ?thesis
  proof (cases "dm_chan d")
    case Nil
    then have "dm_ctx d" using inv assms(2) unfolding daemon_inv_def ending_def by blast
    with Selecting show ?thesis by (blast intro: daemon_step.select_ctx)
  next
    case (Cons e es)
    with Selecting show ?thesis by (blast intro: daemon_step.select_err)
  qed
next
  case (Draining f)
  then have ctx: "dm_ctx d" using inv by (simp add: daemon_inv_def)
  show ?thesis
  proof (cases "dm_running d HTTP \<or> dm_running d GRPC")
    case True
    then show ?thesis using ctx by (blast intro: server_can_end)
  next
    case False
    with Draining show ?thesis
      by (cases "dm_chan d"; cases "dm_closed d") (blast intro: daemon_step.intros)+
  qed
qed (use running in blast)

interpretation dmn: ending_system daemon_step daemon_work "\<lambda>d. daemon_inv d \<and> ending d" "\<lambda>d. \<exists>f. dm_main d = Exited f"
  by unfold_locales (use daemon_step_work daemon_inv_step ending_step daemon_not_stuck in blast)+

text \<open>
  C16. Once a signal arrived or a server ended, the daemon comes to its end by itself: it takes
  at most as many further steps as \<open>daemon_work\<close> counts (seven at the start), it is never stuck
  before it has exited, and it can exit from wherever it is.
\<close>

theorem daemon_terminates:
  assumes "daemon_env_step\<^sup>*\<^sup>* daemon_start d" and "ending d"
  shows "(\<exists>d' f. daemon_step\<^sup>*\<^sup>* d d' \<and> dm_main d' = Exited f)
    \<and> (\<forall>n d'. (daemon_step ^^ n) d d' \<longrightarrow> n \<le> daemon_work d
         \<and> ((\<exists>f. dm_main d' = Exited f) \<or> (\<exists>d''. daemon_step d' d'')))"
proof -
  have ok: "daemon_inv d \<and> ending d" using daemon_inv_reach [OF assms(1)] assms(2) by blast
  from dmn.run_ends [OF this] dmn.run_bounded dmn.not_stuck [OF dmn.ok_run [OF _ ok]] show ?thesis
    by (metis add_leE)
qed

definition grpc_failed :: daemon_run where
  "grpc_failed = server_ends GRPC (Some (ServerError ''bind: address already in use'')) daemon_start"

lemma grpc_failed_reached: "daemon_env_step\<^sup>*\<^sup>* daemon_start grpc_failed" "ending grpc_failed"
proof -
  have "daemon_step daemon_start grpc_failed"
    using daemon_step.grpc_ends [of daemon_start "Some (ServerError ''bind: address already in use'')" None]
    by (simp add: daemon_start_def grpc_failed_def grpc_possible_def runGRPCServer_def)
  then show "daemon_env_step\<^sup>*\<^sup>* daemon_start grpc_failed"
    by (intro r_into_rtranclp [of daemon_env_step] daemon_env_step.internal)
  show "ending grpc_failed" by (simp add: grpc_failed_def ending_def)
qed

theorem daemon_terminates_witness:
  "\<exists>d' f. daemon_step\<^sup>*\<^sup>* grpc_failed d' \<and> dm_main d' = Exited f"
  using daemon_terminates [OF grpc_failed_reached] by blast

lemma internal_reach: "daemon_step\<^sup>*\<^sup>* d d' \<Longrightarrow> daemon_env_step\<^sup>*\<^sup>* d d'"
  by (induction rule: rtranclp_induct) (auto intro: daemon_env_step.internal rtranclp.rtrancl_into_rtrancl)

lemma sent_grows: "daemon_step\<^sup>*\<^sup>* d d' \<Longrightarrow> \<exists>es. dm_sent d' = dm_sent d @ es"
proof (induction rule: rtranclp_induct)
  case (step y z)
  from step.hyps(2) have "\<exists>es. dm_sent z = dm_sent y @ es"
    by (cases rule: daemon_step.cases) (use server_ends_chan in fastforce)+
  with step.IH show ?case by auto
qed simp

theorem daemon_exit_reports_first_error_witness:
  "\<exists>d. daemon_env_step\<^sup>*\<^sup>* daemon_start d \<and> dm_main d = Exited (Some ''grpc server: bind: address already in use'')"
proof -
  obtain d res where d: "daemon_step\<^sup>*\<^sup>* grpc_failed d" "dm_main d = Exited res"
    using dmn.run_ends [of grpc_failed] daemon_inv_reach grpc_failed_reached by blast
  then have reach: "daemon_env_step\<^sup>*\<^sup>* daemon_start d"
    using grpc_failed_reached(1) internal_reach by (meson rtranclp_trans)
  have "dm_sent grpc_failed = [''grpc server: bind: address already in use'']"
    by (simp add: grpc_failed_def server_ends_def daemon_start_def server_label_def Let_def)
  then have "first_of (dm_sent d) = Some ''grpc server: bind: address already in use''"
    using sent_grows [OF d(1)] by (auto simp: first_of_def)
  with daemon_exit_reports_first_error [OF reach d(2)] reach d(2) show ?thesis by auto
qed

end
