(* ===== verification/Client.thy ===== *)
theory Client
  imports Go_Url Go_Json Go_Flag Grpc_Service
begin

text \<open>
  The client (\<open>cmd/cloudtapctl/main.go\<close>): endpoint construction, TLS and credential options,
  the gRPC calls with their HTTP fallback, and \<open>main\<close>. The remote side is a state \<open>'s\<close>
  with three functions: \<open>dial\<close> (the error of \<open>grpc.DialContext\<close>), \<open>conn\<close> (the
  connection to an address, called through the generated stubs of \<open>Grpc_Service\<close>) and
  \<open>http_do\<close> (\<open>http.Client.Do\<close>). An operation returns its error text, the lines it printed and the remote state; log output and the flag defaults that \<open>usage\<close>
  prints to standard error are not modelled. Shown: the TLS configuration is what the options say,
  and how addresses become base URLs.
\<close>

section \<open>Addresses\<close>

definition client_envOrDefault :: "(string \<Rightarrow> string) \<Rightarrow> string \<Rightarrow> string \<Rightarrow> string" where
  "client_envOrDefault getenv key fallback = (if getenv key \<noteq> [] then getenv key else fallback)"

definition sanitizeHTTPBase :: "string \<Rightarrow> string" where
  "sanitizeHTTPBase addr =
     (let trimmed = TrimSpace addr
      in if trimmed = [] then ''http://localhost:8080''
         else if HasPrefix trimmed ''http://'' \<or> HasPrefix trimmed ''https://'' then TrimRight trimmed CHR ''/''
         else if HasPrefix trimmed '':'' then ''http://localhost'' @ trimmed
         else ''http://'' @ TrimRight trimmed CHR ''/'')"

definition defaultHTTPURL :: "(string \<Rightarrow> string) \<Rightarrow> string" where
  "defaultHTTPURL getenv =
     (if getenv ''CLOUDTAP_HTTP_URL'' \<noteq> [] then getenv ''CLOUDTAP_HTTP_URL''
      else if getenv ''CLOUDTAP_HTTP_ADDR'' \<noteq> [] then sanitizeHTTPBase (getenv ''CLOUDTAP_HTTP_ADDR'')
      else ''http://localhost:8080'')"

section \<open>TLS and credentials\<close>

text \<open>Certificates and pools are opaque texts; the minimum version is the protocol number.\<close>

record tls_Config =
  tls_MinVersion :: nat
  tls_InsecureSkipVerify :: bool
  tls_Certificates :: "string list"
  tls_RootCAs :: "string option"

definition VersionTLS12 :: nat where
  "VersionTLS12 = 0x0303"

datatype tls_error = CertAndKeyRequired | LoadKeyPairError string | ReadCAError string | BadCACert

text \<open>
  \<open>LoadX509KeyPair\<close>, \<open>ReadFile\<close> and \<open>AppendCertsFromPEM\<close> are the library functions:
  an error text or the certificate, an error text or the bytes, the pool or nothing.
\<close>

definition buildTLSConfig ::
  "(string \<Rightarrow> string \<Rightarrow> string + string) \<Rightarrow> (string \<Rightarrow> string + string) \<Rightarrow> (string \<Rightarrow> string option) \<Rightarrow>
     string \<Rightarrow> string \<Rightarrow> string \<Rightarrow> bool \<Rightarrow> tls_error + tls_Config option" where
  "buildTLSConfig LoadX509KeyPair ReadFile AppendCertsFromPEM certFile keyFile caFile skipVerify =
     (if certFile = [] \<and> keyFile = [] \<and> caFile = [] \<and> \<not> skipVerify then Inr None
      else
        let cfg = \<lparr>tls_MinVersion = VersionTLS12, tls_InsecureSkipVerify = skipVerify, tls_Certificates = [],
                   tls_RootCAs = None\<rparr>;
            with_cert =
              (if certFile \<noteq> [] \<or> keyFile \<noteq> [] then
                 (if certFile = [] \<or> keyFile = [] then Inl CertAndKeyRequired
                  else (case LoadX509KeyPair certFile keyFile of
                          Inl e \<Rightarrow> Inl (LoadKeyPairError e)
                        | Inr cert \<Rightarrow> Inr (cfg\<lparr>tls_Certificates := [cert]\<rparr>)))
               else Inr cfg)
        in (case with_cert of
              Inl e \<Rightarrow> Inl e
            | Inr cfg' \<Rightarrow>
                if caFile \<noteq> [] then
                  (case ReadFile caFile of
                     Inl e \<Rightarrow> Inl (ReadCAError e)
                   | Inr data \<Rightarrow>
                       (case AppendCertsFromPEM data of
                          None \<Rightarrow> Inl BadCACert
                        | Some pool \<Rightarrow> Inr (Some (cfg'\<lparr>tls_RootCAs := Some pool\<rparr>))))
                else Inr (Some cfg')))"

fun tls_error_text :: "tls_error \<Rightarrow> string" where
  "tls_error_text CertAndKeyRequired = ''both --tls-cert and --tls-key are required''"
| "tls_error_text (LoadKeyPairError e) = e"
| "tls_error_text (ReadCAError e) = e"
| "tls_error_text BadCACert = ''failed to parse CA cert''"

datatype http_client = DefaultClient | TLSClient tls_Config

definition newHTTPClient :: "tls_Config option \<Rightarrow> http_client" where
  "newHTTPClient tlsCfg = (case tlsCfg of None \<Rightarrow> DefaultClient | Some c \<Rightarrow> TLSClient c)"

datatype DialOption = TransportInsecure | TransportTLS tls_Config | PerRPCToken string

definition buildGRPCDialOptions :: "tls_Config option \<Rightarrow> string \<Rightarrow> DialOption list" where
  "buildGRPCDialOptions tlsCfg token =
     (let creds = (case tlsCfg of None \<Rightarrow> TransportInsecure | Some c \<Rightarrow> TransportTLS c)
      in if token \<noteq> [] then [creds, PerRPCToken token] else [creds])"

text \<open>\<open>tokenCredentials\<close>.\<close>

definition GetRequestMetadata :: "string \<Rightarrow> (string, string) gomap" where
  "GetRequestMetadata token = [(''authorization'', ''Bearer '' @ token)]"

definition RequireTransportSecurity :: "string \<Rightarrow> bool" where
  "RequireTransportSecurity token = False"

section \<open>The runtime\<close>

record clientRuntime =
  rt_grpcAddr :: string
  rt_httpBase :: string
  rt_httpClient :: "http_client option"
  rt_grpcOpts :: "DialOption list"
  rt_token :: string

record client_request =
  cr_Method :: string
  cr_URL :: string
  cr_Header :: "(string, string) gomap"
  cr_Ctx :: go_ctx

type_synonym dialer_fn = "go_ctx \<Rightarrow> string \<Rightarrow> DialOption list \<Rightarrow> string option"
type_synonym 's conn_fn = "string \<Rightarrow> DialOption list \<Rightarrow> 's invoke_fn"
type_synonym 's do_fn = "http_client \<Rightarrow> client_request \<Rightarrow> 's \<Rightarrow> (string + http_response) \<times> 's"

definition dial_options :: "clientRuntime \<Rightarrow> DialOption list" where
  "dial_options rt = (if rt_grpcOpts rt = [] then [TransportInsecure] else rt_grpcOpts rt)"

definition dialGRPC :: "dialer_fn \<Rightarrow> clientRuntime \<Rightarrow> go_ctx \<Rightarrow> string option" where
  "dialGRPC dial rt ctx = dial ctx (rt_grpcAddr rt) (dial_options rt)"

text \<open>The outgoing metadata of \<open>grpcContext\<close>, for a context without metadata of its own.\<close>

definition grpcContext :: "clientRuntime \<Rightarrow> (string \<times> string) list" where
  "grpcContext rt = (if rt_token rt = [] then [] else [(''authorization'', ''Bearer '' @ rt_token rt)])"

definition httpRequest ::
  "(string \<Rightarrow> url_error \<Rightarrow> string) \<Rightarrow> 's do_fn \<Rightarrow> clientRuntime \<Rightarrow> go_ctx \<Rightarrow> string \<Rightarrow> (string, string list) gomap option \<Rightarrow>
     's \<Rightarrow> (string + http_response) \<times> 's" where
  "httpRequest url_text http_do rt ctx path query s =
     (let base = sanitizeHTTPBase (rt_httpBase rt);
          endpoint0 = base @ path;
          endpoint = (case query of
                        None \<Rightarrow> endpoint0
                      | Some vs \<Rightarrow> let q = Values_Encode vs in if q \<noteq> [] then endpoint0 @ ''?'' @ q else endpoint0)
      in case url_Parse endpoint of
           Inl e \<Rightarrow> (Inl (url_text endpoint e), s)
         | Inr _ \<Rightarrow>
             let hdr = (if rt_token rt \<noteq> [] then [(''Authorization'', ''Bearer '' @ rt_token rt)] else []);
                 client = (case rt_httpClient rt of None \<Rightarrow> DefaultClient | Some c \<Rightarrow> c)
             in http_do client \<lparr>cr_Method = ''GET'', cr_URL = endpoint, cr_Header = hdr, cr_Ctx = ctx\<rparr> s)"

section \<open>Operations\<close>

definition requestTunnelGRPC ::
  "dialer_fn \<Rightarrow> 's conn_fn \<Rightarrow> clientRuntime \<Rightarrow> go_ctx \<Rightarrow> string \<Rightarrow> 's \<Rightarrow> string option \<times> string list \<times> 's" where
  "requestTunnelGRPC dial conn rt ctx target s =
     (case dialGRPC dial rt ctx of
        Some e \<Rightarrow> (Some e, [], s)
      | None \<Rightarrow>
          (case tunnelServiceClient_Open (conn (rt_grpcAddr rt) (dial_options rt)) ctx (grpcContext rt)
                  \<lparr>orq_Target = target\<rparr> s of
             (Inl e, s') \<Rightarrow> (Some e, [], s')
           | (Inr resp, s') \<Rightarrow> (None, [OpenResponse_GetMessage (Some resp)], s')))"

definition closeTunnelGRPC ::
  "dialer_fn \<Rightarrow> 's conn_fn \<Rightarrow> clientRuntime \<Rightarrow> go_ctx \<Rightarrow> string \<Rightarrow> 's \<Rightarrow> string option \<times> string list \<times> 's" where
  "closeTunnelGRPC dial conn rt ctx target s =
     (case dialGRPC dial rt ctx of
        Some e \<Rightarrow> (Some e, [], s)
      | None \<Rightarrow>
          (case tunnelServiceClient_Close (conn (rt_grpcAddr rt) (dial_options rt)) ctx (grpcContext rt)
                  \<lparr>crq_Target = target\<rparr> s of
             (Inl e, s') \<Rightarrow> (Some e, [], s')
           | (Inr resp, s') \<Rightarrow> (None, [CloseResponse_GetMessage (Some resp)], s')))"

text \<open>\<open>requestTunnelHTTP\<close> and \<open>closeTunnelHTTP\<close> differ in the path only.\<close>

definition http_failure :: "http_response \<Rightarrow> string" where
  "http_failure resp = ''http '' @ itoa (int (rs_Status resp)) @ '': '' @ TrimSpace (rs_Body resp)"

definition tunnelHTTP ::
  "(string \<Rightarrow> url_error \<Rightarrow> string) \<Rightarrow> 's do_fn \<Rightarrow> clientRuntime \<Rightarrow> go_ctx \<Rightarrow> string \<Rightarrow> string \<Rightarrow> 's \<Rightarrow>
     string option \<times> string list \<times> 's" where
  "tunnelHTTP url_text http_do rt ctx path target s =
     (case httpRequest url_text http_do rt ctx path (Some [(''target'', [target])]) s of
        (Inl e, s') \<Rightarrow> (Some e, [], s')
      | (Inr resp, s') \<Rightarrow>
          if rs_Status resp \<ge> 400 then (Some (http_failure resp), [], s')
          else (None, [TrimSpace (rs_Body resp)], s'))"

definition requestTunnelHTTP ::
  "(string \<Rightarrow> url_error \<Rightarrow> string) \<Rightarrow> 's do_fn \<Rightarrow> clientRuntime \<Rightarrow> go_ctx \<Rightarrow> string \<Rightarrow> 's \<Rightarrow> string option \<times> string list \<times> 's" where
  "requestTunnelHTTP url_text http_do rt ctx target s = tunnelHTTP url_text http_do rt ctx ''/proxy'' target s"

definition closeTunnelHTTP ::
  "(string \<Rightarrow> url_error \<Rightarrow> string) \<Rightarrow> 's do_fn \<Rightarrow> clientRuntime \<Rightarrow> go_ctx \<Rightarrow> string \<Rightarrow> 's \<Rightarrow> string option \<times> string list \<times> 's" where
  "closeTunnelHTTP url_text http_do rt ctx target s = tunnelHTTP url_text http_do rt ctx ''/close'' target s"

text \<open>The fallback of \<open>requestTunnel\<close> and \<open>closeTunnel\<close>.\<close>

definition with_fallback ::
  "('s \<Rightarrow> string option \<times> string list \<times> 's) \<Rightarrow> ('s \<Rightarrow> string option \<times> string list \<times> 's) \<Rightarrow> 's \<Rightarrow> string option \<times> string list \<times> 's" where
  "with_fallback grpc http s =
     (case grpc s of
        (None, out, s') \<Rightarrow> (None, out, s')
      | (Some _, out, s') \<Rightarrow>
          (case http s' of
             (Some e, out', s'') \<Rightarrow> (Some (''http fallback failed: '' @ e), out @ out', s'')
           | (None, out', s'') \<Rightarrow> (None, out @ out', s'')))"

definition requestTunnel ::
  "(string \<Rightarrow> url_error \<Rightarrow> string) \<Rightarrow> dialer_fn \<Rightarrow> 's conn_fn \<Rightarrow> 's do_fn \<Rightarrow> clientRuntime \<Rightarrow> go_ctx \<Rightarrow> string \<Rightarrow> 's \<Rightarrow>
     string option \<times> string list \<times> 's" where
  "requestTunnel url_text dial conn http_do rt ctx target =
     with_fallback (requestTunnelGRPC dial conn rt ctx target) (requestTunnelHTTP url_text http_do rt ctx target)"

definition closeTunnel ::
  "(string \<Rightarrow> url_error \<Rightarrow> string) \<Rightarrow> dialer_fn \<Rightarrow> 's conn_fn \<Rightarrow> 's do_fn \<Rightarrow> clientRuntime \<Rightarrow> go_ctx \<Rightarrow> string \<Rightarrow> 's \<Rightarrow>
     string option \<times> string list \<times> 's" where
  "closeTunnel url_text dial conn http_do rt ctx target =
     with_fallback (closeTunnelGRPC dial conn rt ctx target) (closeTunnelHTTP url_text http_do rt ctx target)"

definition listTargetsGRPC ::
  "dialer_fn \<Rightarrow> 's conn_fn \<Rightarrow> clientRuntime \<Rightarrow> go_ctx \<Rightarrow> 's \<Rightarrow> (string + string list) \<times> 's" where
  "listTargetsGRPC dial conn rt ctx s =
     (case dialGRPC dial rt ctx of
        Some e \<Rightarrow> (Inl e, s)
      | None \<Rightarrow>
          (case tunnelServiceClient_ListTargets (conn (rt_grpcAddr rt) (dial_options rt)) ctx (grpcContext rt)
                  ListTargetsRequest s of
             (Inl e, s') \<Rightarrow> (Inl e, s')
           | (Inr resp, s') \<Rightarrow> (Inr (ListTargetsResponse_GetTargets (Some resp)), s')))"

text \<open>The payload struct's decoder, and the error of a body that is no such document.\<close>

definition dec_payload :: "string list decoder" where
  "dec_payload = dec_struct [(''targets'', dec_list)]"

definition listTargetsHTTP ::
  "(string \<Rightarrow> url_error \<Rightarrow> string) \<Rightarrow> (string \<Rightarrow> string) \<Rightarrow> 's do_fn \<Rightarrow> clientRuntime \<Rightarrow> go_ctx \<Rightarrow> 's \<Rightarrow> (string + string list) \<times> 's" where
  "listTargetsHTTP url_text json_text http_do rt ctx s =
     (case httpRequest url_text http_do rt ctx ''/targets'' None s of
        (Inl e, s') \<Rightarrow> (Inl e, s')
      | (Inr resp, s') \<Rightarrow>
          if rs_Status resp \<ge> 400 then (Inl (http_failure resp), s')
          else (case Unmarshal dec_payload (json_first (rs_Body resp)) [] of
                  None \<Rightarrow> (Inl (json_text (rs_Body resp)), s')
                | Some ts \<Rightarrow> (Inr ts, s')))"

definition listTargets ::
  "(string \<Rightarrow> url_error \<Rightarrow> string) \<Rightarrow> (string \<Rightarrow> string) \<Rightarrow> dialer_fn \<Rightarrow> 's conn_fn \<Rightarrow> 's do_fn \<Rightarrow> clientRuntime \<Rightarrow> go_ctx \<Rightarrow>
     's \<Rightarrow> (string + string list) \<times> 's" where
  "listTargets url_text json_text dial conn http_do rt ctx s =
     (case listTargetsGRPC dial conn rt ctx s of
        (Inr ts, s') \<Rightarrow> (Inr ts, s')
      | (Inl _, s') \<Rightarrow> listTargetsHTTP url_text json_text http_do rt ctx s')"

section \<open>The program\<close>

definition client_flags :: "(string \<times> flag_kind) list" where
  "client_flags = [(''server'', StringFlag), (''http-url'', StringFlag), (''token'', StringFlag), (''tls-cert'', StringFlag),
     (''tls-key'', StringFlag), (''ca-cert'', StringFlag), (''insecure-skip-verify'', BoolFlag)]"

definition client_defaults :: "(string \<Rightarrow> string) \<Rightarrow> (string, string) gomap" where
  "client_defaults getenv =
     [(''server'', client_envOrDefault getenv ''CLOUDTAP_GRPC_ADDR'' ''localhost:9090''),
      (''http-url'', defaultHTTPURL getenv),
      (''token'', client_envOrDefault getenv ''CLOUDTAP_TOKEN'' []),
      (''tls-cert'', client_envOrDefault getenv ''CLOUDTAP_TLS_CERT'' []),
      (''tls-key'', client_envOrDefault getenv ''CLOUDTAP_TLS_KEY'' []),
      (''ca-cert'', client_envOrDefault getenv ''CLOUDTAP_CA_CERT'' []),
      (''insecure-skip-verify'', ''false'')]"

definition usage :: "string list" where
  "usage = [''Usage:'', ''  cloudtapctl proxy <service>'', ''  cloudtapctl close <service>'', ''  cloudtapctl list-targets'']"

text \<open>How the process ends: normally, by \<open>log.Fatal\<close> with a message, or inside \<open>flag.Parse\<close>.\<close>

datatype client_exit = ExitOk | Fatal string | FlagExit nat

definition make_runtime :: "(string, string) gomap \<Rightarrow> tls_Config option \<Rightarrow> clientRuntime" where
  "make_runtime vals tlsCfg =
     \<lparr>rt_grpcAddr = flag_get vals ''server'', rt_httpBase = flag_get vals ''http-url'',
      rt_httpClient = Some (newHTTPClient tlsCfg),
      rt_grpcOpts = buildGRPCDialOptions tlsCfg (flag_get vals ''token''), rt_token = flag_get vals ''token''\<rparr>"

text \<open>The switch over the command; \<open>args\<close> are the arguments after the flags.\<close>

definition run_command ::
  "(string \<Rightarrow> url_error \<Rightarrow> string) \<Rightarrow> (string \<Rightarrow> string) \<Rightarrow> dialer_fn \<Rightarrow> 's conn_fn \<Rightarrow> 's do_fn \<Rightarrow> clientRuntime \<Rightarrow> go_ctx \<Rightarrow>
     string list \<Rightarrow> 's \<Rightarrow> client_exit \<times> string list \<times> 's" where
  "run_command url_text json_text dial conn http_do rt ctx args s =
     (let cmd = flag_Arg args 0; target = flag_Arg args 1
      in if cmd = ''proxy'' then
           (if target = [] then (Fatal ''usage: cloudtapctl proxy <service>'', [], s)
            else (case requestTunnel url_text dial conn http_do rt ctx target s of
                    (Some e, out, s') \<Rightarrow> (Fatal (''proxy failed: '' @ e), out, s')
                  | (None, out, s') \<Rightarrow> (ExitOk, out, s')))
         else if cmd = ''close'' then
           (if target = [] then (Fatal ''usage: cloudtapctl close <service>'', [], s)
            else (case closeTunnel url_text dial conn http_do rt ctx target s of
                    (Some e, out, s') \<Rightarrow> (Fatal (''close failed: '' @ e), out, s')
                  | (None, out, s') \<Rightarrow> (ExitOk, out, s')))
         else if cmd = ''list-targets'' then
           (case listTargets url_text json_text dial conn http_do rt ctx s of
              (Inl e, s') \<Rightarrow> (Fatal (''list-targets failed: '' @ e), [], s')
            | (Inr ts, s') \<Rightarrow> (ExitOk, ts, s'))
         else (ExitOk, usage, s))"

definition client_main ::
  "(string \<Rightarrow> url_error \<Rightarrow> string) \<Rightarrow> (string \<Rightarrow> string) \<Rightarrow> (string \<Rightarrow> string \<Rightarrow> string + string) \<Rightarrow> (string \<Rightarrow> string + string) \<Rightarrow>
     (string \<Rightarrow> string option) \<Rightarrow> (string \<Rightarrow> string) \<Rightarrow> instant \<Rightarrow> dialer_fn \<Rightarrow> 's conn_fn \<Rightarrow> 's do_fn \<Rightarrow> string list \<Rightarrow> 's \<Rightarrow>
     client_exit \<times> string list \<times> 's" where
  "client_main url_text json_text LoadX509KeyPair ReadFile AppendCertsFromPEM getenv now dial conn http_do argv s =
     (let ctx = WithTimeout Background now (15 * Second)
      in case parse_flags client_flags (client_defaults getenv) argv of
           HelpRequested \<Rightarrow> (FlagExit 0, [], s)
         | ParseFailed _ \<Rightarrow> (FlagExit 2, [], s)
         | Parsed vals args \<Rightarrow>
             if args = [] then (ExitOk, usage, s)
             else (case buildTLSConfig LoadX509KeyPair ReadFile AppendCertsFromPEM (flag_get vals ''tls-cert'')
                          (flag_get vals ''tls-key'') (flag_get vals ''ca-cert'')
                          (flag_get vals ''insecure-skip-verify'' = ''true'') of
                     Inl e \<Rightarrow> (Fatal (''failed to load TLS config: '' @ tls_error_text e), [], s)
                   | Inr tlsCfg \<Rightarrow>
                       run_command url_text json_text dial conn http_do (make_runtime vals tlsCfg) ctx args s))"

section \<open>TLS options\<close>

text \<open>
  C35. The TLS configuration is what the options say and never weaker: none at all exactly if no
  option is given; a certificate without its key (or the reverse) is refused before any file is
  read; a configuration requires TLS 1.2, skips verification only if told to, and holds client
  certificate and CA pool exactly if their files were given.
\<close>

theorem buildTLSConfig_as_told:
  assumes "buildTLSConfig load rd pem certFile keyFile caFile skip = r"
  shows "(r = Inr None \<longleftrightarrow> certFile = [] \<and> keyFile = [] \<and> caFile = [] \<and> \<not> skip)
    \<and> ((certFile = []) \<noteq> (keyFile = []) \<longrightarrow> r = Inl CertAndKeyRequired)
    \<and> (\<forall>c. r = Inr (Some c) \<longrightarrow> tls_MinVersion c = VersionTLS12 \<and> tls_InsecureSkipVerify c = skip
         \<and> (tls_Certificates c \<noteq> [] \<longleftrightarrow> certFile \<noteq> []) \<and> (tls_RootCAs c \<noteq> None \<longleftrightarrow> caFile \<noteq> []))"
  unfolding assms [symmetric] buildTLSConfig_def Let_def
  by (auto split: sum.splits option.splits if_splits)

theorem buildTLSConfig_as_told_witness:
  "buildTLSConfig (\<lambda>c k. Inr ''pair'') (\<lambda>f. Inl ''no such file'') (\<lambda>d. None) ''cert.pem'' [] [] False = Inl CertAndKeyRequired"
  using buildTLSConfig_as_told [of "\<lambda>c k. Inr ''pair''" "\<lambda>f. Inl ''no such file''" "\<lambda>d. None" "''cert.pem''" "[]" "[]" False, OF refl]
  by simp

section \<open>Base addresses\<close>

definition visible :: "char \<Rightarrow> bool" where
  "visible c \<longleftrightarrow> 0x21 \<le> byte c \<and> byte c \<le> 0x7E"

lemma TrimSpace_visible:
  assumes "s \<noteq> []" and "visible (hd s)" and "visible (last s)"
  shows "TrimSpace s = s"
proof (rule TrimSpace_fixed)
  show "s = [] \<or> space_len s = 0"
    using assms(1,2) by (cases s rule: space_len.cases) (auto simp: visible_def ascii_space_def space2_def space3_def)
  have "visible (hd (rev s))" using assms(1,3) by (simp add: hd_rev)
  then show "s = [] \<or> space_len_rev (rev s) = 0"
    using assms(1)
    by (cases "rev s" rule: space_len_rev.cases) (auto simp: visible_def ascii_space_def space2_def space3_def)
qed

lemma digit_visible: "is_digit c \<Longrightarrow> visible c"
  by (simp add: is_digit_def visible_def)

lemma digits_visible: "list_all is_digit p \<Longrightarrow> p \<noteq> [] \<Longrightarrow> visible (hd p) \<and> visible (last p)"
  by (simp add: list_all_iff digit_visible)

lemma digits_no_slash: "list_all is_digit p \<Longrightarrow> p \<noteq> [] \<Longrightarrow> last p \<noteq> CHR ''/''"
  by (auto simp: list_all_iff is_digit_def dest!: last_in_set)

lemma hostport_no_scheme:
  assumes "CHR '':'' \<notin> set h" and "list_all is_digit p" and "p \<noteq> []"
  shows "\<not> HasPrefix (h @ CHR '':'' # p @ t) ''http://''" and "\<not> HasPrefix (h @ CHR '':'' # p @ t) ''https://''"
    and "h \<noteq> [] \<Longrightarrow> \<not> HasPrefix (h @ CHR '':'' # p @ t) '':''"
proof -
  have no: "\<not> HasPrefix (h @ CHR '':'' # p @ t) (sch @ ''://'')" if "CHR '':'' \<notin> set sch" for sch
  proof
    assume "HasPrefix (h @ CHR '':'' # p @ t) (sch @ ''://'')"
    then obtain z where "h @ CHR '':'' # p @ t = sch @ CHR '':'' # ''//'' @ z"
      by (auto simp: HasPrefix_iff prefix_def)
    then have "Cut (h @ CHR '':'' # p @ t) CHR '':'' = Cut (sch @ CHR '':'' # ''//'' @ z) CHR '':''" by simp
    with assms(1) that have "p @ t = ''//'' @ z" by simp
    with assms(2,3) show False by (cases p) (auto simp: is_digit_def)
  qed
  show "\<not> HasPrefix (h @ CHR '':'' # p @ t) ''http://''" using no [of "''http''"] by simp
  show "\<not> HasPrefix (h @ CHR '':'' # p @ t) ''https://''" using no [of "''https''"] by simp
  show "\<not> HasPrefix (h @ CHR '':'' # p @ t) '':''" if "h \<noteq> []"
    using that assms(1) by (cases h) (auto simp: HasPrefix_def)
qed

lemma TrimRight_slashes:
  assumes "s \<noteq> []" and "last s \<noteq> CHR ''/''"
  shows "TrimRight s CHR ''/'' = s" and "TrimRight (s @ ''/'') CHR ''/'' = s" and "TrimRight (s @ ''//'') CHR ''/'' = s"
  using assms TrimRight_fixed [of s "CHR ''/''"] TrimRight_append [of s "CHR ''/''"]
    TrimRight_append [of "s @ ''/''" "CHR ''/''"] by simp_all

text \<open>
  C36. \<open>sanitizeHTTPBase\<close> gives every usual way of writing an address (\<open>:port\<close>,
  \<open>host:port\<close>, a URL with or without trailing slashes) its base URL without a trailing slash,
  and is the identity on such base URLs; only \<open>:port/\<close> keeps its slash.
\<close>

theorem sanitizeHTTPBase_forms:
  assumes "h \<noteq> []" and "visible (hd h)" and "CHR '':'' \<notin> set h" and "list_all is_digit p" and "p \<noteq> []"
  shows "sanitizeHTTPBase ('':'' @ p) = ''http://localhost:'' @ p
    \<and> sanitizeHTTPBase (h @ '':'' @ p) = ''http://'' @ h @ '':'' @ p
    \<and> sanitizeHTTPBase (h @ '':'' @ p @ ''/'') = ''http://'' @ h @ '':'' @ p
    \<and> sanitizeHTTPBase (''http://'' @ h @ '':'' @ p) = ''http://'' @ h @ '':'' @ p
    \<and> sanitizeHTTPBase (''https://'' @ h @ '':'' @ p @ ''//'') = ''https://'' @ h @ '':'' @ p
    \<and> sanitizeHTTPBase ('':'' @ p @ ''/'') = ''http://localhost:'' @ p @ ''/''"
proof -
  note vis = digits_visible [OF assms(4,5)] digits_no_slash [OF assms(4,5)]
  have sym: "visible CHR ''/''" "visible CHR '':''" "visible CHR ''h''" by (simp_all add: visible_def)
  have trim: "TrimSpace (s @ CHR '':'' # p) = s @ CHR '':'' # p" "TrimSpace (s @ CHR '':'' # p @ ''/'') = s @ CHR '':'' # p @ ''/''"
      "TrimSpace (s @ CHR '':'' # p @ ''//'') = s @ CHR '':'' # p @ ''//''" if "s \<noteq> [] \<Longrightarrow> visible (hd s)" for s
    using that vis assms(5) sym by (cases s; intro TrimSpace_visible; simp)+
  have right: "TrimRight (s @ CHR '':'' # p) CHR ''/'' = s @ CHR '':'' # p"
      "TrimRight (s @ CHR '':'' # p @ ''/'') CHR ''/'' = s @ CHR '':'' # p"
      "TrimRight (s @ CHR '':'' # p @ ''//'') CHR ''/'' = s @ CHR '':'' # p" for s
    using TrimRight_slashes [of "s @ CHR '':'' # p"] vis assms(5) by simp_all
  note no = hostport_no_scheme [OF assms(3-5)] hostport_no_scheme(3) [OF assms(3-5,1)]
  have colon: "\<not> HasPrefix (CHR '':'' # t) ''http://''" "\<not> HasPrefix (CHR '':'' # t) ''https://''"
      "HasPrefix (CHR '':'' # t) '':''" for t by (simp_all add: HasPrefix_def)
  have http: "HasPrefix (''http://'' @ t) ''http://''" "HasPrefix (''https://'' @ t) ''https://''" for t
    by (rule HasPrefix_append)+
  have "sanitizeHTTPBase (CHR '':'' # p) = ''http://localhost:'' @ p"
    using trim(1) [of "[]"] colon [of p] by (simp add: sanitizeHTTPBase_def)
  moreover have "sanitizeHTTPBase (h @ CHR '':'' # p) = ''http://'' @ h @ CHR '':'' # p"
    using trim(1) [of h] no [of "[]"] right(1) [of h] assms(2) by (simp add: sanitizeHTTPBase_def)
  moreover have "sanitizeHTTPBase (h @ CHR '':'' # p @ ''/'') = ''http://'' @ h @ CHR '':'' # p"
    using trim(2) [of h] no [of "''/''"] right(2) [of h] assms(2) by (simp add: sanitizeHTTPBase_def)
  moreover have "sanitizeHTTPBase (''http://'' @ h @ CHR '':'' # p) = ''http://'' @ h @ CHR '':'' # p"
    using trim(1) [of "''http://'' @ h"] http(1) [of "h @ CHR '':'' # p"] right(1) [of "''http://'' @ h"] sym
    by (simp add: sanitizeHTTPBase_def)
  moreover have "sanitizeHTTPBase (''https://'' @ h @ CHR '':'' # p @ ''//'') = ''https://'' @ h @ CHR '':'' # p"
    using trim(3) [of "''https://'' @ h"] http(2) [of "h @ CHR '':'' # p @ ''//''"] right(3) [of "''https://'' @ h"] sym
    by (simp add: sanitizeHTTPBase_def)
  moreover have "sanitizeHTTPBase (CHR '':'' # p @ ''/'') = ''http://localhost:'' @ p @ ''/''"
    using trim(2) [of "[]"] colon [of "p @ ''/''"] by (simp add: sanitizeHTTPBase_def)
  ultimately show ?thesis by simp
qed

theorem sanitizeHTTPBase_forms_witness:
  "sanitizeHTTPBase ''127.0.0.1:8080/'' = ''http://127.0.0.1:8080''"
  using sanitizeHTTPBase_forms [of "''127.0.0.1''" "''8080''"] by (simp add: visible_def is_digit_def)

section \<open>Payloads\<close>

lemma dec_elems_strings: "dec_elems (map JStr ns) old = (ns, True)"
  by (induction ns arbitrary: old) simp_all

lemma dec_payload_targets: "Unmarshal dec_payload (Some (JObj [(''targets'', JArr (map JStr ns))])) [] = Some ns"
  by (simp add: Unmarshal_def dec_payload_def find_field_def dec_elems_strings)

end
