(* ===== verification/Observability.thy ===== *)
theory Observability
  imports Main
begin

text \<open>
  The telemetry placeholder (\<open>pkg/observability/telemetry.go\<close>): an event becomes one line of the
  developer log. No other package calls it.
\<close>

datatype Streamer = Streamer

text \<open>The log is the list of its messages; date and line end are the logger's.\<close>

definition Publish :: "Streamer \<Rightarrow> string \<Rightarrow> string list \<Rightarrow> string list" where
  "Publish s event lg = lg @ [''observability placeholder event: '' @ event]"

end
