(* ===== verification/Spec2Isabelle.thy ===== *)
theory Spec2Isabelle
  imports Adapter_Api Policy_Model Webhook Webhook_Tracking Webhook_Concurrency Frp_Adapter Adapter_Processes Adapter_Uptime Adapter_Start Tunnel Tunnel_Concurrency Grpc_Service Daemon Daemon_Main Client Observability
begin

text \<open>
  \<^bold>\<open>cloudtap\<close> exposes services behind a network edge. The repository holds two programs and
  three packages: the daemon \<open>cloudtapd\<close> (\<open>cmd/cloudtapd\<close>) serves HTTP and gRPC requests
  for tunnels by a tunnel manager (\<open>pkg/tunnel\<close>); the client \<open>cloudtapctl\<close>
  (\<open>cmd/cloudtapctl\<close>) sends them, by gRPC and, if that fails, by HTTP; the adapter packages
  (\<open>pkg/adapter\<close>, \<open>pkg/adapter/frp\<close>) keep an \<open>frpc\<close> process running and answer the
  webhook requests of the frp server, asking a connection handler to allow or deny; and
  \<open>pkg/policy\<close> holds the access policies such a handler would use.

  \<^bold>\<open>Theories.\<close> Go strings are byte strings, a Go map is an association list with distinct keys
  (\<open>gomap\<close>), a context is the instant from which it is done with its error, a duration is a
  number of nanoseconds kept in 64 bits, a counter of type \<open>atomic.Int32\<close> is a 32-bit word.
  An operation that reads the clock takes the readings as arguments; an error return is an option
  or the left side of a sum.

  \<^item> \<open>Cloudtap_Prelude\<close>: these types; the map interface \<open>keyed_store\<close> with its
    interpretation \<open>gm\<close>; the locale \<open>ending_system\<close> of step relations that come to an end,
    interpreted on the webhook's requests, the manager's calls and the daemon's \<open>main\<close>.
  \<^item> \<open>Go_Strings\<close>, \<open>Go_Net\<close>, \<open>Go_Json\<close>, \<open>Go_Url\<close>, \<open>Go_Flag\<close>: what the
    sources use of Go's standard library, with round-trip facts (decimal numbers, host and port,
    JSON documents, query parameters) and the URLs \<open>url.Parse\<close> is shown to accept.
  \<^item> \<open>Adapter_Api\<close> (\<open>pkg/adapter/adapter.go\<close>): events, decisions, status, sentinel
    errors; the documented order of \<open>OnConnection\<close>, \<open>Start\<close> and \<open>Stop\<close> as the
    locale \<open>adapter_lifecycle\<close>, interpreted by the frp adapter.
  \<^item> \<open>Policy_Model\<close> (\<open>pkg/policy/types.go\<close>, \<open>policy.go\<close>): policies, \<open>Validate\<close>
    at all three levels, \<open>Parse\<close>, \<open>LoadFromFile\<close>, \<open>DefaultPolicy\<close>, the evaluator
    stub. Validation decides a declarative well-formedness and reports the first defect; loading
    returns well-formed policies only.
  \<^item> \<open>Webhook\<close> (\<open>pkg/adapter/frp/webhook.go\<close>): the plugin messages with their decoding,
    one definition per handler (\<open>handleLogin\<close> to \<open>handleNewUserConn\<close>),
    \<open>processRequest\<close>, \<open>handleRequest\<close>, \<open>Start\<close>, \<open>shutdown\<close>, \<open>Stop\<close>. Shown:
    which requests are rejected and why, exact event metadata, answers that read back.
  \<^item> \<open>Webhook_Tracking\<close>, \<open>Webhook_Concurrency\<close>: the tracked connections and their
    counter refine an abstract specification over every sequence of requests; interleaved requests
    are linearizable and finish.
  \<^item> \<open>Frp_Adapter\<close>, \<open>Adapter_Start\<close> (\<open>pkg/adapter/frp/adapter.go\<close>): configuration,
    command runner, entry checks of \<open>Start\<close> and \<open>Stop\<close>, \<open>Status\<close>, process handling
    and \<open>runLoop\<close>; then the goroutines of \<open>Start\<close> as the step relation \<open>start_step\<close>.
    Shown: when the restart loop gives up and after which waits, its invariant, what a return of
    \<open>Start\<close> means and when it can happen, and that a webhook server that fails to start goes
    unnoticed.
  \<^item> \<open>Adapter_Processes\<close>, \<open>Adapter_Uptime\<close>: the processes the restart loop starts are
    never two at a time and none is forgotten; the uptime of \<open>Status\<close> is exact although it goes
    through floating point.
  \<^item> \<open>Tunnel\<close> (\<open>pkg/tunnel/manager.go\<close>, \<open>dialer.go\<close>): the manager, its options,
    sources and dialers, \<open>ResolveNetworkAddr\<close>; the daemon's view of it is the locale
    \<open>tunnel_controller\<close>, interpreted as \<open>mgr\<close>.
  \<^item> \<open>Tunnel_Concurrency\<close>: calls of several goroutines interleaved at the critical sections
    of the manager's mutex (\<open>call_step\<close>). Shown: they refine an abstract manager of known names
    and open tunnels, they all return, and how many can open a tunnel while dialling holds the mutex.
  \<^item> \<open>Grpc_Service\<close> (\<open>proto/tunnel/v1\<close>): the generated messages, getters, client stubs,
    method handlers and service description; the locale \<open>grpc_link\<close> states what they rely on of
    the gRPC library, and is interpreted below on a connection to the daemon's service.
  \<^item> \<open>Daemon\<close>, \<open>Daemon_Main\<close> (\<open>cmd/cloudtapd/main.go\<close>): configuration, HTTP handlers
    and mux, gRPC service, the server functions; \<open>main\<close> as the step relation
    \<open>daemon_step\<close> with its exit code and termination.
  \<^item> \<open>Client\<close> (\<open>cmd/cloudtapctl/main.go\<close>): flags, TLS and credential options, the calls
    with their fallback, \<open>main\<close>.
  \<^item> \<open>Observability\<close> (\<open>pkg/observability/telemetry.go\<close>): the log line of an event.
  \<^item> This theory: the client against the daemon, from the command line to the manager and back,
    over HTTP alone, over gRPC with HTTP to fall back to, and when a gRPC reply is lost.

  \<^bold>\<open>Bounds.\<close> The JSON reader takes fuel; \<open>json_fuel\<close> of a text is shown to be enough for
  that text, so no result depends on it. The refinement of the tracking counter holds for fewer
  than \<open>2 ^ 31\<close> requests, where the counter cannot wrap; the restart schedule for delays below
  \<open>2 ^ 62\<close> ns, where doubling cannot (what happens beyond is stated as well). \<open>runLoop\<close>
  runs over a list of passes and is \<open>Running\<close> when the list ends first. The uptime is shown
  exact for \<open>2 ^ 24\<close> seconds.

  \<^bold>\<open>Parameters.\<close> The YAML decoder, the file system, the certificate functions, the gRPC
  connection (\<open>Invoke\<close>), the HTTP transport, listening sockets, network dialling, the wording
  of library errors, the connection handler, and the frpc process (by the results of starting it and waiting for it).

  \<^bold>\<open>Not modelled.\<close> Log output (but for \<open>logOutput\<close> of the frp adapter, whose only
  effect it is, and the placeholder of \<open>pkg/observability\<close>); of the generated code
  the reflection support of \<open>tunnel.pb.go\<close> (\<open>Reset\<close>, \<open>String\<close>, \<open>ProtoReflect\<close>,
  \<open>Descriptor\<close>, the raw descriptor), which only calls the protobuf runtime; a
  \<open>CommandRunner\<close> other than the default is an opaque value; the HTTP server's own limits and
  timeouts.
\<close>

section \<open>Client and daemon together\<close>

text \<open>
  The network between the client and a daemon that listens at \<open>base\<close>: a request for a URL
  under the base reaches the daemon's mux with its path and query, whose answer comes back; every
  other request is refused. \<open>t\<close> and \<open>ck\<close> are the daemon's clock.
\<close>

definition daemon_do :: "string \<Rightarrow> (string \<Rightarrow> url_error \<Rightarrow> string) \<Rightarrow> instant \<Rightarrow> op_clock \<Rightarrow> Manager do_fn" where
  "daemon_do base url_text t ck client req m =
     (if HasPrefix (cr_URL req) base then
        (case Cut (drop (length base) (cr_URL req)) CHR ''?'' of (path, query, _) \<Rightarrow>
          (case serve_http url_text Manager_Open Manager_Close Manager_ListTargets t ck
                  \<lparr>rq_Method = cr_Method req, rq_Path = path, rq_RawQuery = query, rq_Header = cr_Header req, rq_Body = [],
                   rq_Ctx = Background\<rparr> m of
             (Answered resp, m') \<Rightarrow> (Inr resp, m')
           | (Redirect _, m') \<Rightarrow> (Inl ''redirect'', m')))
      else (Inl ''connection refused'', m))"

text \<open>A gRPC side that is not there.\<close>

definition no_grpc :: dialer_fn where
  "no_grpc ctx addr opts = Some ''grpc: unavailable''"

text \<open>What the client's flags are when none is given, and the runtime it then uses.\<close>

definition plain_env :: "(string \<Rightarrow> string) \<Rightarrow> bool" where
  "plain_env getenv \<longleftrightarrow> getenv ''CLOUDTAP_TLS_CERT'' = [] \<and> getenv ''CLOUDTAP_TLS_KEY'' = [] \<and> getenv ''CLOUDTAP_CA_CERT'' = []"

definition default_runtime :: "(string \<Rightarrow> string) \<Rightarrow> clientRuntime" where
  "default_runtime getenv = make_runtime (client_defaults getenv) None"

lemma client_main_command:
  assumes "plain_env getenv" and "args \<noteq> []" and "hd args = [] \<or> hd (hd args) \<noteq> CHR ''-''"
  shows "client_main url_text json_text load rd pem getenv now dial conn http_do args s =
    run_command url_text json_text dial conn http_do (default_runtime getenv) (WithTimeout Background now (15 * Second)) args s"
proof -
  have "parse_flags client_flags (client_defaults getenv) args = Parsed (client_defaults getenv) args"
    using assms(3) by (intro parse_flags_stops) blast
  then show ?thesis
    using assms(1,2)
    by (simp add: client_main_def plain_env_def default_runtime_def buildTLSConfig_def flag_get_def client_defaults_def
        client_envOrDefault_def)
qed

text \<open>The request \<open>httpRequest\<close> makes for one of the daemon's endpoints arrives there.\<close>

definition client_paths :: "string list" where
  "client_paths = [''/proxy'', ''/close'', ''/targets'']"

lemma client_paths_plain: "path \<in> set client_paths \<Longrightarrow> plain_path path"
  by (auto simp: client_paths_def plain_path_def is_unreserved_def is_alnum_def is_lower_def)

lemma client_paths_clean: "path \<in> set client_paths \<Longrightarrow> mux_clean path = path"
proof -
  have "list_all (\<lambda>path. mux_clean path = path) client_paths" by code_simp
  then show "path \<in> set client_paths \<Longrightarrow> mux_clean path = path" by (simp add: list_all_iff)
qed

definition arrived :: "clientRuntime \<Rightarrow> string \<Rightarrow> string \<Rightarrow> http_request" where
  "arrived rt path query =
     \<lparr>rq_Method = ''GET'', rq_Path = path, rq_RawQuery = query,
      rq_Header = (if rt_token rt \<noteq> [] then [(''Authorization'', ''Bearer '' @ rt_token rt)] else []), rq_Body = [], rq_Ctx = Background\<rparr>"

lemma encoded_target: "Values_Encode [(''target'', [x])] = ''target='' @ QueryEscape x"
    "list_all query_byte (''target='' @ QueryEscape x)"
proof -
  have "QueryEscape ''target'' = ''target''" by code_simp
  then show "Values_Encode [(''target'', [x])] = ''target='' @ QueryEscape x"
    by (simp add: Values_Encode_def del: QueryEscape.simps)
  have "list_all query_byte ''target=''" by code_simp
  then show "list_all query_byte (''target='' @ QueryEscape x)"
    using QueryEscape_bytes unfolding list_all_append by blast
qed

lemma daemon_do_serves:
  assumes "Cut u CHR ''?'' = (path, query, found)"
    and "serve_http url_text Manager_Open Manager_Close Manager_ListTargets t ck (arrived rt path query) m = (Answered resp, m')"
  shows "daemon_do base url_text t ck client
      \<lparr>cr_Method = ''GET'', cr_URL = base @ u, cr_Header = rq_Header (arrived rt path query), cr_Ctx = ctx\<rparr> m = (Inr resp, m')"
  using assms HasPrefix_append [of base u] by (simp add: daemon_do_def arrived_def)

lemma httpRequest_arrives:
  assumes base: "sanitizeHTTPBase (rt_httpBase rt) = ''http://'' @ h @ '':'' @ p" "plain_host h" "list_all is_digit p"
    and path: "path \<in> set client_paths" and query: "query = None \<or> query = Some [(''target'', [x])]"
    and served: "serve_http url_text Manager_Open Manager_Close Manager_ListTargets t ck
      (arrived rt path (case query of None \<Rightarrow> [] | Some vs \<Rightarrow> Values_Encode vs)) m = (Answered resp, m')"
  shows "httpRequest url_text (daemon_do (''http://'' @ h @ '':'' @ p) url_text t ck) rt ctx path query m = (Inr resp, m')"
proof -
  let ?base = "''http://'' @ h @ '':'' @ p" and ?q = "case query of None \<Rightarrow> [] | Some vs \<Rightarrow> Values_Encode vs"
  define tl where "tl = (if ?q = [] then [] else CHR ''?'' # ?q)"
  have "query_part tl"
    using query encoded_target [of x] by (auto simp: tl_def query_part_def)
  then have ok: "url_Parse (?base @ path @ tl) = Inr (''http'', h @ '':'' @ p)"
    using url_Parse_plain [of "''http''" h p path tl] base client_paths_plain [OF path] by (simp add: schemes_def)
  have "CHR ''?'' \<notin> set path" using plain_path_facts(1) [OF client_paths_plain [OF path]] .
  then obtain b where "Cut (path @ tl) CHR ''?'' = (path, ?q, b)"
    by (cases "?q = []") (simp_all add: tl_def Cut_none)
  from daemon_do_serves [OF this served] have "daemon_do ?base url_text t ck client
      \<lparr>cr_Method = ''GET'', cr_URL = ?base @ path @ tl, cr_Header = rq_Header (arrived rt path ?q), cr_Ctx = ctx\<rparr> m
      = (Inr resp, m')" for client .
  moreover have "httpRequest url_text http_do rt ctx path query m =
      http_do (case rt_httpClient rt of None \<Rightarrow> DefaultClient | Some c \<Rightarrow> c)
        \<lparr>cr_Method = ''GET'', cr_URL = ?base @ path @ tl, cr_Header = rq_Header (arrived rt path ?q), cr_Ctx = ctx\<rparr> m"
    for http_do :: "Manager do_fn"
  proof -
    have "(case query of None \<Rightarrow> ?base @ path | Some vs \<Rightarrow> if Values_Encode vs \<noteq> [] then (?base @ path) @ ''?'' @ Values_Encode vs
        else ?base @ path) = ?base @ path @ tl"
      by (cases query) (simp_all add: tl_def)
    with ok show ?thesis by (simp only: httpRequest_def Let_def base(1) sum.case) (simp add: arrived_def)
  qed
  ultimately show ?thesis by simp
qed

text \<open>
  A client with settings that lead to the daemon: no TLS files, and the daemon's address as base.
\<close>

definition reaches :: "(string \<Rightarrow> string) \<Rightarrow> string \<Rightarrow> bool" where
  "reaches getenv base \<longleftrightarrow> plain_env getenv \<and> sanitizeHTTPBase (defaultHTTPURL getenv) = base"

definition plain_base :: "string \<Rightarrow> bool" where
  "plain_base base \<longleftrightarrow> (\<exists>h p. base = ''http://'' @ h @ '':'' @ p \<and> plain_host h \<and> list_all is_digit p)"

lemma default_runtime_base: "rt_httpBase (default_runtime getenv) = defaultHTTPURL getenv"
  by (simp add: default_runtime_def make_runtime_def flag_get_def client_defaults_def)

lemma request_reaches:
  assumes "reaches getenv base" and "plain_base base" and "path \<in> set client_paths"
    and "query = None \<or> query = Some [(''target'', [x])]"
    and "serve_http url_text Manager_Open Manager_Close Manager_ListTargets t ck
      (arrived (default_runtime getenv) path (case query of None \<Rightarrow> [] | Some vs \<Rightarrow> Values_Encode vs)) m = (Answered resp, m')"
  shows "httpRequest url_text (daemon_do base url_text t ck) (default_runtime getenv) ctx path query m = (Inr resp, m')"
  using assms httpRequest_arrives [of "default_runtime getenv"]
  by (auto simp: reaches_def plain_base_def default_runtime_base)

lemma served_query: "query_Get (rq_RawQuery (arrived rt path (Values_Encode [(k, [x])]))) k = x"
  by (simp add: arrived_def query_Get_Values_Encode)

lemma serve_proxy:
  assumes "x \<noteq> []" and "Open ck (WithTimeout Background t (5 * Second)) x m = (e, m')"
  shows "serve_http url_text Open Close ListTargets t ck (arrived rt ''/proxy'' (Values_Encode [(''target'', [x])])) m =
    (Answered (case e of None \<Rightarrow> http_ok (''proxy to '' @ x @ '' initiated'')
                | Some err \<Rightarrow> http_Error (tunnel_error_text url_text err) 502), m')"
  using assms served_query [of rt "''/proxy''" "''target''" x] client_paths_clean [of "''/proxy''"]
  by (simp add: serve_http_def handle_proxy_def client_paths_def arrived_def split: option.split)

lemma serve_close:
  assumes "x \<noteq> []" and "Close ck (WithTimeout Background t (5 * Second)) x m = (e, m')"
  shows "serve_http url_text Open Close ListTargets t ck (arrived rt ''/close'' (Values_Encode [(''target'', [x])])) m =
    (Answered (case e of None \<Rightarrow> http_ok (''closed tunnel to '' @ x)
                | Some err \<Rightarrow> http_Error (tunnel_error_text url_text err) 400), m')"
  using assms served_query [of rt "''/close''" "''target''" x] client_paths_clean [of "''/close''"]
  by (simp add: serve_http_def handle_close_def client_paths_def arrived_def split: option.split)

lemma fallback_only: "grpc s = (Some e, [], s) \<Longrightarrow> with_fallback grpc http s =
    (case http s of (e', out, s') \<Rightarrow> (map_option ((@) ''http fallback failed: '') e', out, s'))"
  by (simp add: with_fallback_def split: prod.split option.split)

lemma tunnelHTTP_answer:
  assumes "httpRequest url_text http_do rt ctx path (Some [(''target'', [x])]) s = (Inr resp, s')"
  shows "tunnelHTTP url_text http_do rt ctx path x s =
    (if rs_Status resp \<ge> 400 then (Some (http_failure resp), [], s') else (None, [TrimSpace (rs_Body resp)], s'))"
  using assms by (simp add: tunnelHTTP_def)

text \<open>What the two tunnel commands print and how they end when only HTTP answers.\<close>

lemmas command_defs =
  run_command_def flag_Arg_def requestTunnel_def closeTunnel_def requestTunnelGRPC_def closeTunnelGRPC_def
  dialGRPC_def no_grpc_def

lemma proxy_over_http:
  assumes "reaches getenv base" and "plain_base base" and "x \<noteq> []"
    and "Manager_Open ck (WithTimeout Background t (5 * Second)) x m = (e, m')"
  shows "requestTunnelHTTP url_text (daemon_do base url_text t ck) (default_runtime getenv) ctx x m =
      (case e of
         None \<Rightarrow> (None, [''proxy to '' @ x @ '' initiated''], m')
       | Some err \<Rightarrow> (Some (http_failure (http_Error (tunnel_error_text url_text err) 502)), [], m'))"
proof -
  let ?resp = "case e of None \<Rightarrow> http_ok (''proxy to '' @ x @ '' initiated'') | Some err \<Rightarrow> http_Error (tunnel_error_text url_text err) 502"
  have "httpRequest url_text (daemon_do base url_text t ck) (default_runtime getenv) ctx ''/proxy'' (Some [(''target'', [x])]) m
      = (Inr ?resp, m')"
    using serve_proxy [of x Manager_Open, OF assms(3,4)]
    by (intro request_reaches [OF assms(1,2)]) (auto simp: client_paths_def)
  moreover have "TrimSpace (''proxy to '' @ x @ '' initiated'') = ''proxy to '' @ x @ '' initiated''"
    by (rule TrimSpace_visible) (simp_all add: visible_def)
  ultimately show ?thesis
    by (simp add: requestTunnelHTTP_def tunnelHTTP_answer http_ok_def http_Error_def split: option.split)
qed

lemma close_over_http:
  assumes "reaches getenv base" and "plain_base base" and "x \<noteq> []"
    and "Manager_Close ck (WithTimeout Background t (5 * Second)) x m = (e, m')"
  shows "closeTunnelHTTP url_text (daemon_do base url_text t ck) (default_runtime getenv) ctx x m =
      (case e of
         None \<Rightarrow> (None, [TrimSpace (''closed tunnel to '' @ x)], m')
       | Some err \<Rightarrow> (Some (http_failure (http_Error (tunnel_error_text url_text err) 400)), [], m'))"
proof -
  let ?resp = "case e of None \<Rightarrow> http_ok (''closed tunnel to '' @ x) | Some err \<Rightarrow> http_Error (tunnel_error_text url_text err) 400"
  have "httpRequest url_text (daemon_do base url_text t ck) (default_runtime getenv) ctx ''/close'' (Some [(''target'', [x])]) m
      = (Inr ?resp, m')"
    using serve_close [of x Manager_Close, OF assms(3,4)]
    by (intro request_reaches [OF assms(1,2)]) (auto simp: client_paths_def)
  then show ?thesis
    by (simp add: closeTunnelHTTP_def tunnelHTTP_answer http_ok_def http_Error_def split: option.split)
qed

lemma client_proxy_run:
  assumes "reaches getenv base" and "plain_base base" and "x \<noteq> []"
    and "Manager_Open ck (WithTimeout Background t (5 * Second)) x m = (e, m')"
  shows "client_main url_text json_text load rd pem getenv now no_grpc conn (daemon_do base url_text t ck) [''proxy'', x] m =
      (case e of
         None \<Rightarrow> (ExitOk, [''proxy to '' @ x @ '' initiated''], m')
       | Some err \<Rightarrow>
           (Fatal (''proxy failed: http fallback failed: '' @ http_failure (http_Error (tunnel_error_text url_text err) 502)), [], m'))"
  using assms(1,3) proxy_over_http [OF assms]
  by (simp add: client_main_command reaches_def command_defs fallback_only split: option.split)

lemma client_close_run:
  assumes "reaches getenv base" and "plain_base base" and "x \<noteq> []"
    and "Manager_Close ck (WithTimeout Background t (5 * Second)) x m = (e, m')"
  shows "client_main url_text json_text load rd pem getenv now no_grpc conn (daemon_do base url_text t ck) [''close'', x] m =
      (case e of
         None \<Rightarrow> (ExitOk, [TrimSpace (''closed tunnel to '' @ x)], m')
       | Some err \<Rightarrow>
           (Fatal (''close failed: http fallback failed: '' @ http_failure (http_Error (tunnel_error_text url_text err) 400)), [], m'))"
  using assms(1,3) close_over_http [OF assms]
  by (simp add: client_main_command reaches_def command_defs fallback_only split: option.split)

text \<open>
  C6. \<open>cloudtapctl proxy x\<close> against a daemon whose gRPC side cannot be dialled, for every
  non-empty target whatever its bytes: the target reaches the tunnel manager unchanged through URL
  encoding, parsing and the mux; if the manager opens the tunnel the client prints the daemon's
  message, exits normally and exactly that tunnel is open in addition; if not, the client exits
  with the daemon's 502 answer and the open tunnels are the same.
\<close>

theorem client_proxy_end_to_end:
  assumes "reaches getenv base" and "plain_base base" and "x \<noteq> []" and "manager_inv m"
    and "Manager_Open ck (WithTimeout Background t (5 * Second)) x m = (e, m')"
  shows "client_main url_text json_text load rd pem getenv now no_grpc conn (daemon_do base url_text t ck) [''proxy'', x] m =
      (case e of
         None \<Rightarrow> (ExitOk, [''proxy to '' @ x @ '' initiated''], m')
       | Some err \<Rightarrow>
           (Fatal (''proxy failed: http fallback failed: '' @ http_failure (http_Error (tunnel_error_text url_text err) 502)), [], m'))
    \<and> (\<forall>k. tunnel_open m' k \<longleftrightarrow> e = None \<and> k = x \<or> tunnel_open m k)"
proof -
  have "tunnel_open m' k \<longleftrightarrow> e = None \<and> k = x \<or> tunnel_open m k" for k
    using assms(5) mgr.open_opens [OF assms(4), of ck _ x m' k] mgr.open_fails [OF assms(4), of ck _ x _ m' k]
    by (cases e) auto
  with client_proxy_run [OF assms(1-3,5)] show ?thesis by blast
qed

text \<open>
  C7. A session of three commands against the same daemon (HTTP only): after a
  \<open>cloudtapctl proxy x\<close> that exited normally, \<open>cloudtapctl close x\<close> exits normally and
  leaves exactly the tunnels open that were open before the session apart from \<open>x\<close>, and a
  second \<open>close x\<close> is refused with a 400 answer and changes nothing, provided the daemon reads
  its clock within the five seconds it gives each request.
\<close>

theorem client_session:
  assumes "reaches getenv base" and "plain_base base" and "x \<noteq> []" and "manager_inv m"
    and "client_main url_text json_text load rd pem getenv now_a no_grpc conn (daemon_do base url_text t1 ck1) [''proxy'', x] m = (ExitOk, out, m1)"
    and "ctx_Err (WithTimeout Background t2 (5 * Second)) (ck_check ck2) = None"
    and "ctx_Err (WithTimeout Background t3 (5 * Second)) (ck_check ck3) = None"
  shows "out = [''proxy to '' @ x @ '' initiated''] \<and> tunnel_open m1 x
    \<and> (\<exists>m2. client_main url_text json_text load rd pem getenv now_b no_grpc conn (daemon_do base url_text t2 ck2) [''close'', x] m1
          = (ExitOk, [TrimSpace (''closed tunnel to '' @ x)], m2)
        \<and> (\<forall>k. tunnel_open m2 k \<longleftrightarrow> k \<noteq> x \<and> tunnel_open m k)
        \<and> client_main url_text json_text load rd pem getenv now_c no_grpc conn (daemon_do base url_text t3 ck3) [''close'', x] m2
          = (Fatal (''close failed: http fallback failed: '' @ http_failure (http_Error (tunnel_error_text url_text (NoActiveTunnel x)) 400)), [], m2))"
proof -
  obtain e m' where res: "Manager_Open ck1 (WithTimeout Background t1 (5 * Second)) x m = (e, m')" by fastforce
  from client_proxy_run [OF assms(1-3) res] assms(5)
  have "e = None \<and> m' = m1 \<and> out = [''proxy to '' @ x @ '' initiated'']" by (auto split: option.splits)
  with res have opened: "Manager_Open ck1 (WithTimeout Background t1 (5 * Second)) x m = (None, m1)"
    and out: "out = [''proxy to '' @ x @ '' initiated'']" by simp_all
  obtain m2 where closed: "Manager_Close ck2 (WithTimeout Background t2 (5 * Second)) x m1 = (None, m2)"
      "\<And>k. tunnel_open m2 k \<longleftrightarrow> k \<noteq> x \<and> tunnel_open m k"
    using mgr.close_after_open [OF assms(4) opened assms(6)] by blast
  have again: "Manager_Close ck3 (WithTimeout Background t3 (5 * Second)) x m2 = (Some (NoActiveTunnel x), m2)"
    by (rule mgr.close_twice [OF closed(1) assms(7)])
  show ?thesis
    using out mgr.open_opens [OF assms(4) opened, of x] closed(2)
      client_close_run [OF assms(1-3) closed(1)] client_close_run [OF assms(1-3) again] by simp
qed

lemma json_targets: "\<forall>n\<in>set ns. valid_utf8 n \<Longrightarrow>
    Unmarshal dec_payload (json_first (json_Encode (targets_json ns))) [] = Some ns"
  using dec_payload_targets [of ns] by (simp add: targets_json_first targets_json_def [symmetric])

text \<open>
  C17. \<open>cloudtapctl list-targets\<close> against the daemon (HTTP only) prints exactly the names the
  manager lists, one per line in strictly ascending order, after the manager's answer went through
  the JSON document of \<open>/targets\<close> and back (names in valid UTF-8); a failing listing ends the
  client with the daemon's 500 answer.
\<close>

theorem client_list_end_to_end:
  assumes "reaches getenv base" and "plain_base base" and "manager_inv m"
    and "Manager_ListTargets ck (WithTimeout Background t (3 * Second)) m = (r, m')"
    and "\<And>ns. r = Inr ns \<Longrightarrow> \<forall>n\<in>set ns. valid_utf8 n"
  shows "client_main url_text json_text load rd pem getenv now no_grpc conn (daemon_do base url_text t ck) [''list-targets''] m =
      (case r of
         Inr ns \<Rightarrow> (ExitOk, ns, m')
       | Inl err \<Rightarrow> (Fatal (''list-targets failed: '' @ http_failure (http_Error (tunnel_error_text url_text err) 500)), [], m'))
    \<and> (\<forall>ns. r = Inr ns \<longrightarrow> sorted_wrt (<) ns)"
proof -
  let ?rt = "default_runtime getenv" and ?ctx = "WithTimeout Background now (15 * Second)"
  obtain resp m1 where hand: "handle_targets url_text Manager_ListTargets t ck (arrived ?rt ''/targets'' []) m = (resp, m1)" by fastforce
  have resp: "m1 = m'" "resp = (case r of Inl err \<Rightarrow> http_Error (tunnel_error_text url_text err) 500
      | Inr ns \<Rightarrow> \<lparr>rs_Status = 200, rs_Header = [(''Content-Type'', ''application/json'')], rs_Body = json_Encode (targets_json ns)\<rparr>)"
    using hand assms(4) by (auto simp: handle_targets_def arrived_def split: sum.splits)
  have "httpRequest url_text (daemon_do base url_text t ck) ?rt ?ctx ''/targets'' None m = (Inr resp, m')"
    using hand resp(1) client_paths_clean [of "''/targets''"]
    by (intro request_reaches [OF assms(1,2)]) (simp_all add: client_paths_def serve_http_def, simp add: arrived_def)
  then have "client_main url_text json_text load rd pem getenv now no_grpc conn (daemon_do base url_text t ck) [''list-targets''] m =
      (case r of
         Inr ns \<Rightarrow> (ExitOk, ns, m')
       | Inl err \<Rightarrow> (Fatal (''list-targets failed: '' @ http_failure (http_Error (tunnel_error_text url_text err) 500)), [], m'))"
    using assms(1,5) resp(2) json_targets
    by (auto simp: client_main_command reaches_def run_command_def flag_Arg_def listTargets_def listTargetsGRPC_def
        dialGRPC_def no_grpc_def listTargetsHTTP_def http_Error_def split: sum.splits)
  moreover have "r = Inr ns \<Longrightarrow> sorted_wrt (<) ns" for ns
    using mgr.list_sorted [OF assms(3), of ck _ ns m'] assms(4) by (simp add: strict_sorted_iff)
  ultimately show ?thesis by blast
qed

text \<open>The client with an empty environment against the daemon at its default address.\<close>

definition local_base :: string where
  "local_base = ''http://localhost:8080''"

definition no_env :: "string \<Rightarrow> string" where
  "no_env key = []"

definition no_conn :: "Manager conn_fn" where
  "no_conn addr opts ctx md method req out m = ((Some ''unreachable'', out), m)"

lemma local_setting: "reaches no_env local_base" "plain_base local_base"
proof -
  have "sanitizeHTTPBase local_base = local_base" by code_simp
  then show "reaches no_env local_base"
    by (simp add: reaches_def plain_env_def no_env_def defaultHTTPURL_def local_base_def)
  have "plain_host ''localhost''" "list_all is_digit ''8080''" by code_simp+
  then show "plain_base local_base"
    unfolding plain_base_def local_base_def by (intro exI [of _ "''localhost''"] exI [of _ "''8080''"]) simp
qed

lemma request_in_time: "0 < d \<Longrightarrow> ctx_Err (WithTimeout Background t d) t = None"
  by (simp add: ctx_Err_def WithTimeout_def)

definition local_run :: "string list \<Rightarrow> Manager \<Rightarrow> client_exit \<times> string list \<times> Manager" where
  "local_run = client_main plain_url_text (\<lambda>body. ''bad json'') (\<lambda>c k. Inl ''no key'') (\<lambda>f. Inl ''no file'') (\<lambda>d. None) no_env 0
     no_grpc no_conn (daemon_do local_base plain_url_text (ck_check now_clock) now_clock)"

lemma demo_opens_within:
  assumes "Second \<le> d"
  shows "\<exists>m1. Manager_Open now_clock (WithTimeout Background (ck_check now_clock) d) ''demo-service'' NewDefaultManager = (None, m1)"
proof -
  have "ctx_Err (WithTimeout Background t d) t = None" for t
    using assms by (intro request_in_time) (simp add: Second_def Millisecond_def)
  with assms show ?thesis
    by (simp add: now_clock_def Manager_Open_def ensureTargets_def open_locked_def NewDefaultManager_def NewManager_def Let_def
      demo_targets_def StaticSource_Targets_def SimulatedDialer_Connect_def map_of_update_eq WithTimeout_def Second_def
      Millisecond_def split: option.split)
qed

lemma demo_opens:
  "\<exists>m1. Manager_Open now_clock (WithTimeout Background (ck_check now_clock) (5 * Second)) ''demo-service'' NewDefaultManager = (None, m1)"
  by (rule demo_opens_within) (simp add: Second_def Millisecond_def)

theorem client_proxy_end_to_end_witness:
  "\<exists>m1. local_run [''proxy'', ''demo-service''] NewDefaultManager = (ExitOk, [''proxy to demo-service initiated''], m1)
     \<and> tunnel_open m1 ''demo-service''"
proof -
  obtain m1 where "Manager_Open now_clock (WithTimeout Background (ck_check now_clock) (5 * Second)) ''demo-service'' NewDefaultManager = (None, m1)"
    using demo_opens by blast
  from client_proxy_end_to_end [OF local_setting _ default_manager_inv this] show ?thesis
    by (simp add: local_run_def)
qed

theorem client_session_witness:
  "\<exists>m1 m2. local_run [''proxy'', ''demo-service''] NewDefaultManager = (ExitOk, [''proxy to demo-service initiated''], m1)
     \<and> local_run [''close'', ''demo-service''] m1 = (ExitOk, [''closed tunnel to demo-service''], m2) \<and> \<not> tunnel_open m2 ''demo-service''"
proof -
  obtain m1 where "Manager_Open now_clock (WithTimeout Background (ck_check now_clock) (5 * Second)) ''demo-service'' NewDefaultManager = (None, m1)"
    using demo_opens by blast
  from client_proxy_run [OF local_setting _ this] have run: "local_run [''proxy'', ''demo-service''] NewDefaultManager
      = (ExitOk, [''proxy to demo-service initiated''], m1)" by (simp add: local_run_def)
  have alive: "ctx_Err (WithTimeout Background (ck_check now_clock) (5 * Second)) (ck_check now_clock) = None"
    by (rule request_in_time) (simp add: Second_def Millisecond_def)
  have trim: "TrimSpace ''closed tunnel to demo-service'' = ''closed tunnel to demo-service''" by code_simp
  have "''demo-service'' \<noteq> []" by simp
  from client_session [where now_b = 0 and now_c = 0, OF local_setting this default_manager_inv run [unfolded local_run_def] alive alive]
  obtain m2 where "local_run [''close'', ''demo-service''] m1 = (ExitOk, [''closed tunnel to demo-service''], m2)"
      and "\<not> tunnel_open m2 ''demo-service''" by (auto simp: local_run_def trim)
  with run show ?thesis by blast
qed

lemma demo_lists:
  "\<exists>m1. Manager_ListTargets now_clock (WithTimeout Background (ck_check now_clock) (3 * Second)) NewDefaultManager
     = (Inr [''demo-service'', ''logs-gateway'', ''metrics-api''], m1)"
proof -
  have "ctx_Err (WithTimeout Background t (3 * Second)) t = None" for t
    by (rule request_in_time) (simp add: Second_def Millisecond_def)
  moreover have "\<not> time_Sub (ck_since now_clock) 0 < 30 * Second"
    by (simp add: now_clock_def time_Sub_def time_Unix_def wrap64_def Let_def Second_def Millisecond_def
        min_int64_def max_int64_def)
  moreover have "list_locked (NewDefaultManager\<lparr>mg_targets := store_all t_Name demo_targets [], mg_lastRefresh := t\<rparr>)
      = [''demo-service'', ''logs-gateway'', ''metrics-api'']" for t
    by code_simp
  ultimately show ?thesis
    by (simp add: now_clock_def Manager_ListTargets_def ensureTargets_def NewDefaultManager_def NewManager_def Let_def
      StaticSource_Targets_def)
qed

theorem client_list_end_to_end_witness:
  "\<exists>m1. local_run [''list-targets''] NewDefaultManager = (ExitOk, [''demo-service'', ''logs-gateway'', ''metrics-api''], m1)"
proof -
  obtain m1 where res: "Manager_ListTargets now_clock (WithTimeout Background (ck_check now_clock) (3 * Second)) NewDefaultManager
      = (Inr [''demo-service'', ''logs-gateway'', ''metrics-api''], m1)" using demo_lists by blast
  have "valid_utf8 n" if "n \<in> set [''demo-service'', ''logs-gateway'', ''metrics-api'']" for n
    using that by (intro valid_utf8_ascii) auto
  with client_list_end_to_end [OF local_setting default_manager_inv res] show ?thesis
    by (simp add: local_run_def)
qed

section \<open>The client over gRPC\<close>

text \<open>Protocol buffers carry valid UTF-8 only.\<close>

fun utf8_message :: "message \<Rightarrow> bool" where
  "utf8_message (MOpenRequest m) = valid_utf8 (orq_Target m)"
| "utf8_message (MOpenResponse m) = valid_utf8 (ors_Message m)"
| "utf8_message (MCloseRequest m) = valid_utf8 (crq_Target m)"
| "utf8_message (MCloseResponse m) = valid_utf8 (crs_Message m)"
| "utf8_message (MListTargetsRequest m) = True"
| "utf8_message (MListTargetsResponse m) = list_all valid_utf8 (lrs_Targets m)"

text \<open>
  A connection to the daemon's gRPC server, whose service is the manager's: \<open>sctx\<close> is the
  context the server derives from the client's, \<open>ck\<close> the daemon's clock.
\<close>

abbreviation manager_service :: "(string \<Rightarrow> url_error \<Rightarrow> string) \<Rightarrow> op_clock \<Rightarrow> Manager TunnelServiceServer" where
  "manager_service url_text ck \<equiv> tunnelServer url_text Manager_Open Manager_Close Manager_ListTargets ck"

definition daemon_conn :: "(string \<Rightarrow> url_error \<Rightarrow> string) \<Rightarrow> (go_ctx \<Rightarrow> go_ctx) \<Rightarrow> op_clock \<Rightarrow> Manager conn_fn" where
  "daemon_conn url_text sctx ck addr opts ctx md method req out m =
     (if \<not> utf8_message req then ((Some ''grpc: error while marshaling'', out), m)
      else (case find_method TunnelService_ServiceDesc method of
              None \<Rightarrow> ((Some ''rpc error: unknown method'', out), m)
            | Some h \<Rightarrow>
                (case h (manager_service url_text ck) (sctx ctx) (\<lambda>_. Inr req) None m of
                   (Inl e, m') \<Rightarrow> ((Some (''rpc error: '' @ e), out), m')
                 | (Inr reply, m') \<Rightarrow>
                     if utf8_message reply then ((None, reply), m')
                     else ((Some ''grpc: error while marshaling'', out), m'))))"

interpretation link: grpc_link "daemon_conn url_text sctx ck addr opts" "manager_service url_text ck" sctx utf8_message
  by unfold_locales (simp_all add: daemon_conn_def)

definition dial_ok :: dialer_fn where
  "dial_ok ctx addr opts = None"

lemma service_methods:
  "srv_Open (manager_service url_text ck) = tunnelServer_Open url_text Manager_Open ck"
  "srv_Close (manager_service url_text ck) = tunnelServer_Close url_text Manager_Close ck"
  by (simp_all add: tunnelServer_def)



subsection \<open>A lost reply\<close>

text \<open>A connection that breaks after the server handled the call.\<close>

definition lose_reply :: "Manager conn_fn \<Rightarrow> Manager conn_fn" where
  "lose_reply conn addr opts ctx md method req out m =
     (case conn addr opts ctx md method req out m of (_, m') \<Rightarrow> ((Some ''rpc error: transport is closing'', out), m'))"

lemma close_over_grpc:
  assumes "x \<noteq> []" and "valid_utf8 x" and "Manager_Close ck (sctx ctx) x m = (None, m')"
  shows "tunnelServiceClient_Close (daemon_conn url_text sctx ck addr opts) ctx md \<lparr>crq_Target = x\<rparr> m
      = (Inr \<lparr>crs_Message = ''closed tunnel to '' @ x\<rparr>, m')"
proof (rule link.close_reply)
  show "utf8_message (MCloseRequest \<lparr>crq_Target = x\<rparr>)" using assms(2) by simp
  have "valid_utf8 ''closed tunnel to ''" by (auto intro!: valid_utf8_ascii)
  then show "utf8_message (MCloseResponse \<lparr>crs_Message = ''closed tunnel to '' @ x\<rparr>)"
    using assms(2) valid_utf8_append [of "''closed tunnel to ''"] by simp
  show "srv_Close (manager_service url_text ck) (sctx ctx) (Some \<lparr>crq_Target = x\<rparr>) m
      = (Inr \<lparr>crs_Message = ''closed tunnel to '' @ x\<rparr>, m')"
    using assms(1,3) by (simp add: service_methods tunnelServer_Close_def CloseRequest_GetTarget_def)
qed

lemma close_loses_reply:
  assumes "tunnelServiceClient_Close (conn addr opts) ctx md req m = (r, m')"
  shows "tunnelServiceClient_Close (lose_reply conn addr opts) ctx md req m = (Inl ''rpc error: transport is closing'', m')"
  using assms by (auto simp: tunnelServiceClient_Close_def lose_reply_def split: prod.splits option.splits)

text \<open>
  C18. \<open>cloudtapctl close x\<close> for an open tunnel \<open>x\<close>, the daemon in time: it closes exactly
  that tunnel and reports so when the reply arrives. When only the reply is lost, the tunnel is
  closed just the same, but \<open>closeTunnel\<close> repeats the request over HTTP, where the tunnel no longer
  exists, and the client ends with a fatal error although what it was asked to do is done.
\<close>

theorem close_reply_lost:
  assumes "reaches getenv base" and "plain_base base" and "x \<noteq> []" and "valid_utf8 x" and "tunnel_open m x"
    and "ctx_Err (sctx (WithTimeout Background now (15 * Second))) (ck_check ckg) = None"
    and "ctx_Err (WithTimeout Background t (5 * Second)) (ck_check ck) = None"
  shows "\<exists>m'. (\<forall>k. tunnel_open m' k \<longleftrightarrow> k \<noteq> x \<and> tunnel_open m k)
    \<and> client_main url_text json_text load rd pem getenv now dial_ok (daemon_conn url_text sctx ckg)
        (daemon_do base url_text t ck) [''close'', x] m = (ExitOk, [''closed tunnel to '' @ x], m')
    \<and> client_main url_text json_text load rd pem getenv now dial_ok (lose_reply (daemon_conn url_text sctx ckg))
        (daemon_do base url_text t ck) [''close'', x] m
      = (Fatal (''close failed: http fallback failed: '' @ http_failure (http_Error (''no active tunnel for '' @ x) 400)), [], m')"
proof -
  let ?rt = "default_runtime getenv" and ?ctx = "WithTimeout Background now (15 * Second)"
  obtain m' where closed: "Manager_Close ckg (sctx ?ctx) x m = (None, m')"
    using Manager_Close_spec(3) [OF assms(6,5)] by blast
  have gone: "tunnel_open m' k \<longleftrightarrow> k \<noteq> x \<and> tunnel_open m k" for k
    using Manager_Close_spec(1) [OF closed] by blast
  then have again: "Manager_Close ck (WithTimeout Background t (5 * Second)) x m' = (Some (NoActiveTunnel x), m')"
    using Manager_Close_spec(4) [OF assms(7)] by blast
  note answered = close_over_grpc [where url_text = url_text and sctx = sctx and ctx = ?ctx, OF assms(3,4) closed]
  note http = close_over_http [where ctx = ?ctx and url_text = url_text, OF assms(1-3) again]
  note run_defs = client_main_command reaches_def run_command_def flag_Arg_def closeTunnel_def closeTunnelGRPC_def
    dialGRPC_def dial_ok_def with_fallback_def CloseResponse_GetMessage_def
  show ?thesis
    using assms(1,3) gone http by (intro exI [of _ m']) (simp add: run_defs answered close_loses_reply [OF answered])
qed

subsection \<open>Concrete sessions over gRPC\<close>

text \<open>The default daemon, its gRPC server handing the client's context on.\<close>

definition local_grpc_run :: "(Manager conn_fn \<Rightarrow> Manager conn_fn) \<Rightarrow> string list \<Rightarrow> Manager \<Rightarrow> client_exit \<times> string list \<times> Manager" where
  "local_grpc_run link = client_main plain_url_text (\<lambda>body. ''bad json'') (\<lambda>c k. Inl ''no key'') (\<lambda>f. Inl ''no file'') (\<lambda>d. None)
     no_env (ck_check now_clock) dial_ok (link (daemon_conn plain_url_text id now_clock))
     (daemon_do local_base plain_url_text (ck_check now_clock) now_clock)"


theorem close_reply_lost_witness:
  "\<exists>m1 m2. tunnel_open m1 ''demo-service'' \<and> \<not> tunnel_open m2 ''demo-service''
     \<and> local_grpc_run id [''close'', ''demo-service''] m1 = (ExitOk, [''closed tunnel to demo-service''], m2)
     \<and> local_grpc_run lose_reply [''close'', ''demo-service''] m1
       = (Fatal ''close failed: http fallback failed: http 400: no active tunnel for demo-service'', [], m2)"
proof -
  obtain m1 where opens: "Manager_Open now_clock (WithTimeout Background (ck_check now_clock) (5 * Second)) ''demo-service'' NewDefaultManager
      = (None, m1)" using demo_opens by blast
  then have t: "tunnel_open m1 ''demo-service''" using mgr.open_opens [OF default_manager_inv] by blast
  have x: "''demo-service'' \<noteq> []" "valid_utf8 ''demo-service''" by (auto intro!: valid_utf8_ascii)
  have alive: "ctx_Err (id (WithTimeout Background (ck_check now_clock) (15 * Second))) (ck_check now_clock) = None"
      "ctx_Err (WithTimeout Background (ck_check now_clock) (5 * Second)) (ck_check now_clock) = None"
    by (auto intro!: request_in_time simp: Second_def Millisecond_def)
  have "http_failure (http_Error ''no active tunnel for demo-service'' 400) = ''http 400: no active tunnel for demo-service''" by code_simp
  with close_reply_lost [where sctx = id and now = "ck_check now_clock" and url_text = plain_url_text and json_text = "\<lambda>body. ''bad json''"
      and load = "\<lambda>c k. Inl ''no key''" and rd = "\<lambda>f. Inl ''no file''" and pem = "\<lambda>d. None", OF local_setting x t alive]
  obtain m2 where "\<not> tunnel_open m2 ''demo-service''"
      "local_grpc_run id [''close'', ''demo-service''] m1 = (ExitOk, [''closed tunnel to demo-service''], m2)"
      "local_grpc_run lose_reply [''close'', ''demo-service''] m1
        = (Fatal ''close failed: http fallback failed: http 400: no active tunnel for demo-service'', [], m2)"
    by (auto simp: local_grpc_run_def)
  with t show ?thesis by blast
qed

end
